(* ===== verification/Prelude.thy ===== *)
theory Prelude
  imports Main "HOL-Library.AList"
begin

text \<open>
  What every component shares: Go's \<open>int64\<close> arithmetic with its wrap-around written out, Go
  maps as association lists (insertion order stands for Go's unspecified iteration order, no
  property depends on it), the result type of the database layer, and the collections of facts
  the component proofs draw on.
\<close>

named_theorems wrap_simps \<open>normalisation of sums under 64-bit wrap-around\<close>
named_theorems table_simps \<open>what a statement on a table leaves readable\<close>

section \<open>Go integers\<close>

type_synonym int64 = int

definition max_int64 :: int where
  "max_int64 = 9223372036854775807"

definition min_int64 :: int where
  "min_int64 = - 9223372036854775808"

definition in_int64 :: "int \<Rightarrow> bool" where
  "in_int64 x \<longleftrightarrow> min_int64 \<le> x \<and> x \<le> max_int64"

text \<open>Signed 64-bit wrap-around: the value an \<open>int64\<close> variable holds after \<open>+\<close>, \<open>-\<close> or \<open>*\<close>.\<close>

definition wrap64 :: "int \<Rightarrow> int" where
  "wrap64 x = (x + 9223372036854775808) mod 18446744073709551616 - 9223372036854775808"

lemmas int64_defs = max_int64_def min_int64_def in_int64_def

lemma wrap64_in_int64 [simp, intro]: "in_int64 (wrap64 x)"
  by (simp add: int64_defs wrap64_def)

lemma wrap64_id [simp]: "in_int64 x \<Longrightarrow> wrap64 x = x"
  by (simp add: int64_defs wrap64_def)

lemma wrap64_0 [simp]: "wrap64 0 = 0"
  by (simp add: wrap64_def)

lemma wrap64_idem [simp, wrap_simps]: "wrap64 (wrap64 x) = wrap64 x"
  by simp

lemma wrap64_eq_iff: "wrap64 x = wrap64 y \<longleftrightarrow> x mod 18446744073709551616 = y mod 18446744073709551616"
proof -
  have "wrap64 x = wrap64 y \<longleftrightarrow>
      (x + 9223372036854775808) mod 18446744073709551616 = (y + 9223372036854775808) mod 18446744073709551616"
    by (simp add: wrap64_def)
  also have "\<dots> \<longleftrightarrow> x mod 18446744073709551616 = y mod 18446744073709551616"
    by (simp add: mod_eq_dvd_iff)
  finally show ?thesis .
qed

lemma wrap64_mod: "wrap64 x mod 18446744073709551616 = x mod 18446744073709551616"
  by (metis wrap64_eq_iff wrap64_idem)

lemma wrap64_add_left [wrap_simps]: "wrap64 (wrap64 x + y) = wrap64 (x + y)"
  unfolding wrap64_eq_iff by (metis mod_add_left_eq wrap64_mod)

lemma wrap64_add_right [wrap_simps]: "wrap64 (x + wrap64 y) = wrap64 (x + y)"
  using wrap64_add_left [of y x] by (simp add: add.commute)

section \<open>Go maps\<close>

text \<open>
  \<open>m[k] = v\<close> keeps the position of a key that is already there and appends a new one;
  \<open>delete(m, k)\<close> removes it. \<open>map_of\<close> reads the map.
\<close>

type_synonym ('k, 'v) gomap = "('k \<times> 'v) list"

abbreviation gomap_wf :: "('k, 'v) gomap \<Rightarrow> bool" where
  "gomap_wf m \<equiv> distinct (map fst m)"

definition gomap_set :: "'k \<Rightarrow> 'v \<Rightarrow> ('k, 'v) gomap \<Rightarrow> ('k, 'v) gomap" where
  "gomap_set k v m = AList.update k v m"

definition gomap_delete :: "'k \<Rightarrow> ('k, 'v) gomap \<Rightarrow> ('k, 'v) gomap" where
  "gomap_delete k m = filter (\<lambda>e. fst e \<noteq> k) m"

lemma map_of_gomap_set [simp]: "map_of (gomap_set k v m) = (map_of m)(k \<mapsto> v)"
  by (simp add: gomap_set_def update_conv')

lemma gomap_wf_set [simp, intro]: "gomap_wf m \<Longrightarrow> gomap_wf (gomap_set k v m)"
  by (simp add: gomap_set_def distinct_update)

lemma map_of_gomap_delete [simp]: "map_of (gomap_delete k m) = (map_of m)(k := None)"
  by (induction m) (auto simp: gomap_delete_def fun_eq_iff)

lemma gomap_wf_delete [simp, intro]: "gomap_wf m \<Longrightarrow> gomap_wf (gomap_delete k m)"
  by (induction m) (auto simp: gomap_delete_def)

lemma gomap_set_Nil [simp]: "gomap_set k v [] = [(k, v)]"
  by (simp add: gomap_set_def)

lemma gomap_set_Cons [simp]:
  "gomap_set k v ((k', v') # m) = (if k = k' then (k, v) # m else (k', v') # gomap_set k v m)"
  by (simp add: gomap_set_def)

section \<open>Sums over the entries of one key\<close>

definition sum_for :: "('a \<Rightarrow> bool) \<Rightarrow> ('a \<Rightarrow> int) \<Rightarrow> 'a list \<Rightarrow> int" where
  "sum_for P f xs = sum_list (map f (filter P xs))"

lemma sum_for_Nil [simp]: "sum_for P f [] = 0"
  by (simp add: sum_for_def)

lemma sum_for_Cons [simp]: "sum_for P f (x # xs) = (if P x then f x else 0) + sum_for P f xs"
  by (simp add: sum_for_def)

lemma sum_for_append [simp]: "sum_for P f (xs @ ys) = sum_for P f xs + sum_for P f ys"
  by (simp add: sum_for_def)

lemma sum_for_none: "\<forall>x \<in> set xs. \<not> P x \<Longrightarrow> sum_for P f xs = 0"
  by (induction xs) auto

lemma sum_for_map: "sum_for P f (map g xs) = sum_for (\<lambda>x. P (g x)) (\<lambda>x. f (g x)) xs"
  by (induction xs) auto

lemma sum_for_nonneg: "(\<And>x. x \<in> set xs \<Longrightarrow> 0 \<le> f x) \<Longrightarrow> 0 \<le> sum_for P f xs"
  by (induction xs) auto

text \<open>With distinct keys the sum over one key is the value the map holds for it.\<close>

lemma sum_for_key:
  "gomap_wf m \<Longrightarrow>
   sum_for (\<lambda>e. fst e = k) f m = (case map_of m k of None \<Rightarrow> 0 | Some v \<Rightarrow> f (k, v))"
proof (induction m)
  case (Cons e m)
  then show ?case
    by (cases e) (force intro!: sum_for_none dest: map_of_SomeD split: option.splits)
qed simp

section \<open>Results of the database layer\<close>

datatype store_error = ErrNoRows | ErrUnique

type_synonym 'a result = "store_error + 'a"

end
