(* ===== verification/Codec.thy ===== *)
theory Codec
  imports Prelude
begin

text \<open>
  The byte encodings the code uses: \<open>base64.RawStdEncoding\<close>, \<open>base64.RawURLEncoding\<close>,
  \<open>hex.EncodeToString\<close> and unpadded \<open>base32\<close>. Strings are Go strings, that is byte sequences; a
  byte is read as a number with \<open>of_char\<close>. Decoding follows the (non-strict) standard library: line
  breaks are skipped, unused trailing bits are ignored, a group of one character is an error.
\<close>

section \<open>Alphabets\<close>

definition digit_char :: "string \<Rightarrow> nat \<Rightarrow> char" where
  "digit_char al i = (if i < length al then al ! i else CHR 0x00)"

fun char_digit_from :: "nat \<Rightarrow> string \<Rightarrow> char \<Rightarrow> nat option" where
  "char_digit_from i [] c = None"
| "char_digit_from i (a # al) c = (if a = c then Some i else char_digit_from (Suc i) al c)"

definition char_digit :: "string \<Rightarrow> char \<Rightarrow> nat option" where
  "char_digit al c = char_digit_from 0 al c"

definition std_alphabet :: string where
  "std_alphabet = ''ABCDEFGHIJKLMNOPQRSTUVWXYZabcdefghijklmnopqrstuvwxyz0123456789+/''"

definition url_alphabet :: string where
  "url_alphabet = ''ABCDEFGHIJKLMNOPQRSTUVWXYZabcdefghijklmnopqrstuvwxyz0123456789-_''"

definition hex_alphabet :: string where
  "hex_alphabet = ''0123456789abcdef''"

definition b32_alphabet :: string where
  "b32_alphabet = ''ABCDEFGHIJKLMNOPQRSTUVWXYZ234567''"

lemma char_digit_from_nth:
  "distinct al \<Longrightarrow> i < length al \<Longrightarrow> char_digit_from j al (al ! i) = Some (i + j)"
  by (induction al arbitrary: i j) (auto simp: nth_Cons' less_Suc_eq_0_disj)

lemma char_digit_from_Some:
  "char_digit_from j al c = Some i \<Longrightarrow> j \<le> i \<and> i - j < length al \<and> al ! (i - j) = c"
proof (induction al arbitrary: j)
  case (Cons a al)
  show ?case
  proof (cases "a = c")
    case True
    with Cons.prems show ?thesis by auto
  next
    case False
    with Cons.prems have "char_digit_from (Suc j) al c = Some i" by simp
    from Cons.IH [OF this] show ?thesis by (auto simp: nth_Cons')
  qed
qed simp

locale alphabet =
  fixes al :: string and n :: nat
  assumes distinct_al: "distinct al" and length_al: "length al = n"
begin

lemma char_digit_char [simp]: "i < n \<Longrightarrow> char_digit al (digit_char al i) = Some i"
  using char_digit_from_nth [OF distinct_al, of i 0]
  by (simp add: char_digit_def digit_char_def length_al)

lemma char_digit_bound: "char_digit al c = Some i \<Longrightarrow> i < n"
  using char_digit_from_Some [of 0 al c i] by (simp add: char_digit_def length_al)

lemma digit_char_in [simp]: "i < n \<Longrightarrow> digit_char al i \<in> set al"
  by (simp add: digit_char_def length_al)

lemma digit_char_inject: "i < n \<Longrightarrow> j < n \<Longrightarrow> digit_char al i = digit_char al j \<longleftrightarrow> i = j"
  by (metis char_digit_char option.inject)

lemma those_digits [simp]:
  "\<forall>d \<in> set ds. d < n \<Longrightarrow> those (map (char_digit al) (map (digit_char al) ds)) = Some ds"
  by (induction ds) auto

end

interpretation std: alphabet std_alphabet 64
  by unfold_locales (simp_all add: std_alphabet_def)

interpretation url: alphabet url_alphabet 64
  by unfold_locales (simp_all add: url_alphabet_def)

interpretation hexa: alphabet hex_alphabet 16
  by unfold_locales (simp_all add: hex_alphabet_def)

interpretation b32a: alphabet b32_alphabet 32
  by unfold_locales (simp_all add: b32_alphabet_def)

section \<open>Regrouping bytes into digits\<close>

definition bytes_of :: "string \<Rightarrow> nat list" where
  "bytes_of s = map of_char s"

definition string_of :: "nat list \<Rightarrow> string" where
  "string_of bs = map char_of bs"

lemma string_of_bytes_of [simp]: "string_of (bytes_of s) = s"
  by (simp add: bytes_of_def string_of_def comp_def)

lemma bytes_of_bound [simp]: "b \<in> set (bytes_of s) \<Longrightarrow> b < 256"
  by (auto simp: bytes_of_def)

lemma bytes_of_Cons [simp]: "bytes_of [] = []" "bytes_of (c # s) = of_char c # bytes_of s"
  by (simp_all add: bytes_of_def)

lemma length_bytes_of [simp]: "length (bytes_of s) = length s"
  by (simp add: bytes_of_def)

fun sextets :: "nat list \<Rightarrow> nat list" where
  "sextets [] = []"
| "sextets [a] = [a div 4, a mod 4 * 16]"
| "sextets [a, b] = [a div 4, a mod 4 * 16 + b div 16, b mod 16 * 4]"
| "sextets (a # b # c # bs) =
     [a div 4, a mod 4 * 16 + b div 16, b mod 16 * 4 + c div 64, c mod 64] @ sextets bs"

fun unsextets :: "nat list \<Rightarrow> nat list option" where
  "unsextets [] = Some []"
| "unsextets [w] = None"
| "unsextets [w, x] = Some [w * 4 + x div 16]"
| "unsextets [w, x, y] = Some [w * 4 + x div 16, x mod 16 * 16 + y div 4]"
| "unsextets (w # x # y # z # ds) =
     map_option (\<lambda>bs. [w * 4 + x div 16, x mod 16 * 16 + y div 4, y mod 4 * 64 + z] @ bs)
       (unsextets ds)"

lemma sextets_bound: "\<forall>b \<in> set bs. b < 256 \<Longrightarrow> \<forall>d \<in> set (sextets bs). d < 64"
  by (induction bs rule: sextets.induct) (auto intro: order.strict_trans2)

lemma unsextets_sextets: "\<forall>b \<in> set bs. b < 256 \<Longrightarrow> unsextets (sextets bs) = Some bs"
  by (induction bs rule: sextets.induct) (auto intro: order.strict_trans2)

section \<open>Encoders and decoders\<close>

definition b64_encode :: "string \<Rightarrow> string \<Rightarrow> string" where
  "b64_encode al s = map (digit_char al) (sextets (bytes_of s))"

definition b64_decode :: "string \<Rightarrow> string \<Rightarrow> string option" where
  "b64_decode al s =
     Option.bind (those (map (char_digit al) (filter (\<lambda>c. c \<noteq> CHR 0x0A \<and> c \<noteq> CHR 0x0D) s)))
       (\<lambda>ds. map_option string_of (unsextets ds))"

definition hex_byte :: "nat \<Rightarrow> string" where
  "hex_byte b = [digit_char hex_alphabet (b div 16), digit_char hex_alphabet (b mod 16)]"

definition hex_encode :: "string \<Rightarrow> string" where
  "hex_encode s = concat (map hex_byte (bytes_of s))"

text \<open>The contract of an encoding: decoding gives the bytes back, and the output stays inside a set
  of characters, so a separator outside it cannot be forged.\<close>

locale encoding =
  fixes enc :: "string \<Rightarrow> string" and dec :: "string \<Rightarrow> string option" and chars :: "char set"
  assumes dec_enc [simp]: "dec (enc s) = Some s"
    and enc_chars: "set (enc s) \<subseteq> chars"
begin

lemma enc_inject [simp]: "enc s = enc t \<longleftrightarrow> s = t"
  by (metis dec_enc option.inject)

lemma enc_free: "c \<notin> chars \<Longrightarrow> c \<notin> set (enc s)"
  using enc_chars by blast

end

lemma b64_roundtrip:
  assumes "alphabet al 64" and nl: "CHR 0x0A \<notin> set al" "CHR 0x0D \<notin> set al"
  shows "encoding (b64_encode al) (b64_decode al) (set al)"
proof
  fix s
  let ?ds = "sextets (bytes_of s)"
  have bound: "\<forall>d \<in> set ?ds. d < 64" by (rule sextets_bound) simp
  then have in_al: "set (b64_encode al s) \<subseteq> set al"
    using alphabet.digit_char_in [OF assms(1)] by (auto simp: b64_encode_def)
  then show "set (b64_encode al s) \<subseteq> set al" .
  from in_al nl have "filter (\<lambda>c. c \<noteq> CHR 0x0A \<and> c \<noteq> CHR 0x0D) (b64_encode al s) = b64_encode al s"
    by (auto simp: filter_id_conv)
  moreover have "those (map (char_digit al) (b64_encode al s)) = Some ?ds"
    unfolding b64_encode_def by (rule alphabet.those_digits [OF assms(1) bound])
  moreover have "unsextets ?ds = Some (bytes_of s)"
    by (rule unsextets_sextets) simp
  ultimately show "b64_decode al (b64_encode al s) = Some s"
    by (simp add: b64_decode_def)
qed

interpretation b64std: encoding "b64_encode std_alphabet" "b64_decode std_alphabet" "set std_alphabet"
  by (rule b64_roundtrip) (unfold_locales, simp_all add: std_alphabet_def)

interpretation b64url: encoding "b64_encode url_alphabet" "b64_decode url_alphabet" "set url_alphabet"
  by (rule b64_roundtrip) (unfold_locales, simp_all add: url_alphabet_def)

lemma hex_encode_chars: "set (hex_encode s) \<subseteq> set hex_alphabet"
proof -
  have "set (hex_byte b) \<subseteq> set hex_alphabet" if "b < 256" for b
    using that by (simp add: hex_byte_def)
  then show ?thesis by (fastforce simp: hex_encode_def dest: bytes_of_bound)
qed

lemma length_hex_encode [simp]: "length (hex_encode s) = 2 * length s"
  by (induction s) (simp_all add: hex_encode_def hex_byte_def)

lemma hex_byte_inject:
  assumes "a < 256" "b < 256"
  shows "hex_byte a = hex_byte b \<longleftrightarrow> a = b"
proof -
  have "a div 16 < 16" "b div 16 < 16" using assms by simp_all
  then have "hex_byte a = hex_byte b \<longleftrightarrow> a div 16 = b div 16 \<and> a mod 16 = b mod 16"
    by (simp add: hex_byte_def hexa.digit_char_inject)
  then show ?thesis by (metis div_mult_mod_eq)
qed

lemma hex_encode_inject [simp]: "hex_encode s = hex_encode t \<longleftrightarrow> s = t"
proof (induction s arbitrary: t)
  case Nil
  then show ?case by (cases t) (simp_all add: hex_encode_def hex_byte_def)
next
  case (Cons c s)
  show ?case
  proof (cases t)
    case (Cons d t')
    have "hex_encode (c # s) = hex_encode (d # t') \<longleftrightarrow> hex_byte (of_char c) = hex_byte (of_char d) \<and> hex_encode s = hex_encode t'"
      by (simp add: hex_encode_def hex_byte_def)
    with Cons.IH Cons show ?thesis by (auto simp: hex_byte_inject)
  qed (simp add: hex_encode_def hex_byte_def)
qed

end
