(* ===== verification/Sha.thy ===== *)
theory Sha
  imports Codec "HOL-Library.Word"
begin

text \<open>
  The hash functions of Go's standard library that the panel calls: \<open>crypto/sha256\<close> (session
  signatures, the signature of a node's user set), \<open>crypto/sha1\<close> (TOTP) and \<open>crypto/hmac\<close>, as
  FIPS 180-4 and RFC 2104 define them, on 32-bit words. Messages are shorter than 2^61 bytes.
\<close>

unbundle bit_operations_syntax

type_synonym word32 = "32 word"

definition byte_of_word :: "word32 \<Rightarrow> nat \<Rightarrow> char" where
  "byte_of_word w i = char_of (unat (drop_bit (8 * i) w) mod 256)"

definition word_bytes :: "word32 \<Rightarrow> string" where
  "word_bytes w = [byte_of_word w 3, byte_of_word w 2, byte_of_word w 1, byte_of_word w 0]"

fun words_of :: "nat list \<Rightarrow> word32 list" where
  "words_of (a # b # c # d # bs) = word_of_nat (((a * 256 + b) * 256 + c) * 256 + d) # words_of bs"
| "words_of _ = []"

definition be64 :: "nat \<Rightarrow> nat list" where
  "be64 n = map (\<lambda>i. n div 256 ^ i mod 256) [7, 6, 5, 4, 3, 2, 1, 0]"

text \<open>Padding to a multiple of 64 bytes: a one bit, zeros, the bit length.\<close>

definition sha_pad :: "nat list \<Rightarrow> nat list" where
  "sha_pad bs = bs @ [0x80] @ replicate ((119 - length bs mod 64) mod 64) 0 @ be64 (8 * length bs)"

text \<open>One block of sixteen words after the other.\<close>

fun sha_blocks :: "('h \<Rightarrow> word32 list \<Rightarrow> 'h) \<Rightarrow> nat \<Rightarrow> 'h \<Rightarrow> word32 list \<Rightarrow> 'h" where
  "sha_blocks f 0 h ws = h"
| "sha_blocks f (Suc n) h ws = sha_blocks f n (f h (take 16 ws)) (drop 16 ws)"

section \<open>SHA-256\<close>

type_synonym h256 = "word32 \<times> word32 \<times> word32 \<times> word32 \<times> word32 \<times> word32 \<times> word32 \<times> word32"

text \<open>The constants, in decimal.\<close>

definition k256 :: "word32 list" where
  "k256 = [
     1116352408, 1899447441, 3049323471, 3921009573, 961987163, 1508970993, 2453635748, 2870763221,
     3624381080, 310598401, 607225278, 1426881987, 1925078388, 2162078206, 2614888103, 3248222580,
     3835390401, 4022224774, 264347078, 604807628, 770255983, 1249150122, 1555081692, 1996064986,
     2554220882, 2821834349, 2952996808, 3210313671, 3336571891, 3584528711, 113926993, 338241895,
     666307205, 773529912, 1294757372, 1396182291, 1695183700, 1986661051, 2177026350, 2456956037,
     2730485921, 2820302411, 3259730800, 3345764771, 3516065817, 3600352804, 4094571909, 275423344,
     430227734, 506948616, 659060556, 883997877, 958139571, 1322822218, 1537002063, 1747873779,
     1955562222, 2024104815, 2227730452, 2361852424, 2428436474, 2756734187, 3204031479, 3329325298]"

definition h256_init :: h256 where
  "h256_init = (1779033703, 3144134277, 1013904242, 2773480762, 1359893119, 2600822924, 528734635, 1541459225)"

text \<open>The message schedule, newest word first.\<close>

fun sched256 :: "nat \<Rightarrow> word32 list \<Rightarrow> word32 list" where
  "sched256 0 ws = ws"
| "sched256 (Suc n) ws =
     (let w2 = ws ! 1; w15 = ws ! 14;
          s1 = word_rotr 17 w2 XOR word_rotr 19 w2 XOR drop_bit 10 w2;
          s0 = word_rotr 7 w15 XOR word_rotr 18 w15 XOR drop_bit 3 w15
      in sched256 n ((s1 + ws ! 6 + s0 + ws ! 15) # ws))"

fun round256 :: "h256 \<Rightarrow> word32 \<times> word32 \<Rightarrow> h256" where
  "round256 (a, b, c, d, e, f, g, h) (k, w) =
     (let t1 = h + (word_rotr 6 e XOR word_rotr 11 e XOR word_rotr 25 e) + ((e AND f) XOR (NOT e AND g)) + k + w;
          t2 = (word_rotr 2 a XOR word_rotr 13 a XOR word_rotr 22 a) + ((a AND b) XOR (a AND c) XOR (b AND c))
      in (t1 + t2, a, b, c, d + t1, e, f, g))"

fun block256 :: "h256 \<Rightarrow> word32 list \<Rightarrow> h256" where
  "block256 (a, b, c, d, e, f, g, h) ws =
     (case foldl round256 (a, b, c, d, e, f, g, h) (zip k256 (rev (sched256 48 (rev ws)))) of
        (a', b', c', d', e', f', g', h') \<Rightarrow> (a + a', b + b', c + c', d + d', e + e', f + f', g + g', h + h'))"

definition sha256 :: "string \<Rightarrow> string" where
  "sha256 s =
     (let p = sha_pad (bytes_of s)
      in case sha_blocks block256 (length p div 64) h256_init (words_of p) of
           (a, b, c, d, e, f, g, h) \<Rightarrow> concat (map word_bytes [a, b, c, d, e, f, g, h]))"

section \<open>SHA-1\<close>

type_synonym h160 = "word32 \<times> word32 \<times> word32 \<times> word32 \<times> word32"

definition h160_init :: h160 where
  "h160_init = (1732584193, 4023233417, 2562383102, 271733878, 3285377520)"

fun sched160 :: "nat \<Rightarrow> word32 list \<Rightarrow> word32 list" where
  "sched160 0 ws = ws"
| "sched160 (Suc n) ws = sched160 n (word_rotl 1 (ws ! 2 XOR ws ! 7 XOR ws ! 13 XOR ws ! 15) # ws)"

definition f160 :: "nat \<Rightarrow> word32 \<Rightarrow> word32 \<Rightarrow> word32 \<Rightarrow> word32 \<times> word32" where
  "f160 t b c d =
     (if t < 20 then ((b AND c) OR (NOT b AND d), 0x5a827999)
      else if t < 40 then (b XOR c XOR d, 0x6ed9eba1)
      else if t < 60 then ((b AND c) OR (b AND d) OR (c AND d), 0x8f1bbcdc)
      else (b XOR c XOR d, 0xca62c1d6))"

fun round160 :: "h160 \<Rightarrow> nat \<times> word32 \<Rightarrow> h160" where
  "round160 (a, b, c, d, e) (t, w) =
     (case f160 t b c d of (f, k) \<Rightarrow> (word_rotl 5 a + f + e + k + w, a, word_rotl 30 b, c, d))"

fun block160 :: "h160 \<Rightarrow> word32 list \<Rightarrow> h160" where
  "block160 (a, b, c, d, e) ws =
     (case foldl round160 (a, b, c, d, e) (zip [0..<80] (rev (sched160 64 (rev ws)))) of
        (a', b', c', d', e') \<Rightarrow> (a + a', b + b', c + c', d + d', e + e'))"

definition sha1 :: "string \<Rightarrow> string" where
  "sha1 s =
     (let p = sha_pad (bytes_of s)
      in case sha_blocks block160 (length p div 64) h160_init (words_of p) of
           (a, b, c, d, e) \<Rightarrow> concat (map word_bytes [a, b, c, d, e]))"

section \<open>HMAC\<close>

definition xor_char :: "nat \<Rightarrow> char \<Rightarrow> char" where
  "xor_char k c = char_of ((of_char c XOR k) mod 256)"

definition hmac :: "(string \<Rightarrow> string) \<Rightarrow> string \<Rightarrow> string \<Rightarrow> string" where
  "hmac h key msg =
     (let k = (if length key > 64 then h key else key);
          k0 = k @ replicate (64 - length k) (CHR 0x00)
      in h (map (xor_char 0x5c) k0 @ h (map (xor_char 0x36) k0 @ msg)))"

lemma length_word_bytes [simp]: "length (word_bytes w) = 4"
  by (simp add: word_bytes_def)

lemma length_sha256 [simp]: "length (sha256 s) = 32"
  by (simp add: sha256_def Let_def split: prod.splits)

lemma length_sha1 [simp]: "length (sha1 s) = 20"
  by (simp add: sha1_def Let_def split: prod.splits)

lemma length_hmac_sha256 [simp]: "length (hmac sha256 k m) = 32"
  by (simp add: hmac_def Let_def)

lemma length_hmac_sha1 [simp]: "length (hmac sha1 k m) = 20"
  by (simp add: hmac_def Let_def)

end
