(* ===== verification/Go_Strings.thy ===== *)
theory Go_Strings
  imports Prelude "HOL-Library.Sublist"
begin

text \<open>
  The functions of Go's \<open>strings\<close> and \<open>strconv\<close> packages that the code calls, on Go strings (byte
  sequences). \<open>ToLower\<close> and \<open>ToUpper\<close> are given for ASCII, which is all the callers compare with.
\<close>

section \<open>strconv\<close>

definition dec_digit :: "nat \<Rightarrow> char" where
  "dec_digit d = char_of (48 + d)"

fun dec_digits :: "nat \<Rightarrow> string" where
  "dec_digits n = (if n < 10 then [dec_digit n] else dec_digits (n div 10) @ [dec_digit (n mod 10)])"

declare dec_digits.simps [simp del]

definition FormatInt :: "int \<Rightarrow> string" where
  "FormatInt i = (if i < 0 then CHR ''-'' # dec_digits (nat (- i)) else dec_digits (nat i))"

definition is_dec :: "char \<Rightarrow> bool" where
  "is_dec c \<longleftrightarrow> (48::nat) \<le> of_char c \<and> of_char c \<le> (57::nat)"

definition dec_value :: "string \<Rightarrow> nat" where
  "dec_value s = foldl (\<lambda>v c. 10 * v + (of_char c - 48)) 0 s"

definition ParseUint :: "string \<Rightarrow> int option" where
  "ParseUint s =
     (if s \<noteq> [] \<and> list_all is_dec s \<and> int (dec_value s) < 18446744073709551616
      then Some (int (dec_value s)) else None)"

text \<open>\<open>ParseInt(s, 10, 64)\<close>; \<open>Atoi\<close> is the same function where \<open>int\<close> has 64 bits.\<close>

definition ParseInt :: "string \<Rightarrow> int option" where
  "ParseInt s =
     (let (neg, ds) = (case s of [] \<Rightarrow> (False, [])
                       | c # cs \<Rightarrow> if c = CHR ''-'' then (True, cs)
                                   else if c = CHR ''+'' then (False, cs) else (False, s));
          v = (if neg then - int (dec_value ds) else int (dec_value ds))
      in if ds \<noteq> [] \<and> list_all is_dec ds \<and> in_int64 v then Some v else None)"

abbreviation Atoi :: "string \<Rightarrow> int option" where
  "Atoi \<equiv> ParseInt"

lemma of_char_dec_digit [simp]: "d < 10 \<Longrightarrow> of_char (dec_digit d) = 48 + d"
  by (simp add: dec_digit_def)

lemma dec_value_snoc: "dec_value (s @ [c]) = 10 * dec_value s + (of_char c - 48)"
  by (simp add: dec_value_def)

lemma dec_value_digits [simp]: "dec_value (dec_digits n) = n"
proof (induction n rule: dec_digits.induct)
  case (1 n)
  show ?case
  proof (cases "n < 10")
    case True
    then show ?thesis by (subst dec_digits.simps) (simp add: dec_value_def)
  next
    case False
    with "1.IH" show ?thesis by (subst dec_digits.simps) (simp add: dec_value_snoc)
  qed
qed

lemma dec_digits_neq_Nil [simp]: "dec_digits n \<noteq> []"
  by (subst dec_digits.simps) simp

lemma is_dec_dec_digit [simp]: "d < 10 \<Longrightarrow> is_dec (dec_digit d)"
  by (simp add: is_dec_def)

lemma dec_digits_dec: "c \<in> set (dec_digits n) \<Longrightarrow> is_dec c"
proof (induction n rule: dec_digits.induct)
  case (1 n)
  show ?case
  proof (cases "n < 10")
    case True
    with "1.prems" show ?thesis by (simp add: dec_digits.simps [of n])
  next
    case False
    with "1" show ?thesis by (auto simp: dec_digits.simps [of n])
  qed
qed

lemma is_dec_not_sign: "is_dec c \<Longrightarrow> c \<noteq> CHR ''-'' \<and> c \<noteq> CHR ''+'' \<and> c \<noteq> CHR ''|''"
  by (auto simp: is_dec_def)

lemma ParseInt_FormatInt [simp]: "in_int64 i \<Longrightarrow> ParseInt (FormatInt i) = Some i"
proof -
  assume i: "in_int64 i"
  have all: "list_all is_dec (dec_digits n)" for n
    using dec_digits_dec by (auto simp: list_all_iff)
  show ?thesis
  proof (cases "i < 0")
    case True
    with i all show ?thesis by (simp add: ParseInt_def FormatInt_def)
  next
    case False
    obtain c cs where cs: "dec_digits (nat i) = c # cs"
      by (cases "dec_digits (nat i)") auto
    have "is_dec c" using dec_digits_dec [of c "nat i"] cs by simp
    then have "c \<noteq> CHR ''-''" "c \<noteq> CHR ''+''" using is_dec_not_sign by auto
    moreover have "int (dec_value (c # cs)) = i" "list_all is_dec (c # cs)"
      using False dec_value_digits [of "nat i"] all [of "nat i"] cs by simp_all
    ultimately show ?thesis using False i cs by (simp add: ParseInt_def FormatInt_def)
  qed
qed

lemma FormatInt_chars: "c \<in> set (FormatInt i) \<Longrightarrow> is_dec c \<or> c = CHR ''-''"
  by (auto simp: FormatInt_def dest: dec_digits_dec split: if_splits)

lemma FormatInt_no_bar [simp]: "CHR ''|'' \<notin> set (FormatInt i)"
  using FormatInt_chars [of "CHR ''|''" i] is_dec_not_sign by auto

section \<open>Splitting and joining\<close>

fun Join :: "string list \<Rightarrow> string \<Rightarrow> string" where
  "Join [] sep = ''''"
| "Join [x] sep = x"
| "Join (x # y # xs) sep = x @ sep @ Join (y # xs) sep"

text \<open>\<open>strings.Split(s, sep)\<close> for a separator that starts with \<open>c\<close> and goes on with \<open>cs\<close>.\<close>

function split_aux :: "char \<Rightarrow> string \<Rightarrow> string \<Rightarrow> string \<Rightarrow> string list" where
  "split_aux c cs acc [] = [rev acc]"
| "split_aux c cs acc (x # xs) =
     (if x = c \<and> prefix cs xs then rev acc # split_aux c cs [] (drop (length cs) xs)
      else split_aux c cs (x # acc) xs)"
  by pat_completeness auto
termination
  by (relation "measure (\<lambda>(c, cs, acc, s). length s)") auto

definition Split :: "string \<Rightarrow> string \<Rightarrow> string list" where
  "Split s sep = (case sep of [] \<Rightarrow> map (\<lambda>c. [c]) s | c # cs \<Rightarrow> split_aux c cs [] s)"

lemma Join_Cons: "xs \<noteq> [] \<Longrightarrow> Join (x # xs) sep = x @ sep @ Join xs sep"
  by (cases xs) auto

lemma split_aux_no_sep: "c \<notin> set p \<Longrightarrow> split_aux c cs acc p = [rev acc @ p]"
  by (induction p arbitrary: acc) auto

lemma split_aux_piece:
  "c \<notin> set p \<Longrightarrow> split_aux c cs acc (p @ (c # cs) @ rest) = (rev acc @ p) # split_aux c cs [] rest"
  by (induction p arbitrary: acc) auto

lemma Split_Join:
  "ps \<noteq> [] \<Longrightarrow> \<forall>p \<in> set ps. c \<notin> set p \<Longrightarrow> Split (Join ps (c # cs)) (c # cs) = ps"
proof (induction ps rule: list_nonempty_induct)
  case (single x)
  then show ?case by (simp add: Split_def split_aux_no_sep)
next
  case (cons x xs)
  then have "split_aux c cs [] (Join xs (c # cs)) = xs" by (simp add: Split_def)
  with cons show ?case
    using split_aux_piece [of c x cs "[]" "Join xs (c # cs)"]
    by (simp add: Split_def Join_Cons)
qed

lemma split_aux_neq_Nil [simp]: "split_aux c cs acc s \<noteq> []"
  by (induction c cs acc s rule: split_aux.induct) auto

lemma Join_split_aux: "Join (split_aux c cs acc s) (c # cs) = rev acc @ s"
proof (induction c cs acc s rule: split_aux.induct)
  case (2 c cs acc x xs)
  then show ?case by (auto simp: Join_Cons prefix_def)
qed simp

lemma Join_Split [simp]: "sep \<noteq> [] \<Longrightarrow> Join (Split s sep) sep = s"
  by (cases sep) (simp_all add: Split_def Join_split_aux)

text \<open>\<open>strings.Cut\<close>: around the first separator, here a single character.\<close>

definition Cut :: "string \<Rightarrow> char \<Rightarrow> string \<times> string \<times> bool" where
  "Cut s c = (if c \<in> set s then (takeWhile ((\<noteq>) c) s, tl (dropWhile ((\<noteq>) c) s), True) else (s, '''', False))"

section \<open>Spaces and case\<close>

text \<open>
  \<open>TrimSpace\<close> strips Unicode white space: the UTF-8 encodings of the \<open>White_Space\<close> code points.
  A leading (trailing) rune is one of them exactly if the string starts (ends) with its encoding.
\<close>

definition space_encodings :: "string list" where
  "space_encodings =
     [[CHR 0x09], [CHR 0x0A], [CHR 0x0B], [CHR 0x0C], [CHR 0x0D], [CHR 0x20],
      [CHR 0xC2, CHR 0x85], [CHR 0xC2, CHR 0xA0], [CHR 0xE1, CHR 0x9A, CHR 0x80]]
     @ map (\<lambda>b. [CHR 0xE2, CHR 0x80, char_of b]) ([0x80..<0x8B] @ [0xA8::nat, 0xA9, 0xAF])
     @ [[CHR 0xE2, CHR 0x81, CHR 0x9F], [CHR 0xE3, CHR 0x80, CHR 0x80]]"

definition ascii_space :: "char \<Rightarrow> bool" where
  "ascii_space c \<longleftrightarrow> c \<in> {CHR 0x09, CHR 0x0A, CHR 0x0B, CHR 0x0C, CHR 0x0D, CHR 0x20}"

definition leading_space :: "string \<Rightarrow> nat" where
  "leading_space s = (case find (\<lambda>e. prefix e s) space_encodings of None \<Rightarrow> 0 | Some e \<Rightarrow> length e)"

function TrimLeftSpace :: "string \<Rightarrow> string" where
  "TrimLeftSpace s =
     (let n = leading_space s in if n = 0 \<or> s = [] then s else TrimLeftSpace (drop n s))"
  by pat_completeness auto
termination
  by (relation "measure length") auto

declare TrimLeftSpace.simps [simp del]

definition trailing_space :: "string \<Rightarrow> nat" where
  "trailing_space s = (case find (\<lambda>e. suffix e s) space_encodings of None \<Rightarrow> 0 | Some e \<Rightarrow> length e)"

function TrimRightSpace :: "string \<Rightarrow> string" where
  "TrimRightSpace s =
     (let n = trailing_space s in if n = 0 \<or> s = [] then s else TrimRightSpace (take (length s - n) s))"
  by pat_completeness auto
termination
  by (relation "measure length") auto

declare TrimRightSpace.simps [simp del]

definition TrimSpace :: "string \<Rightarrow> string" where
  "TrimSpace s = TrimRightSpace (TrimLeftSpace s)"

definition lower_char :: "char \<Rightarrow> char" where
  "lower_char c = (if (65::nat) \<le> of_char c \<and> of_char c \<le> (90::nat) then char_of (of_char c + 32 :: nat) else c)"

definition upper_char :: "char \<Rightarrow> char" where
  "upper_char c = (if (97::nat) \<le> of_char c \<and> of_char c \<le> (122::nat) then char_of (of_char c - 32 :: nat) else c)"

definition ToLower :: "string \<Rightarrow> string" where
  "ToLower s = map lower_char s"

definition ToUpper :: "string \<Rightarrow> string" where
  "ToUpper s = map upper_char s"

abbreviation HasPrefix :: "string \<Rightarrow> string \<Rightarrow> bool" where
  "HasPrefix s p \<equiv> prefix p s"

abbreviation Contains :: "string \<Rightarrow> string \<Rightarrow> bool" where
  "Contains s t \<equiv> sublist t s"

lemma sublist_TrimLeftSpace: "suffix (TrimLeftSpace s) s"
proof (induction s rule: TrimLeftSpace.induct)
  case (1 s)
  then show ?case
    by (subst TrimLeftSpace.simps) (auto simp: Let_def intro: suffix_order.trans [OF _ suffix_drop])
qed

lemma prefix_TrimRightSpace: "prefix (TrimRightSpace s) s"
proof (induction s rule: TrimRightSpace.induct)
  case (1 s)
  then show ?case
    by (subst TrimRightSpace.simps) (auto simp: Let_def intro: prefix_order.trans [OF _ take_is_prefix])
qed

lemma set_TrimSpace: "set (TrimSpace s) \<subseteq> set s"
  using set_mono_suffix [OF sublist_TrimLeftSpace] set_mono_prefix [OF prefix_TrimRightSpace]
  unfolding TrimSpace_def by blast

lemma TrimSpace_Nil [simp]: "TrimSpace '''' = ''''"
  by (simp add: TrimSpace_def TrimLeftSpace.simps TrimRightSpace.simps)

text \<open>Nothing is trimmed from a string of printable ASCII characters.\<close>

lemma printable_space: "e \<in> set space_encodings \<Longrightarrow> c \<in> set e \<Longrightarrow> \<not> ((0x20 :: nat) < of_char c \<and> of_char c < (0x80 :: nat))"
  by (auto simp: space_encodings_def)

lemma space_encodings_neq: "e \<in> set space_encodings \<Longrightarrow> e \<noteq> []"
  by (auto simp: space_encodings_def)

lemma TrimSpace_printable:
  assumes "\<And>c. c \<in> set s \<Longrightarrow> (0x20 :: nat) < of_char c \<and> of_char c < (0x80 :: nat)"
  shows "TrimSpace s = s"
proof -
  have none: "\<not> sublist e s" if "e \<in> set space_encodings" for e
  proof
    assume "sublist e s"
    then have "hd e \<in> set s" using space_encodings_neq [OF that] set_mono_sublist [of e s] by auto
    with assms printable_space [OF that, of "hd e"] space_encodings_neq [OF that] show False by simp
  qed
  then have "find (\<lambda>e. prefix e s) space_encodings = None" "find (\<lambda>e. suffix e s) space_encodings = None"
    by (auto simp: find_None_iff)
  then have "leading_space s = 0" "trailing_space s = 0"
    by (simp_all add: leading_space_def trailing_space_def)
  then show ?thesis by (simp add: TrimSpace_def TrimLeftSpace.simps [of s] TrimRightSpace.simps [of s])
qed

section \<open>Fields\<close>

text \<open>\<open>strings.Fields\<close>: the maximal runs without white space.\<close>

fun word_of :: "string \<Rightarrow> string \<times> string" where
  "word_of [] = ([], [])"
| "word_of (c # s) =
     (if leading_space (c # s) > 0 then ([], c # s)
      else (case word_of s of (w, r) \<Rightarrow> (c # w, r)))"

lemma word_of_length: "length (snd (word_of s)) \<le> length s"
  by (induction s) (auto split: prod.splits)

lemma TrimLeftSpace_length: "length (TrimLeftSpace s) \<le> length s"
  using suffix_length_le [OF sublist_TrimLeftSpace] .

function Fields :: "string \<Rightarrow> string list" where
  "Fields s =
     (let t = TrimLeftSpace s
      in if t = [] then []
         else (case word_of t of (w, r) \<Rightarrow> if w = [] then [] else w # Fields r))"
  by pat_completeness auto
termination
proof (relation "measure length", goal_cases)
  case (2 s t w r)
  have "length w + length r = length t" if "word_of t = (w, r)" for t w r
    using that by (induction t arbitrary: w r) (auto split: if_splits prod.splits)
  with 2 have "length w + length r = length t" by simp
  with 2 TrimLeftSpace_length [of s] show ?case by (cases w) auto
qed simp

declare Fields.simps [simp del]

section \<open>Runes\<close>

text \<open>\<open>range\<close> over a string decodes UTF-8; an invalid byte is one replacement rune.\<close>

definition cont :: "nat \<Rightarrow> bool" where
  "cont b \<longleftrightarrow> 0x80 \<le> b \<and> b \<le> 0xBF"

fun decode_rune :: "nat list \<Rightarrow> nat \<times> nat" where
  "decode_rune [] = (0xFFFD, 1)"
| "decode_rune (b0 # bs) =
     (if b0 < 0x80 then (b0, 1)
      else case bs of
        [] \<Rightarrow> (0xFFFD, 1)
      | b1 # bs1 \<Rightarrow>
          if 0xC2 \<le> b0 \<and> b0 \<le> 0xDF \<and> cont b1 then (b0 mod 0x20 * 0x40 + b1 mod 0x40, 2)
          else (case bs1 of
             [] \<Rightarrow> (0xFFFD, 1)
           | b2 # bs2 \<Rightarrow>
               if 0xE0 \<le> b0 \<and> b0 \<le> 0xEF \<and> cont b1 \<and> cont b2 \<and> (b0 = 0xE0 \<longrightarrow> 0xA0 \<le> b1) \<and> (b0 = 0xED \<longrightarrow> b1 \<le> 0x9F)
               then (b0 mod 0x10 * 0x1000 + b1 mod 0x40 * 0x40 + b2 mod 0x40, 3)
               else (case bs2 of
                  [] \<Rightarrow> (0xFFFD, 1)
                | b3 # _ \<Rightarrow>
                    if 0xF0 \<le> b0 \<and> b0 \<le> 0xF4 \<and> cont b1 \<and> cont b2 \<and> cont b3 \<and> (b0 = 0xF0 \<longrightarrow> 0x90 \<le> b1) \<and> (b0 = 0xF4 \<longrightarrow> b1 \<le> 0x8F)
                    then (b0 mod 8 * 0x40000 + b1 mod 0x40 * 0x1000 + b2 mod 0x40 * 0x40 + b3 mod 0x40, 4)
                    else (0xFFFD, 1))))"

lemma decode_rune_width [simp]: "0 < snd (decode_rune bs)"
  by (cases bs rule: decode_rune.cases) (auto split: list.splits)

function runes :: "nat list \<Rightarrow> nat list" where
  "runes bs = (if bs = [] then [] else case decode_rune bs of (r, w) \<Rightarrow> r # runes (drop w bs))"
  by pat_completeness auto
termination
proof (relation "measure length", goal_cases)
  case (2 bs r w)
  then have "0 < w" using decode_rune_width [of bs] by (metis snd_conv)
  with 2 show ?case by simp
qed simp

declare runes.simps [simp del]

text \<open>A rune below 0x80 is the byte itself: every longer encoding denotes a larger rune.\<close>

lemma mod_block: "k * n \<le> b \<Longrightarrow> b < k * n + n \<Longrightarrow> b mod n = b - k * (n :: nat)"
  by (rule mod_nat_eqI) auto

lemma decode_rune_large: "128 \<le> b0 \<Longrightarrow> 128 \<le> fst (decode_rune (b0 # bs))"
proof -
  have two: "128 \<le> b0 mod 32 * 64 + c" if "194 \<le> b0" "b0 \<le> 223" for c
    using that mod_block [of 6 32 b0] by simp
  have three: "128 \<le> b0 mod 16 * 4096 + c mod 64 * 64 + d"
    if "224 \<le> b0" "b0 \<le> 239" "cont c" "b0 = 224 \<longrightarrow> 160 \<le> c" for c d
    using that mod_block [of 14 16 b0] mod_block [of 2 64 c] by (cases "b0 = 224") (simp_all add: cont_def)
  have four: "128 \<le> b0 mod 8 * 262144 + c mod 64 * 4096 + d * 64 + e"
    if "240 \<le> b0" "b0 \<le> 244" "cont c" "b0 = 240 \<longrightarrow> 144 \<le> c" for c d e
    using that mod_block [of 30 8 b0] mod_block [of 2 64 c] by (cases "b0 = 240") (simp_all add: cont_def)
  assume "128 \<le> b0"
  then show ?thesis
    using two three four by (simp split: list.split)
qed

lemma decode_rune_ascii:
  assumes "fst (decode_rune bs) < 0x80" and "bs \<noteq> []"
  shows "decode_rune bs = (hd bs, 1)"
proof -
  obtain b bs' where bs: "bs = b # bs'" using assms(2) by (cases bs) auto
  with assms(1) decode_rune_large [of b bs'] have "b < 128" by (cases "b < 128") auto
  with bs show ?thesis by simp
qed

lemma runes_ascii: "list_all (\<lambda>r. r < 0x80) (runes bs) \<Longrightarrow> runes bs = bs"
proof (induction bs rule: runes.induct)
  case (1 bs)
  show ?case
  proof (cases "bs = []")
    case False
    obtain r w where rw: "decode_rune bs = (r, w)" by (cases "decode_rune bs")
    have "list_all (\<lambda>r. r < 0x80) (r # runes (drop w bs))"
      using "1.prems" False rw by (simp add: runes.simps [of bs])
    then have "decode_rune bs = (hd bs, 1)" and rest: "list_all (\<lambda>r. r < 0x80) (runes (drop w bs))"
      using decode_rune_ascii [of bs] False rw by auto
    with "1.IH" [OF False] rw False show ?thesis
      by (subst runes.simps) (cases bs; auto)
  qed (simp add: runes.simps)
qed

lemma runes_all_ascii: "list_all (\<lambda>r. r < 0x80) bs \<Longrightarrow> runes bs = bs"
proof (induction bs)
  case (Cons b bs)
  then show ?case by (subst runes.simps) simp
qed (simp add: runes.simps)

end
