(* ===== verification/Models.thy ===== *)
theory Models
  imports Prelude
begin

text \<open>The panel's data model, \<open>src/internal/panel/models.go\<close>: users, nodes and admins as the code
  handles them in memory, and when a user is provisioned onto nodes.\<close>

record User =
  uID :: int64
  uUsername :: string
  uUUID :: string
  uSubToken :: string
  uDataLimit :: int64
  uDataUsed :: int64
  uExpireAt :: int64
  uEnabled :: bool
  uCreatedAt :: int64
  uNodeIDs :: "int64 list"
  uPortalPasswordHash :: string
  uHasPortalPassword :: bool
  uResetDay :: int64
  uLastReset :: int64
  uSessionEpoch :: int64
  uMustChangePW :: bool
  uDeviceCount :: int
  uEtaDays :: int64
  uNote :: string

record Node =
  nID :: int64
  nName :: string
  nToken :: string
  nAddress :: string
  nRemark :: string
  nLastSeen :: int64
  nOnline :: bool
  nCreatedAt :: int64
  nRealityDest :: string
  nRealityServerName :: string
  nRealityPrivateKey :: string
  nRealityPublicKey :: string
  nRealityShortID :: string
  nTLSDomain :: string
  nAgentVersion :: string

record Admin =
  aID :: int64
  aUsername :: string
  aPasswordHash :: string
  aTOTPSecret :: string
  aTOTPEnabled :: bool
  aSessionEpoch :: int64

definition active :: "User \<Rightarrow> int64 \<Rightarrow> bool" where
  "active u now =
     (if \<not> uEnabled u then False
      else if uExpireAt u > 0 \<and> now \<ge> uExpireAt u then False
      else if uDataLimit u > 0 \<and> uDataUsed u \<ge> uDataLimit u then False
      else True)"

text \<open>Enabled, not expired, under quota, where 0 means no bound.\<close>

lemma active_iff:
  "active u now \<longleftrightarrow>
     uEnabled u \<and> (uExpireAt u \<le> 0 \<or> now < uExpireAt u) \<and> (uDataLimit u \<le> 0 \<or> uDataUsed u < uDataLimit u)"
  by (auto simp: active_def)

text \<open>Time and usage only ever switch a user off.\<close>

lemma active_antimono:
  "active (u\<lparr>uDataUsed := used'\<rparr>) now' \<Longrightarrow> now \<le> now' \<Longrightarrow> uDataUsed u \<le> used' \<Longrightarrow> active u now"
  by (auto simp: active_iff)

end
