(* ===== verification/Tables.thy ===== *)
theory Tables
  imports Prelude
begin

text \<open>
  SQL statements on tables. A table is the list of its rows in rowid order; the statements are the
  ones \<open>src/internal/panel/store.go\<close> uses. The locale \<open>upsert_table\<close> is the contract of a table
  with a primary key that is written with \<open>INSERT .. ON CONFLICT .. DO UPDATE\<close>.
\<close>

section \<open>Statements\<close>

definition sql_update :: "('r \<Rightarrow> bool) \<Rightarrow> ('r \<Rightarrow> 'r) \<Rightarrow> 'r list \<Rightarrow> 'r list" where
  "sql_update p f t = map (\<lambda>r. if p r then f r else r) t"

definition sql_delete :: "('r \<Rightarrow> bool) \<Rightarrow> 'r list \<Rightarrow> 'r list" where
  "sql_delete p t = filter (\<lambda>r. \<not> p r) t"

text \<open>\<open>QueryRow(..).Scan\<close>: the first row of the result, or \<open>sql.ErrNoRows\<close>.\<close>

definition query_row :: "('r \<Rightarrow> bool) \<Rightarrow> 'r list \<Rightarrow> 'r result" where
  "query_row p t = (case find p t of None \<Rightarrow> Inl ErrNoRows | Some r \<Rightarrow> Inr r)"

fun upsert :: "('r \<Rightarrow> 'k) \<Rightarrow> ('r \<Rightarrow> 'r) \<Rightarrow> 'r \<Rightarrow> 'r list \<Rightarrow> 'r list" where
  "upsert key upd new [] = [new]"
| "upsert key upd new (r # t) =
     (if key r = key new then upd r # t else r # upsert key upd new t)"

section \<open>Generic facts\<close>

lemma sql_update_Nil [simp]: "sql_update p f [] = []"
  by (simp add: sql_update_def)

lemma sql_update_Cons [simp]:
  "sql_update p f (r # t) = (if p r then f r else r) # sql_update p f t"
  by (simp add: sql_update_def)

lemma sql_delete_Nil [simp]: "sql_delete p [] = []"
  by (simp add: sql_delete_def)

lemma sql_delete_Cons [simp]:
  "sql_delete p (r # t) = (if p r then sql_delete p t else r # sql_delete p t)"
  by (simp add: sql_delete_def)

lemma set_sql_delete [simp]: "set (sql_delete p t) = {r \<in> set t. \<not> p r}"
  by (simp add: sql_delete_def)

lemma set_sql_update: "set (sql_update p f t) = (\<lambda>r. if p r then f r else r) ` set t"
  by (simp add: sql_update_def)

lemma bex_sql_update: "(\<exists>r \<in> set (sql_update p f t). Q r) \<longleftrightarrow> (\<exists>r \<in> set t. Q (if p r then f r else r))"
  by (auto simp: sql_update_def)

lemma map_sql_update [simp]:
  "(\<And>r. g (f r) = g r) \<Longrightarrow> map g (sql_update p f t) = map g t"
  by (induction t) auto

lemma sql_update_none: "(\<And>r. r \<in> set t \<Longrightarrow> \<not> p r) \<Longrightarrow> sql_update p f t = t"
  by (induction t) auto

lemma length_sql_update [simp]: "length (sql_update p f t) = length t"
  by (simp add: sql_update_def)

lemma distinct_sql_delete [simp, intro]: "distinct (map g t) \<Longrightarrow> distinct (map g (sql_delete p t))"
  by (induction t) auto

lemma distinct_rows_sql_delete [simp, intro]: "distinct t \<Longrightarrow> distinct (sql_delete p t)"
  by (simp add: sql_delete_def)

lemma find_sql_update:
  "(\<And>r. q (f r) = q r) \<Longrightarrow>
   find q (sql_update p f t) = map_option (\<lambda>r. if p r then f r else r) (find q t)"
  by (induction t) auto

lemma find_sql_delete: "(\<And>r. q r \<Longrightarrow> \<not> p r) \<Longrightarrow> find q (sql_delete p t) = find q t"
  by (induction t) auto

lemma find_sql_delete_None: "(\<And>r. q r \<Longrightarrow> p r) \<Longrightarrow> find q (sql_delete p t) = None"
  by (induction t) auto

lemma find_append: "find q (t @ u) = (case find q t of None \<Rightarrow> find q u | Some r \<Rightarrow> Some r)"
  by (induction t) auto

lemma find_key_eq: "find q t = Some r \<Longrightarrow> q r \<and> r \<in> set t"
  by (induction t) (auto split: if_splits)

lemma find_unique:
  "distinct (map key t) \<Longrightarrow> r \<in> set t \<Longrightarrow> find (\<lambda>x. key x = key r) t = Some r"
  by (induction t) (auto simp: image_iff)

lemma find_None_notin: "find (\<lambda>x. key x = k) t = None \<longleftrightarrow> k \<notin> key ` set t"
  by (induction t) auto

lemma find_Some_unique_iff:
  assumes "distinct (map key t)"
  shows "find (\<lambda>x. key x = k) t = Some r \<longleftrightarrow> r \<in> set t \<and> key r = k"
  using assms find_unique [OF assms] by (auto dest: find_key_eq)

lemma query_row_Inr: "query_row p t = Inr r \<longleftrightarrow> find p t = Some r"
  by (simp add: query_row_def split: option.splits)

lemma query_row_Inl: "query_row p t = Inl e \<longleftrightarrow> e = ErrNoRows \<and> find p t = None"
  by (auto simp: query_row_def split: option.splits)

lemmas query_row_iffs = query_row_Inr query_row_Inl

lemma sum_for_sql_delete [simp]:
  "sum_for P f (sql_delete q t) = sum_for (\<lambda>r. P r \<and> \<not> q r) f t"
  by (induction t) auto

lemma sum_for_sql_update_other:
  "(\<And>r. p r \<Longrightarrow> P (g r) = P r) \<Longrightarrow> (\<And>r. p r \<Longrightarrow> P r \<Longrightarrow> f (g r) = f r) \<Longrightarrow>
   sum_for P f (sql_update p g t) = sum_for P f t"
  by (induction t) auto

section \<open>The contract of an upserted table\<close>

locale upsert_table =
  fixes key :: "'r \<Rightarrow> 'k"
    and row :: "'a \<Rightarrow> 'r"
    and upd :: "'a \<Rightarrow> 'r \<Rightarrow> 'r"
  assumes upd_key: "key (upd a r) = key r"
begin

abbreviation put :: "'a \<Rightarrow> 'r list \<Rightarrow> 'r list" where
  "put a t \<equiv> upsert key (upd a) (row a) t"

lemma keys_put:
  "map key (put a t) = (if key (row a) \<in> key ` set t then map key t else map key t @ [key (row a)])"
  by (induction t) (auto simp: upd_key)

lemma distinct_put [intro]: "distinct (map key t) \<Longrightarrow> distinct (map key (put a t))"
  by (auto simp: keys_put image_iff)

lemma find_put_same:
  "find (\<lambda>r. key r = key (row a)) (put a t) =
     Some (case find (\<lambda>r. key r = key (row a)) t of None \<Rightarrow> row a | Some r \<Rightarrow> upd a r)"
  by (induction t) (auto simp: upd_key split: option.splits)

lemma find_put_other:
  "k \<noteq> key (row a) \<Longrightarrow> find (\<lambda>r. key r = k) (put a t) = find (\<lambda>r. key r = k) t"
  by (induction t) (auto simp: upd_key)

end

text \<open>
  A table with a counter column: the update adds to it what the insert would have started with.
  Its total over any set of keys then grows by exactly what was written, whichever branch ran.
\<close>

locale counter_table = upsert_table key row upd
  for key :: "'r \<Rightarrow> 'k" and row :: "'a \<Rightarrow> 'r" and upd :: "'a \<Rightarrow> 'r \<Rightarrow> 'r" +
  fixes col :: "'r \<Rightarrow> int"
  assumes upd_col: "col (upd a r) = col r + col (row a)"
begin

lemma sum_put:
  "sum_for (\<lambda>r. Q (key r)) col (put a t) =
     sum_for (\<lambda>r. Q (key r)) col t + (if Q (key (row a)) then col (row a) else 0)"
  by (induction t) (auto simp: upd_key upd_col)

end

end
