(* ===== verification/Crypt.thy ===== *)
theory Crypt
  imports Codec "HOL-Library.Sublist"
begin

text \<open>
  At-rest encryption of secret columns, \<open>src/internal/panel/crypt.go\<close>. AES-256-GCM and the HKDF
  key derivation are parameters: an \<open>aead\<close> is the pair of operations the code calls, the nonce
  drawn from \<open>crypto/rand\<close> is an argument of \<open>encrypt\<close>, and \<open>aead_ok\<close> is the documented law of
  \<open>cipher.AEAD\<close> that \<open>Open\<close> undoes \<open>Seal\<close> under the same nonce.
\<close>

record aead =
  NonceSize :: nat
  Seal :: "string \<Rightarrow> string \<Rightarrow> string"
  Open :: "string \<Rightarrow> string \<Rightarrow> string option"

type_synonym crypter = "aead option"

definition aead_ok :: "aead \<Rightarrow> bool" where
  "aead_ok a \<longleftrightarrow> (\<forall>nonce pt. length nonce = NonceSize a \<longrightarrow> Open a nonce (Seal a nonce pt) = Some pt)"

definition encPrefix :: string where
  "encPrefix = ''enc:v1:''"

text \<open>\<open>derive\<close> stands for HKDF, AES and GCM; a blank secret means no crypter.\<close>

definition newCrypter :: "(string \<Rightarrow> aead) \<Rightarrow> string \<Rightarrow> crypter" where
  "newCrypter derive secret = (if secret = '''' then None else Some (derive secret))"

definition isEncrypted :: "string \<Rightarrow> bool" where
  "isEncrypted v \<longleftrightarrow> prefix encPrefix v"

definition encrypt :: "crypter \<Rightarrow> string \<Rightarrow> string \<Rightarrow> string" where
  "encrypt c nonce s =
     (case c of
        None \<Rightarrow> s
      | Some a \<Rightarrow>
          if s = '''' \<or> isEncrypted s then s
          else encPrefix @ b64_encode std_alphabet (nonce @ Seal a nonce s))"

definition decrypt :: "crypter \<Rightarrow> string \<Rightarrow> string" where
  "decrypt c s =
     (if \<not> isEncrypted s then s
      else case c of
        None \<Rightarrow> ''''
      | Some a \<Rightarrow>
          (case b64_decode std_alphabet (drop (length encPrefix) s) of
             None \<Rightarrow> ''''
           | Some raw \<Rightarrow>
               if length raw < NonceSize a then ''''
               else (case Open a (take (NonceSize a) raw) (drop (NonceSize a) raw) of
                       None \<Rightarrow> ''''
                     | Some pt \<Rightarrow> pt)))"

lemma isEncrypted_prefix [simp]: "isEncrypted (encPrefix @ s)"
  by (simp add: isEncrypted_def)

lemma isEncrypted_Nil [simp]: "\<not> isEncrypted ''''"
  by (simp add: isEncrypted_def encPrefix_def)

lemma encrypt_idem [simp]: "encrypt c n' (encrypt c n s) = encrypt c n s"
  by (simp add: encrypt_def split: option.splits)

lemma encrypt_Nil_iff [simp]: "encrypt c n s = '''' \<longleftrightarrow> s = ''''"
  by (auto simp: encrypt_def encPrefix_def split: option.splits)

lemma decrypt_Nil [simp]: "decrypt c '''' = ''''"
  by (simp add: decrypt_def)

lemma decrypt_plain [simp]: "\<not> isEncrypted s \<Longrightarrow> decrypt c s = s"
  by (simp add: decrypt_def)

text \<open>With a key, what reaches the disk is the empty string or carries the marker.\<close>

lemma encrypt_marked: "encrypt (Some a) n s = '''' \<or> isEncrypted (encrypt (Some a) n s)"
  by (simp add: encrypt_def)

lemma decrypt_encrypt:
  assumes "case c of None \<Rightarrow> True | Some a \<Rightarrow> aead_ok a \<and> length n = NonceSize a"
    and "\<not> isEncrypted s"
  shows "decrypt c (encrypt c n s) = s"
proof (cases c)
  case (Some a)
  show ?thesis
  proof (cases "s = ''''")
    case False
    let ?raw = "n @ Seal a n s"
    have "b64_decode std_alphabet (drop (length encPrefix) (encPrefix @ b64_encode std_alphabet ?raw)) = Some ?raw"
      by simp
    with Some False assms show ?thesis
      by (simp add: encrypt_def decrypt_def aead_ok_def)
  qed (simp add: encrypt_def Some)
qed (use assms in \<open>simp add: encrypt_def\<close>)

text \<open>Re-encrypting what is on disk changes no plaintext: the boot-time migration is transparent.\<close>

lemma decrypt_reencrypt:
  assumes "aead_ok a" "length n = NonceSize a"
  shows "decrypt (Some a) (encrypt (Some a) n v) = decrypt (Some a) v"
proof (cases "isEncrypted v")
  case True
  then show ?thesis by (simp add: encrypt_def)
next
  case False
  with assms show ?thesis by (simp add: decrypt_encrypt)
qed

end
