(* ===== verification/Calendar.thy ===== *)
theory Calendar
  imports Go_Strings
begin

text \<open>
  The part of Go's \<open>time\<close> package the panel uses, in UTC: the civil date of a Unix time, the Unix
  time of a date (with \<open>time.Date\<close>'s normalisation of the month) and the layout \<open>2006-01-02\<close>. Dates
  are day numbers counted from 1970-01-01 in the proleptic Gregorian calendar.
\<close>

definition leap :: "int \<Rightarrow> bool" where
  "leap y \<longleftrightarrow> 4 dvd y \<and> (\<not> 100 dvd y \<or> 400 dvd y)"

definition month_lengths :: "int \<Rightarrow> int list" where
  "month_lengths y = [31, if leap y then 29 else 28, 31, 30, 31, 30, 31, 31, 30, 31, 30, 31]"

definition year_length :: "int \<Rightarrow> int" where
  "year_length y = (if leap y then 366 else 365)"

definition year_start :: "int \<Rightarrow> int" where
  "year_start y = 365 * (y - 1970) + (y - 1) div 4 - (y - 1) div 100 + (y - 1) div 400 - 477"

definition days_in_month :: "int \<Rightarrow> int \<Rightarrow> int" where
  "days_in_month y m = month_lengths y ! nat (m - 1)"

definition month_start :: "int \<Rightarrow> int \<Rightarrow> int" where
  "month_start y m = sum_list (take (nat (m - 1)) (month_lengths y))"

text \<open>\<open>time.Date(y, m, d, 0, 0, 0, 0, time.UTC)\<close> as a day number: months outside 1 to 12 carry.\<close>

definition date_days :: "int \<Rightarrow> int \<Rightarrow> int \<Rightarrow> int" where
  "date_days y m d =
     (let y' = y + (m - 1) div 12; m' = (m - 1) mod 12 + 1
      in year_start y' + month_start y' m' + (d - 1))"

text \<open>The year is estimated from the mean length 146097/400 and corrected by at most one.\<close>

definition year_of_days :: "int \<Rightarrow> int" where
  "year_of_days n =
     (let y = 1970 + (400 * n) div 146097
      in if n < year_start y then y - 1 else if year_start (y + 1) \<le> n then y + 1 else y)"

fun month_split :: "int list \<Rightarrow> int \<Rightarrow> int \<Rightarrow> int \<times> int" where
  "month_split [] m r = (m, r + 1)"
| "month_split (l # ls) m r = (if r < l then (m, r + 1) else month_split ls (m + 1) (r - l))"

definition civil :: "int \<Rightarrow> int \<times> int \<times> int" where
  "civil n = (let y = year_of_days n in (y, month_split (month_lengths y) 1 (n - year_start y)))"

definition unix_day :: "int64 \<Rightarrow> int" where
  "unix_day t = t div 86400"

definition pad :: "nat \<Rightarrow> nat \<Rightarrow> string" where
  "pad w n = replicate (w - length (dec_digits n)) (CHR ''0'') @ dec_digits n"

definition format_day :: "int \<Rightarrow> string" where
  "format_day n =
     (case civil n of (y, m, d) \<Rightarrow>
        (if y < 0 then ''-'' @ pad 4 (nat (- y)) else pad 4 (nat y)) @ ''-'' @ pad 2 (nat m) @ ''-'' @ pad 2 (nat d))"

section \<open>Years\<close>

lemma year_start_Suc: "year_start (y + 1) = year_start y + year_length y"
proof -
  have step: "y div k = (y - 1) div k + (if k dvd y then 1 else 0)" if "0 < k" for k :: int
  proof (cases "k dvd y")
    case True
    then obtain q where "y = k * q" ..
    moreover have "(k * q - 1) div k = q - 1"
      using that by (intro div_pos_geq [THEN trans] int_div_pos_eq [where r = "k - 1"]) (auto simp: algebra_simps)
    ultimately show ?thesis using that by simp
  next
    case False
    then have "0 < y mod k" using that by (simp add: dvd_eq_mod_eq_0 order.not_eq_order_implies_strict)
    then have "(y - 1) div k = y div k"
      using that less_trans [OF pos_mod_bound [OF that, of y] less_add_one]
      by (intro int_div_pos_eq [where r = "y mod k - 1"]) (auto simp: algebra_simps)
    with False show ?thesis by simp
  qed
  define p q r where "p = (4 dvd y)" and "q = (100 dvd y)" and "r = (400 dvd y)"
  define a b c where "a = (y - 1) div 4" and "b = (y - 1) div 100" and "c = (y - 1) div 400"
  have eqs: "y div 4 = a + (if p then 1 else 0)" "y div 100 = b + (if q then 1 else 0)"
    "y div 400 = c + (if r then 1 else 0)"
    unfolding a_def b_def c_def p_def q_def r_def by (rule step; simp)+
  have imp: "r \<longrightarrow> q" "q \<longrightarrow> p"
    unfolding p_def q_def r_def by (auto intro: dvd_trans [of 100 400] dvd_trans [of 4 100])
  have "year_start y = 365 * (y - 1970) + a - b + c - 477"
    by (simp add: year_start_def a_def b_def c_def)
  moreover have "year_start (y + 1) = 365 * (y - 1970) + 365 + y div 4 - y div 100 + y div 400 - 477"
    by (simp add: year_start_def)
  moreover have "year_length y = (if p \<and> (\<not> q \<or> r) then 366 else 365)"
    by (simp add: year_length_def leap_def p_def q_def r_def)
  ultimately show ?thesis
    unfolding eqs using imp by (cases p; cases q; cases r) simp_all
qed

lemma year_length_bounds: "365 \<le> year_length y" "year_length y \<le> 366"
  by (simp_all add: year_length_def)

lemma year_start_mono: "y \<le> y' \<Longrightarrow> year_start y \<le> year_start y'"
proof (induction y' rule: int_ge_induct)
  case (step i)
  then show ?case using year_start_Suc [of i] year_length_bounds(1) [of i] by simp
qed simp

lemma year_start_strict: "y < y' \<Longrightarrow> year_start y + year_length y \<le> year_start y'"
  using year_start_mono [of "y + 1" y'] by (simp add: year_start_Suc)

lemma div_mod_bounds:
  fixes x k :: int
  assumes "0 < k"
  shows "k * (x div k) \<le> x" "x < k * (x div k) + k"
  using assms mult_div_mod_eq [of k x] pos_mod_bound [of k x] pos_mod_sign [of k x] by linarith+

lemma year_start_mean:
  "146097 * (y - 1970) - 1000 \<le> 400 * year_start y" "400 * year_start y \<le> 146097 * (y - 1970) + 1000"
proof -
  note b = div_mod_bounds [of 4 "y - 1"] div_mod_bounds [of 100 "y - 1"] div_mod_bounds [of 400 "y - 1"]
  show "146097 * (y - 1970) - 1000 \<le> 400 * year_start y" "400 * year_start y \<le> 146097 * (y - 1970) + 1000"
    using b by (simp_all add: year_start_def)
qed

lemma year_of_days_spec: "year_start (year_of_days n) \<le> n \<and> n < year_start (year_of_days n + 1)"
proof -
  define y where "y = 1970 + (400 * n) div 146097"
  have "146097 * (y - 1970) \<le> 400 * n" "400 * n < 146097 * (y - 1970) + 146097"
    using div_mod_bounds [of 146097 "400 * n"] unfolding y_def by simp_all
  with year_start_mean(2) [of "y - 1"]
  have lo: "year_start (y - 1) \<le> n" by simp
  have hi: "n < year_start (y + 2)"
    using \<open>400 * n < _\<close> year_start_mean(1) [of "y + 2"] by simp
  show ?thesis
    using lo hi unfolding year_of_days_def y_def [symmetric] Let_def by (auto simp: add.commute)
qed

lemma year_of_days_unique:
  assumes "year_start y \<le> n" "n < year_start (y + 1)"
  shows "year_of_days n = y"
proof (rule ccontr)
  let ?z = "year_of_days n"
  assume "?z \<noteq> y"
  then consider "?z + 1 \<le> y" | "y + 1 \<le> ?z" by linarith
  then show False
    using assms year_of_days_spec [of n] year_start_mono [of "?z + 1" y] year_start_mono [of "y + 1" ?z]
    by cases linarith+
qed

section \<open>Months\<close>

lemma month_split_take:
  assumes "k < length ls" "0 \<le> r" "r < ls ! k" "\<forall>l \<in> set ls. 0 < l"
  shows "month_split ls m (sum_list (take k ls) + r) = (m + int k, r + 1)"
  using assms
proof (induction ls arbitrary: k m)
  case (Cons l ls)
  show ?case
  proof (cases k)
    case 0
    with Cons.prems show ?thesis by simp
  next
    case (Suc k')
    have nn: "0 \<le> sum_list (take k' ls)"
      using Cons.prems(4) by (intro sum_list_nonneg) (auto dest!: in_set_takeD intro: order.strict_implies_order)
    have "month_split ls (m + 1) (sum_list (take k' ls) + r) = (m + 1 + int k', r + 1)"
      using Cons.prems Suc by (intro Cons.IH) auto
    with Suc nn Cons.prems show ?thesis by (simp add: add.commute add.left_commute)
  qed
qed simp

lemma month_lengths_pos: "l \<in> set (month_lengths y) \<Longrightarrow> 0 < l"
  by (auto simp: month_lengths_def)

lemma length_month_lengths [simp]: "length (month_lengths y) = 12"
  by (simp add: month_lengths_def)

lemma month_end: "1 \<le> m \<Longrightarrow> m \<le> 12 \<Longrightarrow> month_start y m + days_in_month y m \<le> year_length y"
proof -
  assume m: "1 \<le> m" "m \<le> 12"
  then have "nat (m - 1) \<in> set [0..<12]" by auto
  then show ?thesis
    by (auto simp: upt_rec month_start_def days_in_month_def month_lengths_def year_length_def)
qed

lemma month_start_nonneg: "0 \<le> month_start y m"
  unfolding month_start_def
  by (intro sum_list_nonneg) (auto dest!: in_set_takeD month_lengths_pos)

lemma date_days_norm: "1 \<le> m \<Longrightarrow> m \<le> 12 \<Longrightarrow> date_days y m d = year_start y + month_start y m + (d - 1)"
  by (simp add: date_days_def Let_def)

text \<open>Reading back a valid date: the calendar conversion is a left inverse of \<open>time.Date\<close>.\<close>

lemma civil_date_days:
  assumes "1 \<le> m" "m \<le> 12" "1 \<le> d" "d \<le> days_in_month y m"
  shows "civil (date_days y m d) = (y, m, d)"
proof -
  let ?n = "date_days y m d"
  have n: "?n = year_start y + (month_start y m + (d - 1))"
    using assms by (simp add: date_days_norm)
  have "year_of_days ?n = y"
  proof (rule year_of_days_unique)
    show "year_start y \<le> ?n" using n assms month_start_nonneg [of y m] by simp
    show "?n < year_start (y + 1)" using n assms month_end [of m y] by (simp add: year_start_Suc)
  qed
  moreover have "month_split (month_lengths y) 1 (month_start y m + (d - 1)) = (1 + int (nat (m - 1)), d - 1 + 1)"
    unfolding month_start_def using assms
    by (intro month_split_take) (auto simp: days_in_month_def dest: month_lengths_pos)
  ultimately show ?thesis using assms by (simp add: civil_def Let_def n)
qed

lemma date_days_month_mono:
  assumes "1 \<le> m" "m \<le> 12" "1 \<le> d" "d \<le> days_in_month y m"
  shows "date_days y m d < date_days y (m + 1) 1"
proof (cases "m = 12")
  case True
  have "date_days y 13 1 = year_start (y + 1) + month_start (y + 1) 1"
    by (simp add: date_days_def Let_def)
  with assms True month_end [of 12 y] show ?thesis
    by (simp add: date_days_norm year_start_Suc month_start_def)
next
  case False
  with assms have "month_start y (m + 1) = month_start y m + days_in_month y m"
    by (simp add: month_start_def days_in_month_def nat_add_distrib [of 1 "m - 1", simplified]
        take_Suc_conv_app_nth)
  with assms False show ?thesis by (simp add: date_days_norm)
qed

end
