(* ===== verification/Store.thy ===== *)
theory Store
  imports Models Tables Crypt Calendar "HOL-Library.Char_ord" "HOL-Library.List_Lexorder"
begin

text \<open>
  The SQLite store of \<open>src/internal/panel/store.go\<close>: the schema as a record of tables, and one
  definition per operation. Every operation holds the store mutex and runs its statements in one
  transaction, so an operation is one step on the record. What \<open>time.Now()\<close> returns is an argument
  (\<open>now\<close>), as is the nonce of an encryption. Errors are \<open>ErrNoRows\<close> and a violated \<open>UNIQUE\<close>
  constraint; a failing database file is outside the model. Integer columns are unbounded: SQLite
  would turn a sum beyond 63 bits into a float, and what follows from that is the subject of \<open>Overflow\<close>.
\<close>

section \<open>Schema\<close>

record admin_row =
  arID :: int
  arUsername :: string
  arPasswordHash :: string
  arTOTPSecret :: string
  arTOTPEnabled :: int
  arSessionEpoch :: int

record node_row =
  nrID :: int
  nrName :: string
  nrToken :: string
  nrAddress :: string
  nrRemark :: string
  nrLastSeen :: int
  nrCreatedAt :: int
  nrRealityDest :: string
  nrRealityServerName :: string
  nrRealityPrivateKey :: string
  nrRealityPublicKey :: string
  nrRealityShortID :: string
  nrTLSDomain :: string
  nrTrafficSeq :: int
  nrAgentVersion :: string

record user_row =
  urID :: int
  urUsername :: string
  urUUID :: string
  urSubToken :: string
  urDataLimit :: int
  urDataUsed :: int
  urExpireAt :: int
  urEnabled :: int
  urCreatedAt :: int
  urPortalPasswordHash :: string
  urResetDay :: int
  urLastReset :: int
  urSessionEpoch :: int
  urMustChangePW :: int
  urNote :: string

record node_traffic_row =
  ntUser :: int
  ntNode :: int
  ntUp :: int
  ntDown :: int
  ntUpdatedAt :: int

record traffic_daily_row =
  tdUser :: int
  tdDay :: string
  tdUp :: int
  tdDown :: int

record node_traffic_daily_row =
  ndNode :: int
  ndDay :: string
  ndUp :: int
  ndDown :: int

record audit_row =
  auID :: int
  auTS :: int
  auActor :: string
  auAction :: string
  auDetail :: string

record device_row =
  dvUser :: int
  dvNode :: int
  dvIP :: string
  dvInbound :: string
  dvConns :: int
  dvFirstSeen :: int
  dvLastSeen :: int

text \<open>The \<open>seq\<close> fields are SQLite's \<open>AUTOINCREMENT\<close> counters: the largest id ever given out.\<close>

record Store =
  admins :: "admin_row list"
  nodes :: "node_row list"
  users :: "user_row list"
  user_nodes :: "(int \<times> int) list"
  node_traffic :: "node_traffic_row list"
  traffic_daily :: "traffic_daily_row list"
  node_traffic_daily :: "node_traffic_daily_row list"
  audit_log :: "audit_row list"
  settings :: "(string \<times> string) list"
  user_devices :: "device_row list"
  seqAdmins :: int
  seqNodes :: int
  seqUsers :: int
  seqAudit :: int
  crypt :: crypter

definition OpenStore :: Store where
  "OpenStore = \<lparr>admins = [], nodes = [], users = [], user_nodes = [], node_traffic = [], traffic_daily = [],
     node_traffic_daily = [], audit_log = [], settings = [], user_devices = [],
     seqAdmins = 0, seqNodes = 0, seqUsers = 0, seqAudit = 0, crypt = None\<rparr>"

section \<open>Traffic sequence numbers\<close>

definition NodeTrafficSeq :: "int64 \<Rightarrow> Store \<Rightarrow> int64 result" where
  "NodeTrafficSeq nodeID s = map_sum id nrTrafficSeq (query_row (\<lambda>n. nrID n = nodeID) (nodes s))"

definition SetNodeTrafficSeq :: "int64 \<Rightarrow> int64 \<Rightarrow> Store \<Rightarrow> Store" where
  "SetNodeTrafficSeq nodeID seq s =
     s\<lparr>nodes := sql_update (\<lambda>n. nrID n = nodeID) (\<lambda>n. n\<lparr>nrTrafficSeq := seq\<rparr>) (nodes s)\<rparr>"

section \<open>Settings\<close>

definition GetSetting :: "string \<Rightarrow> Store \<Rightarrow> string \<times> bool" where
  "GetSetting key s =
     (case query_row (\<lambda>r. fst r = key) (settings s) of
        Inl _ \<Rightarrow> ('''', False)
      | Inr r \<Rightarrow> (snd r, True))"

definition SetSetting :: "string \<Rightarrow> string \<Rightarrow> Store \<Rightarrow> Store" where
  "SetSetting key v s =
     s\<lparr>settings := upsert fst (\<lambda>r. (fst r, v)) (key, v) (settings s)\<rparr>"

definition GetSecretSetting :: "string \<Rightarrow> Store \<Rightarrow> string \<times> bool" where
  "GetSecretSetting key s =
     (case GetSetting key s of (v, ok) \<Rightarrow> if \<not> ok then ('''', ok) else (decrypt (crypt s) v, True))"

definition SetSecretSetting :: "string \<Rightarrow> string \<Rightarrow> string \<Rightarrow> Store \<Rightarrow> Store" where
  "SetSecretSetting nonce key v s = SetSetting key (encrypt (crypt s) nonce v) s"

text \<open>
  The boot-time migration of plaintext secrets. \<open>nonce\<close> gives the nonce drawn for a row; a value
  that is empty or already marked is not touched.
\<close>

definition reencrypt :: "aead \<Rightarrow> string \<Rightarrow> string \<Rightarrow> string" where
  "reencrypt a n v = (if v \<noteq> '''' \<and> \<not> isEncrypted v then encrypt (Some a) n v else v)"

definition encryptExisting :: "(int \<Rightarrow> string) \<Rightarrow> (int \<Rightarrow> string) \<Rightarrow> string \<Rightarrow> Store \<Rightarrow> Store" where
  "encryptExisting nodeNonce adminNonce tgNonce s =
     (case crypt s of
        None \<Rightarrow> s
      | Some a \<Rightarrow>
          s\<lparr>nodes := map (\<lambda>n. n\<lparr>nrRealityPrivateKey := reencrypt a (nodeNonce (nrID n)) (nrRealityPrivateKey n)\<rparr>) (nodes s),
            admins := map (\<lambda>r. r\<lparr>arTOTPSecret := reencrypt a (adminNonce (arID r)) (arTOTPSecret r)\<rparr>) (admins s),
            settings := sql_update (\<lambda>r. fst r = ''telegram_token'') (\<lambda>r. (fst r, reencrypt a tgNonce (snd r))) (settings s)\<rparr>)"

section \<open>Admins\<close>

definition insert_admin :: "string \<Rightarrow> string \<Rightarrow> Store \<Rightarrow> Store result" where
  "insert_admin username hash s =
     (if username \<in> arUsername ` set (admins s) then Inl ErrUnique
      else Inr (s\<lparr>admins := admins s @ [\<lparr>arID = seqAdmins s + 1, arUsername = username, arPasswordHash = hash,
                    arTOTPSecret = '''', arTOTPEnabled = 0, arSessionEpoch = 0\<rparr>],
                  seqAdmins := seqAdmins s + 1\<rparr>))"

definition EnsureAdmin :: "string \<Rightarrow> string \<Rightarrow> Store \<Rightarrow> Store result" where
  "EnsureAdmin username hash s =
     (case query_row (\<lambda>r. arUsername r = username) (admins s) of
        Inl ErrNoRows \<Rightarrow> insert_admin username hash s
      | Inl e \<Rightarrow> Inl e
      | Inr _ \<Rightarrow> Inr s)"

definition GetAdmin :: "string \<Rightarrow> Store \<Rightarrow> Admin result" where
  "GetAdmin username s =
     (case query_row (\<lambda>r. arUsername r = username) (admins s) of
        Inl e \<Rightarrow> Inl e
      | Inr r \<Rightarrow> Inr \<lparr>aID = arID r, aUsername = arUsername r, aPasswordHash = arPasswordHash r,
                   aTOTPSecret = decrypt (crypt s) (arTOTPSecret r), aTOTPEnabled = (arTOTPEnabled r \<noteq> 0),
                   aSessionEpoch = arSessionEpoch r\<rparr>)"

definition BumpAdminSessionEpoch :: "string \<Rightarrow> Store \<Rightarrow> Store" where
  "BumpAdminSessionEpoch username s =
     s\<lparr>admins := sql_update (\<lambda>r. arUsername r = username) (\<lambda>r. r\<lparr>arSessionEpoch := arSessionEpoch r + 1\<rparr>) (admins s)\<rparr>"

definition SetAdminTOTP :: "string \<Rightarrow> string \<Rightarrow> string \<Rightarrow> bool \<Rightarrow> Store \<Rightarrow> Store" where
  "SetAdminTOTP nonce username secret enabled s =
     s\<lparr>admins := sql_update (\<lambda>r. arUsername r = username)
        (\<lambda>r. r\<lparr>arTOTPSecret := encrypt (crypt s) nonce secret, arTOTPEnabled := (if enabled then 1 else 0)\<rparr>) (admins s)\<rparr>"

definition ListAdmins :: "Store \<Rightarrow> string list" where
  "ListAdmins s = sort (map arUsername (admins s))"

definition CountAdmins :: "Store \<Rightarrow> nat" where
  "CountAdmins s = length (admins s)"

definition CreateAdmin :: "string \<Rightarrow> string \<Rightarrow> Store \<Rightarrow> Store result" where
  "CreateAdmin username hash s = insert_admin username hash s"

definition DeleteAdmin :: "string \<Rightarrow> Store \<Rightarrow> Store" where
  "DeleteAdmin username s = s\<lparr>admins := sql_delete (\<lambda>r. arUsername r = username) (admins s)\<rparr>"

definition SetAdminPassword :: "string \<Rightarrow> string \<Rightarrow> Store \<Rightarrow> Store" where
  "SetAdminPassword username hash s =
     s\<lparr>admins := sql_update (\<lambda>r. arUsername r = username)
        (\<lambda>r. r\<lparr>arPasswordHash := hash, arSessionEpoch := arSessionEpoch r + 1\<rparr>) (admins s)\<rparr>"

section \<open>Devices\<close>

definition UpsertDevice :: "int64 \<Rightarrow> int64 \<Rightarrow> string \<Rightarrow> string \<Rightarrow> int64 \<Rightarrow> int64 \<Rightarrow> Store \<Rightarrow> Store" where
  "UpsertDevice userID nodeID ip inbound conns seen s =
     s\<lparr>user_devices := upsert (\<lambda>d. (dvUser d, dvNode d, dvIP d))
         (\<lambda>d. d\<lparr>dvConns := dvConns d + conns, dvInbound := inbound, dvLastSeen := seen\<rparr>)
         \<lparr>dvUser = userID, dvNode = nodeID, dvIP = ip, dvInbound = inbound, dvConns = conns,
            dvFirstSeen = seen, dvLastSeen = seen\<rparr> (user_devices s)\<rparr>"

definition PurgeDevices :: "int64 \<Rightarrow> Store \<Rightarrow> nat \<times> Store" where
  "PurgeDevices cutoff s =
     (length (filter (\<lambda>d. dvLastSeen d < cutoff) (user_devices s)),
      s\<lparr>user_devices := sql_delete (\<lambda>d. dvLastSeen d < cutoff) (user_devices s)\<rparr>)"

section \<open>Audit log\<close>

definition AddAudit :: "int64 \<Rightarrow> string \<Rightarrow> string \<Rightarrow> string \<Rightarrow> Store \<Rightarrow> Store" where
  "AddAudit now actor action detail s =
     s\<lparr>audit_log := audit_log s @ [\<lparr>auID = seqAudit s + 1, auTS = now, auActor = actor, auAction = action, auDetail = detail\<rparr>],
       seqAudit := seqAudit s + 1\<rparr>"

definition ListAudit :: "int \<Rightarrow> Store \<Rightarrow> audit_row list" where
  "ListAudit limit s =
     (let l = (if limit \<le> 0 \<or> limit > 500 then 100 else limit)
      in take (nat l) (rev (sort_key auID (audit_log s))))"

section \<open>Nodes\<close>

definition scanNode :: "int64 \<Rightarrow> Store \<Rightarrow> node_row \<Rightarrow> Node" where
  "scanNode now s r = \<lparr>nID = nrID r, nName = nrName r, nToken = nrToken r, nAddress = nrAddress r, nRemark = nrRemark r,
     nLastSeen = nrLastSeen r, nOnline = (now - nrLastSeen r < 60), nCreatedAt = nrCreatedAt r,
     nRealityDest = nrRealityDest r, nRealityServerName = nrRealityServerName r,
     nRealityPrivateKey = decrypt (crypt s) (nrRealityPrivateKey r), nRealityPublicKey = nrRealityPublicKey r,
     nRealityShortID = nrRealityShortID r, nTLSDomain = nrTLSDomain r, nAgentVersion = nrAgentVersion r\<rparr>"

definition ListNodes :: "int64 \<Rightarrow> Store \<Rightarrow> Node list" where
  "ListNodes now s = map (scanNode now s) (sort_key nrID (nodes s))"

definition GetNode :: "int64 \<Rightarrow> int64 \<Rightarrow> Store \<Rightarrow> Node result" where
  "GetNode now nid s = map_sum id (scanNode now s) (query_row (\<lambda>r. nrID r = nid) (nodes s))"

definition GetNodeByToken :: "int64 \<Rightarrow> string \<Rightarrow> Store \<Rightarrow> Node result" where
  "GetNodeByToken now token s = map_sum id (scanNode now s) (query_row (\<lambda>r. nrToken r = token) (nodes s))"

definition CreateNode :: "int64 \<Rightarrow> string \<Rightarrow> Node \<Rightarrow> Store \<Rightarrow> (int64 \<times> Store) result" where
  "CreateNode now nonce n s =
     (if nToken n \<in> nrToken ` set (nodes s) then Inl ErrUnique
      else Inr (seqNodes s + 1,
        s\<lparr>nodes := nodes s @ [\<lparr>nrID = seqNodes s + 1, nrName = nName n, nrToken = nToken n, nrAddress = nAddress n,
             nrRemark = nRemark n, nrLastSeen = 0, nrCreatedAt = now, nrRealityDest = nRealityDest n,
             nrRealityServerName = nRealityServerName n,
             nrRealityPrivateKey = encrypt (crypt s) nonce (nRealityPrivateKey n),
             nrRealityPublicKey = nRealityPublicKey n, nrRealityShortID = nRealityShortID n,
             nrTLSDomain = nTLSDomain n, nrTrafficSeq = 0, nrAgentVersion = ''''\<rparr>],
          seqNodes := seqNodes s + 1\<rparr>))"

definition UpdateNode :: "string \<Rightarrow> Node \<Rightarrow> Store \<Rightarrow> Store" where
  "UpdateNode nonce n s =
     s\<lparr>nodes := sql_update (\<lambda>r. nrID r = nID n)
        (\<lambda>r. r\<lparr>nrName := nName n, nrAddress := nAddress n, nrRemark := nRemark n, nrRealityDest := nRealityDest n,
               nrRealityServerName := nRealityServerName n,
               nrRealityPrivateKey := encrypt (crypt s) nonce (nRealityPrivateKey n),
               nrRealityPublicKey := nRealityPublicKey n, nrRealityShortID := nRealityShortID n,
               nrTLSDomain := nTLSDomain n\<rparr>) (nodes s)\<rparr>"

definition DeleteNode :: "int64 \<Rightarrow> Store \<Rightarrow> Store" where
  "DeleteNode nid s =
     s\<lparr>user_nodes := sql_delete (\<lambda>(u, n). n = nid) (user_nodes s),
       node_traffic := sql_delete (\<lambda>r. ntNode r = nid) (node_traffic s),
       node_traffic_daily := sql_delete (\<lambda>r. ndNode r = nid) (node_traffic_daily s),
       user_devices := sql_delete (\<lambda>d. dvNode d = nid) (user_devices s),
       nodes := sql_delete (\<lambda>r. nrID r = nid) (nodes s)\<rparr>"

definition SetNodeAgentVersion :: "int64 \<Rightarrow> string \<Rightarrow> Store \<Rightarrow> Store" where
  "SetNodeAgentVersion nid v s =
     s\<lparr>nodes := sql_update (\<lambda>r. nrID r = nid) (\<lambda>r. r\<lparr>nrAgentVersion := v\<rparr>) (nodes s)\<rparr>"

definition TouchNode :: "int64 \<Rightarrow> int64 \<Rightarrow> Store \<Rightarrow> Store" where
  "TouchNode now nid s = s\<lparr>nodes := sql_update (\<lambda>r. nrID r = nid) (\<lambda>r. r\<lparr>nrLastSeen := now\<rparr>) (nodes s)\<rparr>"

section \<open>Users\<close>

definition scanUser :: "user_row \<Rightarrow> User" where
  "scanUser r = \<lparr>uID = urID r, uUsername = urUsername r, uUUID = urUUID r, uSubToken = urSubToken r,
     uDataLimit = urDataLimit r, uDataUsed = urDataUsed r, uExpireAt = urExpireAt r, uEnabled = (urEnabled r \<noteq> 0),
     uCreatedAt = urCreatedAt r, uNodeIDs = [], uPortalPasswordHash = urPortalPasswordHash r,
     uHasPortalPassword = (urPortalPasswordHash r \<noteq> ''''), uResetDay = urResetDay r, uLastReset = urLastReset r,
     uSessionEpoch = urSessionEpoch r, uMustChangePW = (urMustChangePW r \<noteq> 0), uDeviceCount = 0, uEtaDays = 0,
     uNote = urNote r\<rparr>"

lemma scanUser_sel [simp]:
  "uID (scanUser r) = urID r" "uUsername (scanUser r) = urUsername r" "uUUID (scanUser r) = urUUID r"
  "uDataLimit (scanUser r) = urDataLimit r" "uDataUsed (scanUser r) = urDataUsed r" "uExpireAt (scanUser r) = urExpireAt r"
  "uEnabled (scanUser r) = (urEnabled r \<noteq> 0)" "uSessionEpoch (scanUser r) = urSessionEpoch r"
  by (simp_all add: scanUser_def)

definition userNodeIDs :: "int64 \<Rightarrow> Store \<Rightarrow> int64 list" where
  "userNodeIDs userID s = sort (map snd (filter (\<lambda>(u, n). u = userID) (user_nodes s)))"

definition ListUsers :: "Store \<Rightarrow> User list" where
  "ListUsers s = map (\<lambda>r. (scanUser r)\<lparr>uNodeIDs := userNodeIDs (urID r) s\<rparr>) (sort_key urID (users s))"

definition GetUser :: "int64 \<Rightarrow> Store \<Rightarrow> User result" where
  "GetUser uid s =
     map_sum id (\<lambda>r. (scanUser r)\<lparr>uNodeIDs := userNodeIDs uid s\<rparr>) (query_row (\<lambda>r. urID r = uid) (users s))"

definition GetUserBySubToken :: "string \<Rightarrow> Store \<Rightarrow> User result" where
  "GetUserBySubToken token s =
     map_sum id (\<lambda>r. (scanUser r)\<lparr>uNodeIDs := userNodeIDs (urID r) s\<rparr>) (query_row (\<lambda>r. urSubToken r = token) (users s))"

definition GetUserByName :: "string \<Rightarrow> Store \<Rightarrow> User result" where
  "GetUserByName name s = map_sum id scanUser (query_row (\<lambda>r. urUsername r = name) (users s))"

definition CreateUser :: "int64 \<Rightarrow> User \<Rightarrow> Store \<Rightarrow> (int64 \<times> Store) result" where
  "CreateUser now u s =
     (if uUsername u \<in> urUsername ` set (users s) \<or> uSubToken u \<in> urSubToken ` set (users s) then Inl ErrUnique
      else Inr (seqUsers s + 1,
        s\<lparr>users := users s @ [\<lparr>urID = seqUsers s + 1, urUsername = uUsername u, urUUID = uUUID u, urSubToken = uSubToken u,
             urDataLimit = uDataLimit u, urDataUsed = 0, urExpireAt = uExpireAt u, urEnabled = (if uEnabled u then 1 else 0),
             urCreatedAt = now, urPortalPasswordHash = '''', urResetDay = uResetDay u, urLastReset = 0,
             urSessionEpoch = 0, urMustChangePW = 0, urNote = uNote u\<rparr>],
          seqUsers := seqUsers s + 1\<rparr>))"

definition upd_user :: "int64 \<Rightarrow> (user_row \<Rightarrow> user_row) \<Rightarrow> Store \<Rightarrow> Store" where
  "upd_user uid f s = s\<lparr>users := sql_update (\<lambda>r. urID r = uid) f (users s)\<rparr>"

definition BumpUserSessionEpoch :: "int64 \<Rightarrow> Store \<Rightarrow> Store" where
  "BumpUserSessionEpoch uid = upd_user uid (\<lambda>r. r\<lparr>urSessionEpoch := urSessionEpoch r + 1\<rparr>)"

definition UpdateUser :: "User \<Rightarrow> Store \<Rightarrow> Store" where
  "UpdateUser u = upd_user (uID u)
     (\<lambda>r. r\<lparr>urDataLimit := uDataLimit u, urExpireAt := uExpireAt u, urEnabled := (if uEnabled u then 1 else 0),
            urResetDay := uResetDay u, urNote := uNote u\<rparr>)"

definition SetUserSubToken :: "int64 \<Rightarrow> string \<Rightarrow> Store \<Rightarrow> Store result" where
  "SetUserSubToken uid token s =
     (if (\<exists>r \<in> set (users s). urID r = uid) \<and> (\<exists>r \<in> set (users s). urID r \<noteq> uid \<and> urSubToken r = token)
      then Inl ErrUnique
      else Inr (upd_user uid (\<lambda>r. r\<lparr>urSubToken := token\<rparr>) s))"

definition SetUserUUID :: "int64 \<Rightarrow> string \<Rightarrow> Store \<Rightarrow> Store" where
  "SetUserUUID uid uuid = upd_user uid (\<lambda>r. r\<lparr>urUUID := uuid\<rparr>)"

definition SetUserLastReset :: "int64 \<Rightarrow> int64 \<Rightarrow> Store \<Rightarrow> Store" where
  "SetUserLastReset uid ts = upd_user uid (\<lambda>r. r\<lparr>urLastReset := ts\<rparr>)"

definition SetUserPortalPassword :: "int64 \<Rightarrow> string \<Rightarrow> bool \<Rightarrow> Store \<Rightarrow> Store" where
  "SetUserPortalPassword uid hash mustChange =
     upd_user uid (\<lambda>r. r\<lparr>urPortalPasswordHash := hash, urMustChangePW := (if mustChange then 1 else 0)\<rparr>)"

definition ChangeUserPortalPassword :: "int64 \<Rightarrow> string \<Rightarrow> Store \<Rightarrow> Store" where
  "ChangeUserPortalPassword uid hash =
     upd_user uid (\<lambda>r. r\<lparr>urPortalPasswordHash := hash, urMustChangePW := 0, urSessionEpoch := urSessionEpoch r + 1\<rparr>)"

definition DeleteUser :: "int64 \<Rightarrow> Store \<Rightarrow> Store" where
  "DeleteUser uid s =
     s\<lparr>user_nodes := sql_delete (\<lambda>(u, n). u = uid) (user_nodes s),
       node_traffic := sql_delete (\<lambda>r. ntUser r = uid) (node_traffic s),
       user_devices := sql_delete (\<lambda>d. dvUser d = uid) (user_devices s),
       users := sql_delete (\<lambda>r. urID r = uid) (users s)\<rparr>"

definition insert_or_ignore :: "'a \<Rightarrow> 'a list \<Rightarrow> 'a list" where
  "insert_or_ignore x t = (if x \<in> set t then t else t @ [x])"

definition SetUserNodes :: "int64 \<Rightarrow> int64 list \<Rightarrow> Store \<Rightarrow> Store" where
  "SetUserNodes uid nodeIDs s =
     s\<lparr>user_nodes := fold (\<lambda>nid. insert_or_ignore (uid, nid)) nodeIDs
         (sql_delete (\<lambda>(u, n). u = uid) (user_nodes s))\<rparr>"

definition UsersForNode :: "int64 \<Rightarrow> Store \<Rightarrow> User list" where
  "UsersForNode nodeID s =
     map scanUser (sort_key urID (filter (\<lambda>r. (urID r, nodeID) \<in> set (user_nodes s)) (users s)))"

section \<open>Traffic\<close>

definition put_node_traffic :: "int64 \<Rightarrow> int64 \<Rightarrow> int64 \<Rightarrow> int64 \<Rightarrow> int64 \<Rightarrow> node_traffic_row list \<Rightarrow> node_traffic_row list" where
  "put_node_traffic now userID nodeID up down =
     upsert (\<lambda>r. (ntUser r, ntNode r))
       (\<lambda>r. r\<lparr>ntUp := ntUp r + up, ntDown := ntDown r + down, ntUpdatedAt := now\<rparr>)
       \<lparr>ntUser = userID, ntNode = nodeID, ntUp = up, ntDown = down, ntUpdatedAt = now\<rparr>"

definition put_traffic_daily :: "string \<Rightarrow> int64 \<Rightarrow> int64 \<Rightarrow> int64 \<Rightarrow> traffic_daily_row list \<Rightarrow> traffic_daily_row list" where
  "put_traffic_daily day userID up down =
     upsert (\<lambda>r. (tdUser r, tdDay r)) (\<lambda>r. r\<lparr>tdUp := tdUp r + up, tdDown := tdDown r + down\<rparr>)
       \<lparr>tdUser = userID, tdDay = day, tdUp = up, tdDown = down\<rparr>"

definition put_node_traffic_daily :: "string \<Rightarrow> int64 \<Rightarrow> int64 \<Rightarrow> int64 \<Rightarrow> node_traffic_daily_row list \<Rightarrow> node_traffic_daily_row list" where
  "put_node_traffic_daily day nodeID up down =
     upsert (\<lambda>r. (ndNode r, ndDay r)) (\<lambda>r. r\<lparr>ndUp := ndUp r + up, ndDown := ndDown r + down\<rparr>)
       \<lparr>ndNode = nodeID, ndDay = day, ndUp = up, ndDown = down\<rparr>"

definition AddTraffic :: "int64 \<Rightarrow> int64 \<Rightarrow> int64 \<Rightarrow> int64 \<Rightarrow> int64 \<Rightarrow> Store \<Rightarrow> Store" where
  "AddTraffic now userID nodeID up down s =
     (let day = format_day (unix_day now)
      in s\<lparr>users := sql_update (\<lambda>r. urID r = userID) (\<lambda>r. r\<lparr>urDataUsed := urDataUsed r + wrap64 (up + down)\<rparr>) (users s),
           node_traffic := put_node_traffic now userID nodeID up down (node_traffic s),
           traffic_daily := put_traffic_daily day userID up down (traffic_daily s),
           node_traffic_daily := put_node_traffic_daily day nodeID up down (node_traffic_daily s)\<rparr>)"

definition ResetUserTraffic :: "int64 \<Rightarrow> Store \<Rightarrow> Store" where
  "ResetUserTraffic uid s =
     s\<lparr>users := sql_update (\<lambda>r. urID r = uid) (\<lambda>r. r\<lparr>urDataUsed := 0\<rparr>) (users s),
       node_traffic := sql_delete (\<lambda>r. ntUser r = uid) (node_traffic s)\<rparr>"

end
