(* ===== verification/Auth.thy ===== *)
theory Auth
  imports Sha Go_Strings Store
begin

text \<open>
  Sessions, passwords and random identifiers of \<open>src/internal/panel/auth.go\<close>, with the functions of
  \<open>twofa.go\<close> and \<open>portal.go\<close> that turn a cookie into an account. Randomness, the clock and bcrypt
  (\<open>golang.org/x/crypto\<close>) are arguments; durations are in seconds.
\<close>

section \<open>Outside code\<close>

text \<open>
  \<open>bcGenerate salt pw\<close> is \<open>bcrypt.GenerateFromPassword\<close> (which refuses passwords over 72 bytes),
  \<open>bcCompare hash pw\<close> says whether \<open>CompareHashAndPassword\<close> returns no error. \<open>unicodeClass\<close>
  classifies the runes beyond ASCII with Go's tables.
\<close>

datatype rune_class = RUpper | RLower | RDigit | RSpecial | ROther

record externs =
  bcGenerate :: "string \<Rightarrow> string \<Rightarrow> string option"
  bcCompare :: "string \<Rightarrow> string \<Rightarrow> bool"
  unicodeClass :: "nat \<Rightarrow> rune_class"

definition bcrypt_ok :: "externs \<Rightarrow> bool" where
  "bcrypt_ok X \<longleftrightarrow> (\<forall>salt pw h. bcGenerate X salt pw = Some h \<longrightarrow> bcCompare X h pw)"

section \<open>Session tokens\<close>

definition roleAdmin :: string where "roleAdmin = ''admin''"
definition roleUser :: string where "roleUser = ''user''"

definition hmacHex :: "string \<Rightarrow> string \<Rightarrow> string" where
  "hmacHex secret msg = hex_encode (hmac sha256 secret msg)"

definition session_payload :: "string \<Rightarrow> string \<Rightarrow> int64 \<Rightarrow> int64 \<Rightarrow> string" where
  "session_payload role subject epoch exp = Join [role, subject, FormatInt epoch, FormatInt exp] ''|''"

definition signSession :: "int64 \<Rightarrow> string \<Rightarrow> string \<Rightarrow> string \<Rightarrow> int64 \<Rightarrow> int64 \<Rightarrow> string" where
  "signSession now secret role subject epoch ttl =
     (let exp = now + ttl;
          payload = session_payload role subject epoch exp;
          sig = hmacHex secret payload
      in b64_encode url_alphabet (payload @ ''|'' @ sig))"

definition verifySession :: "int64 \<Rightarrow> string \<Rightarrow> string \<Rightarrow> (string \<times> string \<times> int64) option" where
  "verifySession now secret token =
     (case b64_decode url_alphabet token of
        None \<Rightarrow> None
      | Some raw \<Rightarrow>
          (case Split raw ''|'' of
             [role, subject, epochStr, expStr, sig] \<Rightarrow>
               if sig \<noteq> hmacHex secret (role @ ''|'' @ subject @ ''|'' @ epochStr @ ''|'' @ expStr) then None
               else (case ParseInt epochStr of
                       None \<Rightarrow> None
                     | Some epoch \<Rightarrow>
                         (case ParseInt expStr of
                            None \<Rightarrow> None
                          | Some exp \<Rightarrow> if now \<ge> exp then None else Some (role, subject, epoch)))
           | _ \<Rightarrow> None))"

section \<open>Passwords\<close>

definition class_of :: "externs \<Rightarrow> nat \<Rightarrow> rune_class" where
  "class_of X r =
     (if r \<ge> 0x80 then unicodeClass X r
      else if 0x41 \<le> r \<and> r \<le> 0x5A then RUpper
      else if 0x61 \<le> r \<and> r \<le> 0x7A then RLower
      else if 0x30 \<le> r \<and> r \<le> 0x39 then RDigit
      else if 0x21 \<le> r \<and> r \<le> 0x7E then RSpecial
      else ROther)"

definition validatePasswordStrength :: "externs \<Rightarrow> string \<Rightarrow> bool" where
  "validatePasswordStrength X pw =
     (if length pw < 8 then False
      else
        let (u, l, d, s) = fold (\<lambda>r (u, l, d, s).
              (case class_of X r of
                 RUpper \<Rightarrow> (True, l, d, s)
               | RLower \<Rightarrow> (u, True, d, s)
               | RDigit \<Rightarrow> (u, l, True, s)
               | RSpecial \<Rightarrow> (u, l, d, True)
               | ROther \<Rightarrow> (u, l, d, s))) (runes (bytes_of pw)) (False, False, False, False)
        in u \<and> l \<and> d \<and> s)"

definition hashPassword :: "externs \<Rightarrow> string \<Rightarrow> string \<Rightarrow> string option" where
  "hashPassword X salt pw = bcGenerate X salt pw"

definition checkPassword :: "externs \<Rightarrow> string \<Rightarrow> string \<Rightarrow> bool" where
  "checkPassword X hash pw \<longleftrightarrow> bcCompare X hash pw"

section \<open>Who is behind a cookie\<close>

text \<open>\<open>requireAuth\<close> lets the request through exactly if this returns an admin; \<open>None\<close> is no cookie.\<close>

definition currentAdmin :: "int64 \<Rightarrow> string \<Rightarrow> Store \<Rightarrow> string option \<Rightarrow> Admin option" where
  "currentAdmin now secret s cookie =
     (case cookie of
        None \<Rightarrow> None
      | Some v \<Rightarrow>
          (case verifySession now secret v of
             None \<Rightarrow> None
           | Some (role, name, epoch) \<Rightarrow>
               if role \<noteq> roleAdmin then None
               else (case GetAdmin name s of
                       Inl _ \<Rightarrow> None
                     | Inr adm \<Rightarrow> if aSessionEpoch adm \<noteq> epoch then None else Some adm)))"

definition requireAuth :: "int64 \<Rightarrow> string \<Rightarrow> Store \<Rightarrow> string option \<Rightarrow> bool" where
  "requireAuth now secret s cookie =
     (case cookie of
        None \<Rightarrow> False
      | Some v \<Rightarrow>
          (case verifySession now secret v of
             None \<Rightarrow> False
           | Some (role, name, epoch) \<Rightarrow>
               if role \<noteq> roleAdmin then False
               else (case GetAdmin name s of
                       Inl _ \<Rightarrow> False
                     | Inr adm \<Rightarrow> if aSessionEpoch adm \<noteq> epoch then False else True)))"

definition portalUser :: "int64 \<Rightarrow> string \<Rightarrow> Store \<Rightarrow> string option \<Rightarrow> User option" where
  "portalUser now secret s cookie =
     (case cookie of
        None \<Rightarrow> None
      | Some v \<Rightarrow>
          (case verifySession now secret v of
             None \<Rightarrow> None
           | Some (role, subject, epoch) \<Rightarrow>
               if role \<noteq> roleUser then None
               else (case ParseInt subject of
                       None \<Rightarrow> None
                     | Some i \<Rightarrow>
                         (case GetUser i s of
                            Inl _ \<Rightarrow> None
                          | Inr u \<Rightarrow> if uSessionEpoch u \<noteq> epoch then None else Some u))))"

section \<open>Random identifiers\<close>

text \<open>The bytes drawn from \<open>crypto/rand\<close> are the argument.\<close>

definition randToken :: "string \<Rightarrow> string" where
  "randToken b = b64_encode url_alphabet b"

definition newUUID :: "nat list \<Rightarrow> string" where
  "newUUID b0 =
     (let b1 = b0[6 := (b0 ! 6 AND 0x0f) OR 0x40]; b = b1[8 := (b1 ! 8 AND 0x3f) OR 0x80];
          x = (\<lambda>i j. concat (map hex_byte (drop i (take j b))))
      in x 0 4 @ ''-'' @ x 4 6 @ ''-'' @ x 6 8 @ ''-'' @ x 8 10 @ ''-'' @ x 10 16)"

section \<open>Sessions: round trip and what a valid token proves\<close>

lemma hmacHex_no_bar [simp]: "CHR ''|'' \<notin> set (hmacHex s m)"
  using hex_encode_chars [of "hmac sha256 s m"] by (auto simp: hmacHex_def hex_alphabet_def)

lemma payload_sig_Join:
  "session_payload role subject epoch exp @ ''|'' @ sig = Join [role, subject, FormatInt epoch, FormatInt exp, sig] ''|''"
  by (simp add: session_payload_def)

lemma Split_bar_5:
  assumes "CHR ''|'' \<notin> set a" "CHR ''|'' \<notin> set b" "CHR ''|'' \<notin> set c" "CHR ''|'' \<notin> set d" "CHR ''|'' \<notin> set e"
  shows "Split (Join [a, b, c, d, e] ''|'') ''|'' = [a, b, c, d, e]"
  using assms by (intro Split_Join) auto

lemma verify_sign:
  assumes "CHR ''|'' \<notin> set role" "CHR ''|'' \<notin> set subject" "in_int64 epoch" "in_int64 (t + ttl)"
  shows "verifySession now secret (signSession t secret role subject epoch ttl) =
    (if now \<ge> t + ttl then None else Some (role, subject, epoch))"
proof -
  let ?sig = "hmacHex secret (session_payload role subject epoch (t + ttl))"
  let ?raw = "Join [role, subject, FormatInt epoch, FormatInt (t + ttl), ?sig] ''|''"
  have "b64_decode url_alphabet (signSession t secret role subject epoch ttl) = Some ?raw"
    by (simp only: signSession_def Let_def payload_sig_Join b64url.dec_enc)
  moreover have "Split ?raw ''|'' = [role, subject, FormatInt epoch, FormatInt (t + ttl), ?sig]"
    using assms by (intro Split_bar_5) auto
  moreover have "?sig = hmacHex secret (role @ ''|'' @ subject @ ''|'' @ FormatInt epoch @ ''|'' @ FormatInt (t + ttl))"
    by (simp add: session_payload_def)
  ultimately show ?thesis using assms by (simp add: verifySession_def del: Join.simps)
qed

lemma verifySession_SomeD:
  assumes "verifySession now secret token = Some (role, subject, epoch)"
  obtains es xs exp where "ParseInt es = Some epoch" "ParseInt xs = Some exp" "now < exp"
    and "b64_decode url_alphabet token =
      Some (Join [role, subject, es, xs, hmacHex secret (Join [role, subject, es, xs] ''|'')] ''|'')"
    and "CHR ''|'' \<notin> set role" "CHR ''|'' \<notin> set subject" "CHR ''|'' \<notin> set es" "CHR ''|'' \<notin> set xs"
proof -
  have no_sep: "p \<in> set (split_aux c [] acc s) \<Longrightarrow> c \<notin> set acc \<Longrightarrow> c \<notin> set p" for p c acc s
    by (induction c "[]::string" acc s arbitrary: p rule: split_aux.induct) (auto split: if_splits)
  obtain raw where raw: "b64_decode url_alphabet token = Some raw"
    using assms by (auto simp: verifySession_def split: option.splits)
  obtain es xs sig where sp: "Split raw ''|'' = [role, subject, es, xs, sig]"
    and sig: "sig = hmacHex secret (role @ ''|'' @ subject @ ''|'' @ es @ ''|'' @ xs)"
    and ep: "ParseInt es = Some epoch" and "\<exists>exp. ParseInt xs = Some exp \<and> now < exp"
    using assms raw by (auto simp: verifySession_def split: option.splits list.splits if_splits)
  then obtain exp where exp: "ParseInt xs = Some exp" "now < exp" by auto
  have join: "raw = Join [role, subject, es, xs, sig] ''|''"
    using Join_Split [of "''|''" raw] sp by simp
  have "CHR ''|'' \<notin> set p" if "p \<in> set [role, subject, es, xs, sig]" for p
    using that no_sep [of p "CHR ''|''" "[]" raw] sp by (simp add: Split_def)
  with that [OF ep exp] raw join sig show ?thesis by simp
qed

lemma payload_inject:
  assumes "Join [r, s, e, x] ''|'' = Join [r', s', e', x'] ''|''"
    and "\<forall>p \<in> set [r, s, e, x, r', s', e', x']. CHR ''|'' \<notin> set p"
  shows "r = r' \<and> s = s' \<and> e = e' \<and> x = x'"
proof -
  have "Split (Join [r, s, e, x] ''|'') ''|'' = [r, s, e, x]"
    "Split (Join [r', s', e', x'] ''|'') ''|'' = [r', s', e', x']"
    using assms(2) by (intro Split_Join; auto)+
  with assms(1) show ?thesis by simp
qed

text \<open>
  If the MAC of an accepted token was made for an issued session, the token carries the role,
  subject and epoch of that session and is inside its lifetime.
\<close>

lemma verify_signed_payload:
  assumes v: "verifySession now secret token = Some (role, subject, epoch)"
    and mac: "\<forall>m. b64_decode url_alphabet token = Some (m @ ''|'' @ hmacHex secret m) \<longrightarrow> m = session_payload role0 subject0 epoch0 exp0"
    and bar: "CHR ''|'' \<notin> set role0" "CHR ''|'' \<notin> set subject0" and rng: "in_int64 epoch0" "in_int64 exp0"
  shows "role = role0 \<and> subject = subject0 \<and> epoch = epoch0 \<and> now < exp0"
proof -
  from v obtain es xs exp where t: "ParseInt es = Some epoch" "ParseInt xs = Some exp" "now < exp"
    "b64_decode url_alphabet token =
      Some (Join [role, subject, es, xs, hmacHex secret (Join [role, subject, es, xs] ''|'')] ''|'')"
    "CHR ''|'' \<notin> set role" "CHR ''|'' \<notin> set subject" "CHR ''|'' \<notin> set es" "CHR ''|'' \<notin> set xs"
    by (rule verifySession_SomeD)
  then have "Join [role, subject, es, xs] ''|'' = session_payload role0 subject0 epoch0 exp0"
    using mac by simp
  with t bar have "role = role0 \<and> subject = subject0 \<and> es = FormatInt epoch0 \<and> xs = FormatInt exp0"
    unfolding session_payload_def by (intro payload_inject) auto
  with t rng show ?thesis by auto
qed

lemma requireAuth_iff: "requireAuth now secret s cookie \<longleftrightarrow> currentAdmin now secret s cookie \<noteq> None"
  by (auto simp: requireAuth_def currentAdmin_def split: option.splits sum.splits)

end
