(* ===== verification/Limiter.thy ===== *)
theory Limiter
  imports Prelude
begin

text \<open>
  The login throttle of \<open>src/internal/panel/auth.go\<close> (type \<open>limiter\<close>): a fixed-window failure counter
  per key. Instants are numbers (nanoseconds); \<open>t.After(u)\<close> is \<open>u < t\<close>.
\<close>

record limEntry =
  leCount :: int
  leReset :: int

record limiter =
  entries :: "(string, limEntry) gomap"
  lmax :: int
  window :: int

definition newLimiter :: "int \<Rightarrow> int \<Rightarrow> limiter" where
  "newLimiter m w = \<lparr>entries = [], lmax = m, window = w\<rparr>"

definition blocked :: "int \<Rightarrow> string \<Rightarrow> limiter \<Rightarrow> bool \<times> limiter" where
  "blocked t key l =
     (case map_of (entries l) key of
        None \<Rightarrow> (False, l)
      | Some e \<Rightarrow>
          if leReset e < t then (False, l\<lparr>entries := gomap_delete key (entries l)\<rparr>)
          else (leCount e \<ge> lmax l, l))"

definition fail :: "int \<Rightarrow> string \<Rightarrow> limiter \<Rightarrow> limiter" where
  "fail t key l =
     (let e = (case map_of (entries l) key of
                 None \<Rightarrow> \<lparr>leCount = 0, leReset = t + window l\<rparr>
               | Some e \<Rightarrow> if leReset e < t then \<lparr>leCount = 0, leReset = t + window l\<rparr> else e);
          m = gomap_set key (e\<lparr>leCount := leCount e + 1\<rparr>) (entries l)
      in l\<lparr>entries := (if length m > 4096 then filter (\<lambda>(k, v). \<not> leReset v < t) m else m)\<rparr>)"

definition reset :: "string \<Rightarrow> limiter \<Rightarrow> limiter" where
  "reset key l = l\<lparr>entries := gomap_delete key (entries l)\<rparr>"

lemma newLimiter_sel [simp]: "entries (newLimiter m w) = []" "lmax (newLimiter m w) = m" "window (newLimiter m w) = w"
  by (simp_all add: newLimiter_def)

section \<open>Behaviour\<close>

text \<open>The failures that count against a key at an instant.\<close>

definition live_count :: "int \<Rightarrow> string \<Rightarrow> limiter \<Rightarrow> int" where
  "live_count t key l =
     (case map_of (entries l) key of
        None \<Rightarrow> 0
      | Some e \<Rightarrow> if leReset e < t then 0 else leCount e)"

definition limiter_ok :: "limiter \<Rightarrow> bool" where
  "limiter_ok l \<longleftrightarrow> gomap_wf (entries l) \<and> 0 < lmax l \<and> 0 \<le> window l"

lemma map_of_filter_val:
  "gomap_wf m \<Longrightarrow> map_of (filter (\<lambda>(k, v). P v) m) k =
     (case map_of m k of None \<Rightarrow> None | Some v \<Rightarrow> if P v then Some v else None)"
proof (induction m)
  case (Cons e m)
  then show ?case
    by (cases e) (auto split: option.splits dest: map_of_SomeD simp: image_iff)
qed simp

lemma gomap_wf_filter: "gomap_wf m \<Longrightarrow> gomap_wf (filter P m)"
  by (simp add: distinct_map_filter)

lemma limiter_ok_ops [simp]:
  assumes "limiter_ok l"
  shows "limiter_ok (fail t key l)" "limiter_ok (snd (blocked t key l))" "limiter_ok (reset key l)"
proof -
  show "limiter_ok (fail t key l)"
    using assms unfolding limiter_ok_def fail_def Let_def
    by (auto intro!: gomap_wf_filter gomap_wf_set)
  show "limiter_ok (snd (blocked t key l))" "limiter_ok (reset key l)"
    using assms by (auto simp: limiter_ok_def blocked_def reset_def split: option.splits)
qed

lemma limiter_params [simp]:
  "lmax (fail t key l) = lmax l" "window (fail t key l) = window l"
  "lmax (reset key l) = lmax l" "window (reset key l) = window l"
  by (simp_all add: fail_def reset_def Let_def)

lemma blocked_iff: "limiter_ok l \<Longrightarrow> fst (blocked t key l) \<longleftrightarrow> lmax l \<le> live_count t key l"
  by (auto simp: blocked_def live_count_def limiter_ok_def split: option.splits)

lemma map_of_fail_live:
  assumes "limiter_ok l" "map_of (entries l) key = Some e" "t \<le> leReset e"
  shows "map_of (entries (fail t key l)) key = Some (e\<lparr>leCount := leCount e + 1\<rparr>)"
  using assms by (simp add: fail_def Let_def limiter_ok_def map_of_filter_val)

lemma map_of_fail_fresh:
  assumes "limiter_ok l" "map_of (entries l) key = None \<or> (\<exists>e. map_of (entries l) key = Some e \<and> leReset e < t)"
  shows "map_of (entries (fail t key l)) key = Some \<lparr>leCount = 1, leReset = t + window l\<rparr>"
  using assms by (auto simp: fail_def Let_def limiter_ok_def map_of_filter_val)

lemma map_of_fail_other:
  assumes "limiter_ok l" "k \<noteq> key" "map_of (entries (fail t key l)) k = Some e"
  shows "map_of (entries l) k = Some e"
  using assms
  by (auto simp: fail_def Let_def limiter_ok_def map_of_filter_val split: option.splits if_splits)

lemma map_of_fail_Some:
  assumes "limiter_ok l" "map_of (entries (fail t key l)) key = Some e"
  shows "(e = \<lparr>leCount = 1, leReset = t + window l\<rparr>) \<or>
         (\<exists>e'. map_of (entries l) key = Some e' \<and> t \<le> leReset e' \<and> e = e'\<lparr>leCount := leCount e' + 1\<rparr>)"
  using assms
  by (auto simp: fail_def Let_def limiter_ok_def map_of_filter_val split: option.splits if_splits)

section \<open>Runs\<close>

datatype lim_event = LFail int string | LBlocked int string | LReset int string

fun lim_exec :: "lim_event \<Rightarrow> limiter \<Rightarrow> limiter" where
  "lim_exec (LFail t k) l = fail t k l"
| "lim_exec (LBlocked t k) l = snd (blocked t k l)"
| "lim_exec (LReset t k) l = reset k l"

fun ev_time :: "lim_event \<Rightarrow> int" where
  "ev_time (LFail t k) = t"
| "ev_time (LBlocked t k) = t"
| "ev_time (LReset t k) = t"

fun lim_run :: "lim_event list \<Rightarrow> limiter \<Rightarrow> limiter" where
  "lim_run [] l = l"
| "lim_run (e # es) l = lim_run es (lim_exec e l)"

text \<open>The failures of a key recorded at or after an instant.\<close>

fun is_fail_since :: "int \<Rightarrow> string \<Rightarrow> lim_event \<Rightarrow> bool" where
  "is_fail_since t key (LFail t' k) \<longleftrightarrow> k = key \<and> t \<le> t'"
| "is_fail_since t key _ \<longleftrightarrow> False"

definition fails_since :: "int \<Rightarrow> string \<Rightarrow> lim_event list \<Rightarrow> int" where
  "fails_since t key es = int (length (filter (is_fail_since t key) es))"

definition counts_justified :: "lim_event list \<Rightarrow> limiter \<Rightarrow> bool" where
  "counts_justified es l \<longleftrightarrow>
     limiter_ok l \<and>
     (\<forall>k e. map_of (entries l) k = Some e \<longrightarrow>
        leCount e \<le> fails_since (leReset e - window l) k es \<and> (\<exists>ev \<in> set es. leReset e - window l = ev_time ev))"

lemma fails_since_snoc:
  "fails_since t k (es @ [e]) = fails_since t k es + (if is_fail_since t k e then 1 else 0)"
  by (simp add: fails_since_def)

lemma fails_since_antimono: "t \<le> t' \<Longrightarrow> fails_since t' k es \<le> fails_since t k es"
proof (induction es)
  case (Cons e es)
  then show ?case by (cases e) (auto simp: fails_since_def)
qed (simp add: fails_since_def)

lemma counts_justified_fail:
  assumes just: "counts_justified es l" and chrono: "\<forall>ev \<in> set es. ev_time ev \<le> t"
    and x: "map_of (entries (fail t key l)) k = Some x"
  shows "leCount x \<le> fails_since (leReset x - window l) k (es @ [LFail t key]) \<and>
    (\<exists>ev \<in> set (es @ [LFail t key]). leReset x - window l = ev_time ev)"
proof -
  have ok: "limiter_ok l" using just by (simp add: counts_justified_def)
  have hist: "leCount y \<le> fails_since (leReset y - window l) j es" "\<exists>ev \<in> set es. leReset y - window l = ev_time ev"
    if "map_of (entries l) j = Some y" for j y
    using just that by (auto simp: counts_justified_def)
  show ?thesis
  proof (cases "k = key")
    case True
    with x map_of_fail_Some [OF ok] consider
      "x = \<lparr>leCount = 1, leReset = t + window l\<rparr>" |
      y where "map_of (entries l) key = Some y" "t \<le> leReset y" "x = y\<lparr>leCount := leCount y + 1\<rparr>"
      by blast
    then show ?thesis
    proof cases
      case 1
      then show ?thesis using True by (simp add: fails_since_snoc) (simp add: fails_since_def)
    next
      case 2
      then have "leReset y - window l \<le> t" using hist(2) [of key y] chrono by force
      with 2 True hist [of key y] show ?thesis by (simp add: fails_since_snoc)
    qed
  next
    case False
    then have "map_of (entries l) k = Some x" using x map_of_fail_other [OF ok] by blast
    with False hist [of k x] show ?thesis by (simp add: fails_since_snoc)
  qed
qed

text \<open>Dropping entries needs no justification.\<close>

lemma counts_justified_drop:
  assumes "counts_justified es l" "gomap_wf m" "\<And>k x. map_of m k = Some x \<Longrightarrow> map_of (entries l) k = Some x"
  shows "counts_justified (es @ [e]) (l\<lparr>entries := m\<rparr>)"
  unfolding counts_justified_def
proof (intro conjI allI impI)
  show "limiter_ok (l\<lparr>entries := m\<rparr>)" using assms by (simp add: counts_justified_def limiter_ok_def)
  fix k x
  assume "map_of (entries (l\<lparr>entries := m\<rparr>)) k = Some x"
  with assms(3) have "map_of (entries l) k = Some x" by simp
  with assms(1) show "leCount x \<le> fails_since (leReset x - window (l\<lparr>entries := m\<rparr>)) k (es @ [e])"
    "\<exists>ev \<in> set (es @ [e]). leReset x - window (l\<lparr>entries := m\<rparr>) = ev_time ev"
    unfolding counts_justified_def fails_since_snoc by force+
qed

lemma counts_justified_step:
  assumes "counts_justified es l" "\<forall>ev \<in> set es. ev_time ev \<le> ev_time e"
  shows "counts_justified (es @ [e]) (lim_exec e l)"
proof -
  have wf: "gomap_wf (entries l)" using assms by (simp add: counts_justified_def limiter_ok_def)
  have del: "counts_justified (es @ [e]) (l\<lparr>entries := gomap_delete k (entries l)\<rparr>)" for k
    using wf by (intro counts_justified_drop [OF assms(1)]) (auto split: if_splits)
  have same: "counts_justified (es @ [e]) l"
    using counts_justified_drop [OF assms(1) wf, of e] by simp
  show ?thesis
  proof (cases e)
    case (LFail t key)
    with assms counts_justified_fail [of es l t key] show ?thesis by (simp add: counts_justified_def)
  next
    case (LBlocked t key)
    with del [of key] same show ?thesis by (auto simp: blocked_def split: option.splits)
  next
    case (LReset t key)
    with del [of key] show ?thesis by (simp add: reset_def)
  qed
qed

lemma lim_run_snoc: "lim_run (es @ [e]) l = lim_exec e (lim_run es l)"
  by (induction es arbitrary: l) auto

lemma window_run [simp]: "window (lim_run es l) = window l" "lmax (lim_run es l) = lmax l"
proof (induction es rule: rev_induct)
  case (snoc e es)
  { case 1 show ?case using snoc by (cases e) (auto simp: lim_run_snoc blocked_def split: option.splits)
  next case 2 show ?case using snoc by (cases e) (auto simp: lim_run_snoc blocked_def split: option.splits) }
qed simp_all

lemma lim_run_justified:
  "sorted (map ev_time es) \<Longrightarrow> 0 < m \<Longrightarrow> 0 \<le> w \<Longrightarrow> counts_justified es (lim_run es (newLimiter m w))"
proof (induction es rule: rev_induct)
  case Nil
  then show ?case by (simp add: counts_justified_def limiter_ok_def newLimiter_def)
next
  case (snoc e es)
  then show ?case
    by (auto simp: lim_run_snoc sorted_append intro!: counts_justified_step)
qed

text \<open>
  While its window is open an entry survives everything but a reset of its own key, clean-up
  included, and counts the failures of its key.
\<close>

definition keeps :: "string \<Rightarrow> int \<Rightarrow> lim_event \<Rightarrow> bool" where
  "keeps key until ev \<longleftrightarrow> ev_time ev \<le> until \<and> (\<forall>t. ev \<noteq> LReset t key)"

definition fails_of :: "string \<Rightarrow> lim_event list \<Rightarrow> int" where
  "fails_of key es = int (length (filter (\<lambda>ev. \<exists>t. ev = LFail t key) es))"

lemma lim_exec_keeps:
  assumes "limiter_ok l" "map_of (entries l) key = Some e" "keeps key (leReset e) ev"
  shows "map_of (entries (lim_exec ev l)) key = Some (e\<lparr>leCount := leCount e + fails_of key [ev]\<rparr>)"
proof (cases ev)
  case (LFail t k)
  with assms show ?thesis
    by (cases "k = key") (simp_all add: fail_def Let_def limiter_ok_def map_of_filter_val fails_of_def keeps_def)
next
  case (LBlocked t k)
  with assms show ?thesis
    by (auto simp: blocked_def fails_of_def keeps_def split: option.splits)
next
  case (LReset t k)
  with assms show ?thesis by (auto simp: reset_def fails_of_def keeps_def)
qed

lemma limiter_ok_exec: "limiter_ok l \<Longrightarrow> limiter_ok (lim_exec ev l)"
  by (cases ev) simp_all

lemma lim_run_keeps:
  assumes "limiter_ok l" "map_of (entries l) key = Some e" "\<forall>ev \<in> set es. keeps key (leReset e) ev"
  shows "map_of (entries (lim_run es l)) key = Some (e\<lparr>leCount := leCount e + fails_of key es\<rparr>)"
  using assms
proof (induction es arbitrary: l e)
  case Nil
  then show ?case by (simp add: fails_of_def)
next
  case (Cons ev es)
  let ?e = "e\<lparr>leCount := leCount e + fails_of key [ev]\<rparr>"
  have "map_of (entries (lim_run es (lim_exec ev l))) key = Some (?e\<lparr>leCount := leCount ?e + fails_of key es\<rparr>)"
    using Cons.prems lim_exec_keeps [of l key e ev] by (intro Cons.IH limiter_ok_exec) auto
  moreover have "fails_of key (ev # es) = fails_of key [ev] + fails_of key es" by (simp add: fails_of_def)
  ultimately show ?case by (simp add: add.assoc)
qed

section \<open>Properties\<close>

text \<open>C4: A key is only ever locked out for cause: if the throttle of a panel that has been running since start-up
  reports a key as blocked at time \<open>t\<close>, at least \<open>max\<close> failed attempts of that very key were recorded in the window
  before \<open>t\<close>, whatever interleaving of attempts, checks, successes and clean-ups of other keys happened.\<close>

theorem limiter_lockout_justified:
  assumes "sorted (map ev_time es)" "0 < m" "0 \<le> w"
    and "fst (blocked t key (lim_run es (newLimiter m w)))"
  shows "m \<le> fails_since (t - w) key es"
proof -
  let ?l = "lim_run es (newLimiter m w)"
  have j: "counts_justified es ?l" by (rule lim_run_justified) fact+
  then have ok: "limiter_ok ?l" by (simp add: counts_justified_def)
  from assms(4) ok have "m \<le> live_count t key ?l" by (simp add: blocked_iff)
  with assms(2) obtain e where e: "map_of (entries ?l) key = Some e" "t \<le> leReset e" "m \<le> leCount e"
    by (auto simp: live_count_def split: option.splits if_splits)
  with j have "m \<le> fails_since (leReset e - w) key es" by (force simp: counts_justified_def)
  also have "\<dots> \<le> fails_since (t - w) key es" using e(2) by (intro fails_since_antimono) simp
  finally show ?thesis .
qed

theorem limiter_lockout_justified_witness:
  "fst (blocked 9 ''ip'' (lim_run [LFail 1 ''ip'', LFail 2 ''u'', LFail 3 ''ip''] (newLimiter 2 10))) \<and>
   2 \<le> fails_since (9 - 10) ''ip'' [LFail 1 ''ip'', LFail 2 ''u'', LFail 3 ''ip'']"
proof -
  have b: "fst (blocked 9 ''ip'' (lim_run [LFail 1 ''ip'', LFail 2 ''u'', LFail 3 ''ip''] (newLimiter 2 10)))"
    by code_simp
  show ?thesis
    using limiter_lockout_justified [OF _ _ _ b] b by simp
qed

text \<open>C28: The lockout cannot be evaded: once a fresh window of a key opens at \<open>t0\<close>, and \<open>max\<close> failures of the key are
  recorded before it ends, the key is blocked for the rest of the window, however the failures interleave
  with events of other keys (and with checks of the same key), unless the key itself is reset by a successful login.\<close>

theorem limiter_lockout_enforced:
  assumes "limiter_ok l"
    and "map_of (entries l) key = None \<or> (\<exists>e. map_of (entries l) key = Some e \<and> leReset e < t0)"
    and "\<forall>ev \<in> set es. keeps key (t0 + window l) ev"
    and "lmax l \<le> 1 + fails_of key es" and "t \<le> t0 + window l"
  shows "fst (blocked t key (lim_run (LFail t0 key # es) l))"
proof -
  let ?e = "\<lparr>leCount = 1, leReset = t0 + window l\<rparr>"
  have "map_of (entries (fail t0 key l)) key = Some ?e" using assms by (intro map_of_fail_fresh)
  then have "map_of (entries (lim_run es (fail t0 key l))) key = Some (?e\<lparr>leCount := leCount ?e + fails_of key es\<rparr>)"
    using assms by (intro lim_run_keeps) auto
  with assms(4,5) show ?thesis by (simp add: blocked_def)
qed

theorem limiter_lockout_enforced_witness:
  "fst (blocked 10 ''ip'' (lim_run [LFail 1 ''ip'', LReset 2 ''u'', LFail 3 ''ip''] (newLimiter 2 10)))"
proof -
  have "limiter_ok (newLimiter 2 10)" by (simp add: limiter_ok_def newLimiter_def)
  then show ?thesis
    using limiter_lockout_enforced [of "newLimiter 2 10" "''ip''" 1 "[LReset 2 ''u'', LFail 3 ''ip'']" 10]
    by (simp add: live_count_def newLimiter_def keeps_def fails_of_def)
qed

end
