(* ===== verification/Validate.thy ===== *)
theory Validate
  imports Models Go_Strings
begin

text \<open>
  Input validation, \<open>src/internal/panel/validate.go\<close>. The four regular expressions are written in a small
  syntax (classes, sequence, option, counted repetition of a class) with a backtracking matcher, which is
  proved to decide the language of the expression; the expressions are anchored at both ends, so a
  match consumes the whole string. The classes are ASCII, so a byte of a longer rune never matches.
\<close>

section \<open>Regular expressions\<close>

datatype rx =
    RCls "char list"
  | RSeq rx rx
  | ROpt rx
  | RRep nat nat "char list"

text \<open>What may be left of the input after a match of a prefix.\<close>

fun rests :: "rx \<Rightarrow> string \<Rightarrow> string list" where
  "rests (RCls cl) [] = []"
| "rests (RCls cl) (c # s) = (if c \<in> set cl then [s] else [])"
| "rests (RSeq a b) s = concat (map (rests b) (rests a s))"
| "rests (ROpt a) s = s # rests a s"
| "rests (RRep m n cl) s =
     map (\<lambda>i. drop i s) (filter (\<lambda>i. i \<le> length s \<and> list_all (\<lambda>c. c \<in> set cl) (take i s)) [m..<Suc n])"

definition MatchString :: "rx \<Rightarrow> string \<Rightarrow> bool" where
  "MatchString r s \<longleftrightarrow> [] \<in> set (rests r s)"

fun lang :: "rx \<Rightarrow> string set" where
  "lang (RCls cl) = {[c] |c. c \<in> set cl}"
| "lang (RSeq a b) = {u @ v |u v. u \<in> lang a \<and> v \<in> lang b}"
| "lang (ROpt a) = insert [] (lang a)"
| "lang (RRep m n cl) = {s. m \<le> length s \<and> length s \<le> n \<and> set s \<subseteq> set cl}"

lemma rests_lang: "set (rests r s) = {v. \<exists>u. s = u @ v \<and> u \<in> lang r}"
proof (induction r arbitrary: s)
  case (RCls cl)
  show ?case by (cases s) auto
next
  case (RSeq a b)
  have "set (rests (RSeq a b) s) = (\<Union>w \<in> set (rests a s). set (rests b w))" by simp
  also have "\<dots> = {v. \<exists>u1 u2. s = u1 @ u2 @ v \<and> u1 \<in> lang a \<and> u2 \<in> lang b}"
    unfolding RSeq.IH by blast
  finally show ?case by (simp add: set_eq_iff) (metis append.assoc)
next
  case (RRep m n cl)
  show ?case
  proof (intro set_eqI iffI)
    fix v
    assume "v \<in> set (rests (RRep m n cl) s)"
    then obtain i where "m \<le> i" "i \<le> n" "i \<le> length s" "set (take i s) \<subseteq> set cl" "v = drop i s"
      by (auto simp: list_all_iff less_Suc_eq_le subset_iff simp del: upt_Suc)
    then show "v \<in> {v. \<exists>u. s = u @ v \<and> u \<in> lang (RRep m n cl)}"
      by (auto intro!: exI [of _ "take i s"])
  next
    fix v
    assume "v \<in> {v. \<exists>u. s = u @ v \<and> u \<in> lang (RRep m n cl)}"
    then obtain u where "s = u @ v" "m \<le> length u" "length u \<le> n" "set u \<subseteq> set cl" by auto
    then show "v \<in> set (rests (RRep m n cl) s)"
      by (auto simp: list_all_iff less_Suc_eq_le simp del: upt_Suc intro!: image_eqI [of _ _ "length u"])
  qed
qed auto

lemma MatchString_lang: "MatchString r s \<longleftrightarrow> s \<in> lang r"
  by (simp add: MatchString_def rests_lang)

section \<open>The expressions\<close>

definition cls_alnum :: "char list" where
  "cls_alnum = ''ABCDEFGHIJKLMNOPQRSTUVWXYZabcdefghijklmnopqrstuvwxyz0123456789''"

definition reUsername :: rx where
  "reUsername = RRep 1 64 (cls_alnum @ ''._-'')"

definition reHostname :: rx where
  "reHostname = RSeq (ROpt (RSeq (RCls ''*'') (RCls ''.'')))
     (RSeq (RCls cls_alnum) (ROpt (RSeq (RRep 0 251 (cls_alnum @ ''.-'')) (RCls cls_alnum))))"

definition reShortID :: rx where
  "reShortID = RRep 0 16 ''0123456789abcdefABCDEF''"

definition reB64Key :: rx where
  "reB64Key = RRep 0 128 (cls_alnum @ ''+/_=-'')"

datatype validate_error =
    ErrUsername
  | ErrAddress
  | ErrTLSDomain
  | ErrServerName
  | ErrDest
  | ErrDestPort
  | ErrShortID
  | ErrKeys

definition validateUsername :: "string \<Rightarrow> validate_error option" where
  "validateUsername name = (if \<not> MatchString reUsername name then Some ErrUsername else None)"

definition validHostname :: "string \<Rightarrow> bool" where
  "validHostname s \<longleftrightarrow> MatchString reHostname s"

definition validateNode :: "Node \<Rightarrow> validate_error option" where
  "validateNode n =
     (if nAddress n \<noteq> '''' \<and> \<not> validHostname (nAddress n) then Some ErrAddress
      else if nTLSDomain n \<noteq> '''' \<and> \<not> validHostname (nTLSDomain n) then Some ErrTLSDomain
      else if nRealityServerName n \<noteq> '''' \<and> \<not> validHostname (nRealityServerName n) then Some ErrServerName
      else
        let destErr =
          (if nRealityDest n \<noteq> '''' then
             case Cut (nRealityDest n) (CHR '':'') of (host, port, ok) \<Rightarrow>
               if \<not> ok \<or> \<not> validHostname host then Some ErrDest
               else (case Atoi port of
                       None \<Rightarrow> Some ErrDestPort
                     | Some p \<Rightarrow> if p < 1 \<or> p > 65535 then Some ErrDestPort else None)
           else None)
        in if destErr \<noteq> None then destErr
           else if \<not> MatchString reShortID (nRealityShortID n) then Some ErrShortID
           else if \<not> MatchString reB64Key (nRealityPrivateKey n) \<or> \<not> MatchString reB64Key (nRealityPublicKey n)
             then Some ErrKeys
           else None)"

section \<open>What the validators admit\<close>

lemma validateUsername_iff:
  "validateUsername s = None \<longleftrightarrow> 1 \<le> length s \<and> length s \<le> 64 \<and> set s \<subseteq> set (cls_alnum @ ''._-'')"
  by (auto simp: validateUsername_def MatchString_lang reUsername_def)

text \<open>A user name cannot carry the separator of a session token or of a statistics key, nor a space.\<close>

lemma username_safe:
  assumes "validateUsername s = None"
  shows "CHR ''|'' \<notin> set s" "CHR ''>'' \<notin> set s" "CHR '' '' \<notin> set s" "CHR '':'' \<notin> set s" "s \<noteq> ''''"
  using assms unfolding validateUsername_iff by (auto simp: cls_alnum_def)

lemma validHostname_chars: "validHostname s \<Longrightarrow> s \<noteq> '''' \<and> set s \<subseteq> set (cls_alnum @ ''.-*'')"
  by (auto simp: validHostname_def MatchString_lang reHostname_def)

lemma validHostname_length: "validHostname s \<Longrightarrow> length s \<le> 255"
  by (auto simp: validHostname_def MatchString_lang reHostname_def)

text \<open>No character of a host name ends an nginx directive or quotes a YAML scalar.\<close>

lemma hostname_safe:
  assumes "validHostname s"
  shows "set s \<inter> {CHR '';'', CHR ''{'', CHR ''}'', CHR '' '', CHR 0x09, CHR 0x0A, CHR 0x0D, CHR 0x22, CHR 0x27, CHR 0x5C, CHR ''/'', CHR '':'', CHR ''#'', CHR ''$''} = {}"
  using validHostname_chars [OF assms] by (auto simp: cls_alnum_def)

end
