(* ===== verification/Json.thy ===== *)
theory Json
  imports Prelude
begin

text \<open>
  The values of \<open>encoding/json\<close> as the code handles them: a \<open>map[string]any\<close> is a Go map from
  keys to values, an \<open>[]any\<close> is a list. A \<open>json.RawMessage\<close> is modelled by the value it decodes
  to (\<open>None\<close>: bytes that are not JSON), so \<open>Marshal\<close> followed by \<open>Unmarshal\<close> is the identity. The
  configurations the program exchanges hold integers only, so a number is an \<open>int\<close>.
\<close>

datatype json =
    JNull
  | JBool bool
  | JNum int
  | JStr string
  | JArr "json list"
  | JObj "(string \<times> json) list"

type_synonym raw_message = "json option"

text \<open>The type assertions \<open>v.(map[string]any)\<close>, \<open>v.([]any)\<close>, \<open>v.(string)\<close>.\<close>

fun as_obj :: "json \<Rightarrow> (string \<times> json) list option" where
  "as_obj (JObj m) = Some m"
| "as_obj _ = None"

fun as_arr :: "json \<Rightarrow> json list option" where
  "as_arr (JArr xs) = Some xs"
| "as_arr _ = None"

fun as_str :: "json \<Rightarrow> string option" where
  "as_str (JStr s) = Some s"
| "as_str _ = None"

lemma as_obj_Some [simp]: "as_obj j = Some m \<longleftrightarrow> j = JObj m"
  by (cases j) auto

lemma as_arr_Some [simp]: "as_arr j = Some xs \<longleftrightarrow> j = JArr xs"
  by (cases j) auto

lemma as_str_Some [simp]: "as_str j = Some s \<longleftrightarrow> j = JStr s"
  by (cases j) auto

text \<open>
  Reading a key of a map: \<open>m[k]\<close> of a missing key is \<open>nil\<close>, on which every type assertion fails;
  the comma-ok form with the result discarded gives the zero value.
\<close>

definition field_obj :: "string \<Rightarrow> (string \<times> json) list \<Rightarrow> (string \<times> json) list option" where
  "field_obj k m = Option.bind (map_of m k) as_obj"

definition field_arr :: "string \<Rightarrow> (string \<times> json) list \<Rightarrow> json list option" where
  "field_arr k m = Option.bind (map_of m k) as_arr"

definition field_str :: "string \<Rightarrow> (string \<times> json) list \<Rightarrow> string option" where
  "field_str k m = Option.bind (map_of m k) as_str"

definition or_zero :: "'a list option \<Rightarrow> 'a list" where
  "or_zero x = (case x of None \<Rightarrow> [] | Some v \<Rightarrow> v)"

lemma or_zero_simps [simp]: "or_zero None = []" "or_zero (Some v) = v"
  by (simp_all add: or_zero_def)

lemmas field_defs = field_obj_def field_arr_def field_str_def

end
