(* ===== verification/Nodeconf.thy ===== *)
theory Nodeconf
  imports Json
begin

text \<open>
  The generator of the engine configuration, \<open>src/internal/nodeconf/nodeconf.go\<close>, shared by the panel
  and the standalone agent: every key and value of the emitted JSON object.
\<close>

record Client =
  cUUID :: string
  cEmail :: string

record NodeParams =
  npRealityDest :: string
  npRealityServerName :: string
  npRealityPrivateKey :: string
  npRealityShortID :: string
  npTLSDomain :: string

definition hasReality :: "NodeParams \<Rightarrow> bool" where
  "hasReality p \<longleftrightarrow> npRealityDest p \<noteq> '''' \<and> npRealityServerName p \<noteq> '''' \<and> npRealityPrivateKey p \<noteq> ''''"

definition tagTLS :: string where
  "tagTLS = ''vless-xtls-vision''"

definition tagReality :: string where
  "tagReality = ''vless-reality-vision''"

lemmas tag_defs = tagTLS_def tagReality_def

definition client_json :: "Client \<Rightarrow> json" where
  "client_json c = JObj [(''id'', JStr (cUUID c)), (''email'', JStr (cEmail c)),
     (''flow'', JStr ''xtls-rprx-vision''), (''level'', JNum 0)]"

definition apiInbound :: json where
  "apiInbound = JObj [(''tag'', JStr ''api''), (''listen'', JStr ''0.0.0.0''), (''port'', JNum 10085),
     (''protocol'', JStr ''dokodemo-door''), (''settings'', JObj [(''address'', JStr ''127.0.0.1'')])]"

definition sniffing :: json where
  "sniffing = JObj [(''enabled'', JBool True),
     (''destOverride'', JArr [JStr ''http'', JStr ''tls'', JStr ''quic'']), (''routeOnly'', JBool True)]"

definition tlsInbound :: "json list \<Rightarrow> json" where
  "tlsInbound clients = JObj [(''tag'', JStr tagTLS), (''listen'', JStr ''0.0.0.0''), (''port'', JNum 10444),
     (''protocol'', JStr ''vless''),
     (''settings'', JObj [(''clients'', JArr clients), (''decryption'', JStr ''none''),
        (''fallbacks'', JArr [JObj [(''dest'', JStr ''nginx:8080''), (''xver'', JNum 0)]])]),
     (''streamSettings'', JObj [(''network'', JStr ''tcp''), (''security'', JStr ''tls''),
        (''sockopt'', JObj [(''acceptProxyProtocol'', JBool True)]),
        (''tlsSettings'', JObj [(''rejectUnknownSni'', JBool True), (''minVersion'', JStr ''1.3''),
           (''alpn'', JArr [JStr ''http/1.1'']),
           (''certificates'', JArr [JObj [(''ocspStapling'', JNum 3600),
              (''certificateFile'', JStr ''/etc/xray/certs/fullchain.pem''),
              (''keyFile'', JStr ''/etc/xray/certs/privkey.pem'')]])])]),
     (''sniffing'', sniffing)]"

definition realityInbound :: "NodeParams \<Rightarrow> json list \<Rightarrow> json" where
  "realityInbound p clients = JObj [(''tag'', JStr tagReality), (''listen'', JStr ''0.0.0.0''), (''port'', JNum 10443),
     (''protocol'', JStr ''vless''),
     (''settings'', JObj [(''clients'', JArr clients), (''decryption'', JStr ''none'')]),
     (''streamSettings'', JObj [(''network'', JStr ''tcp''), (''security'', JStr ''reality''),
        (''sockopt'', JObj [(''acceptProxyProtocol'', JBool True)]),
        (''realitySettings'', JObj [(''show'', JBool False), (''dest'', JStr (npRealityDest p)), (''xver'', JNum 0),
           (''serverNames'', JArr [JStr (npRealityServerName p)]), (''privateKey'', JStr (npRealityPrivateKey p)),
           (''shortIds'', JArr [JStr (npRealityShortID p)])])]),
     (''sniffing'', sniffing)]"

definition inbounds_of :: "NodeParams \<Rightarrow> json list \<Rightarrow> json list" where
  "inbounds_of p clients =
     [apiInbound]
     @ (if npTLSDomain p \<noteq> '''' then [tlsInbound clients] else [])
     @ (if hasReality p then [realityInbound p clients] else [])"

definition config_with :: "json list \<Rightarrow> json" where
  "config_with inbounds = JObj
     [(''log'', JObj [(''loglevel'', JStr ''warning''), (''access'', JStr ''/var/log/xray/access.log''), (''error'', JStr '''')]),
      (''stats'', JObj []),
      (''api'', JObj [(''tag'', JStr ''api''), (''services'', JArr [JStr ''StatsService'', JStr ''HandlerService''])]),
      (''policy'', JObj [(''levels'', JObj [(''0'', JObj [(''statsUserUplink'', JBool True), (''statsUserDownlink'', JBool True)])]),
         (''system'', JObj [(''statsInboundUplink'', JBool True), (''statsInboundDownlink'', JBool True)])]),
      (''inbounds'', JArr inbounds),
      (''outbounds'', JArr
         [JObj [(''tag'', JStr ''direct''), (''protocol'', JStr ''freedom''),
            (''streamSettings'', JObj [(''sockopt'', JObj [(''domainStrategy'', JStr ''UseIPv4'')])])],
          JObj [(''tag'', JStr ''block''), (''protocol'', JStr ''blackhole'')]]),
      (''routing'', JObj [(''domainStrategy'', JStr ''AsIs''), (''rules'', JArr
         [JObj [(''type'', JStr ''field''), (''inboundTag'', JArr [JStr ''api'']), (''outboundTag'', JStr ''api'')],
          JObj [(''type'', JStr ''field''), (''ip'', JArr [JStr ''geoip:private'']), (''outboundTag'', JStr ''block'')],
          JObj [(''type'', JStr ''field''), (''domain'', JArr [JStr ''geosite:category-ads-all'']), (''outboundTag'', JStr ''block'')]])])]"

definition Build :: "NodeParams \<Rightarrow> Client list \<Rightarrow> json" where
  "Build p clients = config_with (inbounds_of p (map client_json clients))"

text \<open>The configuration depends on the users only through the two client lists.\<close>

lemma config_with_inject [simp]: "config_with xs = config_with ys \<longleftrightarrow> xs = ys"
  by (simp add: config_with_def)

lemma config_inbounds [simp]: "\<exists>m. config_with xs = JObj m \<and> map_of m ''inbounds'' = Some (JArr xs)"
  by (simp add: config_with_def)

lemma client_json_inject [simp]: "client_json c = client_json d \<longleftrightarrow> c = d"
  by (cases c; cases d) (auto simp: client_json_def)

lemma map_client_json_inject [simp]: "map client_json cs = map client_json ds \<longleftrightarrow> cs = ds"
  by (simp add: inj_def inj_map_eq_map)

end
