(* ===== verification/Wire.thy ===== *)
theory Wire
  imports Json Complex_Main
begin

text \<open>
  The frames of \<open>src/internal/wire/wire.go\<close>: the envelope \<open>Msg\<close> and what it carries. An absent
  (\<open>omitempty\<close>) field is the zero value of its type, \<open>Metrics\<close> is a pointer and so an option.
\<close>

record TrafficItem =
  tiEmail :: string
  tiUp :: int64
  tiDown :: int64

record DeviceItem =
  diEmail :: string
  diIP :: string
  diInbound :: string
  diConns :: int64
  diLastSeen :: int64

record NodeMetrics =
  nmLoadAvg :: rat
  nmMemUsedPct :: int
  nmXrayVersion :: string
  nmCertExpiry :: int64
  nmUptime :: int64
  nmCPUUsedPct :: int
  nmCPUCores :: int
  nmCPUModel :: string
  nmMemTotal :: int64
  nmMemUsed :: int64
  nmDiskTotal :: int64
  nmDiskUsed :: int64
  nmHostUptime :: int64

record Msg =
  msgType :: string
  msgToken :: string
  msgVersion :: string
  msgConfig :: raw_message
  msgTLSDomain :: string
  msgItems :: "TrafficItem list"
  msgSeq :: int64
  msgMetrics :: "NodeMetrics option"
  msgDevices :: "DeviceItem list"

definition TypeRegister :: string where "TypeRegister = ''register''"
definition TypeHeartbeat :: string where "TypeHeartbeat = ''heartbeat''"
definition TypeTraffic :: string where "TypeTraffic = ''traffic''"
definition TypeConfig :: string where "TypeConfig = ''config''"
definition TypeAck :: string where "TypeAck = ''ack''"
definition TypeDevices :: string where "TypeDevices = ''devices''"

lemmas msg_type_defs =
  TypeRegister_def TypeHeartbeat_def TypeTraffic_def TypeConfig_def TypeAck_def TypeDevices_def

definition empty_msg :: "string \<Rightarrow> Msg" where
  "empty_msg t = \<lparr>msgType = t, msgToken = '''', msgVersion = '''', msgConfig = None,
     msgTLSDomain = '''', msgItems = [], msgSeq = 0, msgMetrics = None, msgDevices = []\<rparr>"

text \<open>The bytes a report attributes to one e-mail, in one direction.\<close>

definition email_up :: "string \<Rightarrow> TrafficItem list \<Rightarrow> int" where
  "email_up e items = sum_for (\<lambda>it. tiEmail it = e) tiUp items"

definition email_down :: "string \<Rightarrow> TrafficItem list \<Rightarrow> int" where
  "email_down e items = sum_for (\<lambda>it. tiEmail it = e) tiDown items"

lemma email_sums_Nil [simp]: "email_up e [] = 0" "email_down e [] = 0"
  by (simp_all add: email_up_def email_down_def)

lemma email_sums_Cons [simp]:
  "email_up e (it # items) = (if tiEmail it = e then tiUp it else 0) + email_up e items"
  "email_down e (it # items) = (if tiEmail it = e then tiDown it else 0) + email_down e items"
  by (simp_all add: email_up_def email_down_def)

lemma email_sums_append [simp]:
  "email_up e (xs @ ys) = email_up e xs + email_up e ys"
  "email_down e (xs @ ys) = email_down e xs + email_down e ys"
  by (simp_all add: email_up_def email_down_def)

end
