(* ===== verification/App.thy ===== *)
theory App
  imports Auth Limiter Validate Nodeconf Wire
begin

text \<open>
  The panel's in-memory state (\<open>type App\<close> and \<open>type Config\<close> of \<open>src/internal/panel/app.go\<close>, \<open>liveSettings\<close>
  of \<open>settings.go\<close>, \<open>Hub\<close> and \<open>nodeConn\<close> of \<open>hub.go\<close>) and the small operations on it: live settings,
  Telegram configuration and notices, node metrics and throughput.

  A \<open>nodeConn\<close> is an object shared by the hub and the goroutines of its connection, so objects live in
  a list (\<open>objs\<close>) and a pointer is an index. \<open>ncSend\<close> is the buffered channel (capacity 8), \<open>ncOut\<close> what
  \<open>writeLoop\<close> has written to the socket so far. A mutex section is one step; an operation that spans
  several sections is modelled as if it ran alone. \<open>float64\<close> throughput is an exact rational.
\<close>

section \<open>State\<close>

record Config =
  Listen :: string
  DBPath :: string
  JWTSecret :: string
  AdminUser :: string
  AdminPass :: string
  PublicURL :: string
  CookieSecure :: bool
  AllowWeakPass :: bool
  BackupDir :: string
  BackupKeep :: int
  TelegramToken :: string
  TelegramAdms :: "int64 list"

record liveSettings =
  lsPublicURL :: string
  lsCookieSecure :: string
  lsBackupKeep :: int
  lsClashTemplate :: string

record nodeConn =
  ncNode :: int64
  ncSend :: "Msg list"
  ncOut :: "Msg list"
  ncClosed :: bool

record throughput =
  tpUp :: rat
  tpDown :: rat

text \<open>The texts \<open>notifyAdmins\<close> is called with.\<close>

datatype notice =
    NodeBackOnline string
  | NodeOffline string string
  | UserInactive string string
  | TestNotice

record App =
  cfg :: Config
  store :: Store
  conns :: "(int64, nat) gomap"
  objs :: "nodeConn list"
  loginLimiter :: limiter
  activeCache :: "(int64, string) gomap"
  nodeMetrics :: "(int64, NodeMetrics) gomap"
  nodeRate :: "(int64, throughput) gomap"
  rateLast :: "(int64, int64) gomap"
  userActive :: "(int64, bool) gomap"
  offlineNotified :: "(int64, bool) gomap"
  tgToken :: string
  tgAdmins :: "int64 list"
  rootCtx :: bool
  bot :: "string option"
  live :: liveSettings
  outbox :: "(string \<times> int64 \<times> notice) list"
  timers :: "(int64 \<times> int64) list"

text \<open>A composite update of the store, the way handlers call a store method.\<close>

abbreviation with_store :: "(Store \<Rightarrow> Store) \<Rightarrow> App \<Rightarrow> App" where
  "with_store f a \<equiv> a\<lparr>store := f (store a)\<rparr>"

section \<open>Secrets and configuration\<close>

datatype secrets_error =
    BadAdminUser
  | WeakAdminPass
  | SecretMissing
  | SecretWeak

definition validateSecrets :: "externs \<Rightarrow> Config \<Rightarrow> secrets_error option" where
  "validateSecrets X c =
     (if validateUsername (AdminUser c) \<noteq> None then Some BadAdminUser
      else if \<not> AllowWeakPass c \<and> \<not> validatePasswordStrength X (AdminPass c) then Some WeakAdminPass
      else if JWTSecret c = '''' then Some SecretMissing
      else if JWTSecret c = ''replace-with-64-hex-chars'' \<or> length (JWTSecret c) < 16 then Some SecretWeak
      else None)"

definition parseIDList :: "string \<Rightarrow> int64 list" where
  "parseIDList s =
     List.map_filter (\<lambda>p. let q = TrimSpace p in if q = '''' then None else ParseInt q) (Split s '','')"

definition boolWord :: "string \<Rightarrow> bool option" where
  "boolWord v =
     (let w = ToLower (TrimSpace v)
      in if w \<in> set [''1'', ''true'', ''yes'', ''on''] then Some True
         else if w \<in> set [''0'', ''false'', ''no'', ''off''] then Some False
         else None)"

type_synonym environment = "string \<Rightarrow> string"

definition env :: "environment \<Rightarrow> string \<Rightarrow> string \<Rightarrow> string" where
  "env e key def = (if e key \<noteq> '''' then e key else def)"

definition envBool :: "environment \<Rightarrow> string \<Rightarrow> bool \<Rightarrow> bool" where
  "envBool e key def = (case boolWord (e key) of Some b \<Rightarrow> b | None \<Rightarrow> def)"

definition envInt :: "environment \<Rightarrow> string \<Rightarrow> int \<Rightarrow> int" where
  "envInt e key def =
     (let v = TrimSpace (e key) in if v \<noteq> '''' then (case Atoi v of Some n \<Rightarrow> n | None \<Rightarrow> def) else def)"

definition isHTTPS :: "string \<Rightarrow> bool" where
  "isHTTPS url \<longleftrightarrow> HasPrefix (ToLower url) ''https://''"

definition ConfigFromEnv :: "environment \<Rightarrow> Config" where
  "ConfigFromEnv e =
     (let publicURL = env e ''PANEL_PUBLIC_URL'' ''http://localhost:8088''
      in \<lparr>Listen = env e ''PANEL_LISTEN'' '':8088'', DBPath = env e ''PANEL_DB_PATH'' ''/data/panel.db'',
          JWTSecret = env e ''PANEL_JWT_SECRET'' '''', AdminUser = env e ''PANEL_ADMIN_USER'' ''admin'',
          AdminPass = env e ''PANEL_ADMIN_PASS'' ''admin'', PublicURL = publicURL,
          CookieSecure = envBool e ''PANEL_COOKIE_SECURE'' (isHTTPS publicURL),
          AllowWeakPass = envBool e ''PANEL_ALLOW_WEAK_PASS'' False,
          BackupDir = env e ''PANEL_BACKUP_DIR'' ''/data/backups'', BackupKeep = envInt e ''PANEL_BACKUP_KEEP'' 7,
          TelegramToken = env e ''TELEGRAM_BOT_TOKEN'' '''',
          TelegramAdms = parseIDList (env e ''TELEGRAM_ADMIN_IDS'' '''')\<rparr>)"

section \<open>Live settings\<close>

definition loadSettings :: "environment \<Rightarrow> string \<Rightarrow> int \<Rightarrow> Store \<Rightarrow> liveSettings" where
  "loadSettings e seedPublicURL seedBackupKeep s =
     (let l0 = \<lparr>lsPublicURL = seedPublicURL,
                lsCookieSecure = (case boolWord (e ''PANEL_COOKIE_SECURE'') of
                                    Some True \<Rightarrow> ''on'' | Some False \<Rightarrow> ''off'' | None \<Rightarrow> ''auto''),
                lsBackupKeep = seedBackupKeep, lsClashTemplate = ''''\<rparr>;
          l1 = (case GetSetting ''public_url'' s of (v, ok) \<Rightarrow> if ok \<and> v \<noteq> '''' then l0\<lparr>lsPublicURL := v\<rparr> else l0);
          l2 = (case GetSetting ''cookie_secure'' s of (v, ok) \<Rightarrow> if ok \<and> v \<noteq> '''' then l1\<lparr>lsCookieSecure := v\<rparr> else l1);
          l3 = (case GetSetting ''backup_keep'' s of (v, ok) \<Rightarrow>
                  if ok then (case Atoi v of Some n \<Rightarrow> l2\<lparr>lsBackupKeep := n\<rparr> | None \<Rightarrow> l2) else l2)
      in case GetSetting ''clash_template'' s of (v, ok) \<Rightarrow> if ok then l3\<lparr>lsClashTemplate := v\<rparr> else l3)"

definition publicURL :: "App \<Rightarrow> string" where
  "publicURL a = lsPublicURL (live a)"

definition clashTemplate :: "App \<Rightarrow> string" where
  "clashTemplate a = lsClashTemplate (live a)"

definition backupKeep :: "App \<Rightarrow> int" where
  "backupKeep a = lsBackupKeep (live a)"

definition cookieSecure :: "App \<Rightarrow> bool" where
  "cookieSecure a =
     (if lsCookieSecure (live a) = ''on'' then True
      else if lsCookieSecure (live a) = ''off'' then False
      else isHTTPS (lsPublicURL (live a)))"

section \<open>Telegram\<close>

definition currentTelegram :: "App \<Rightarrow> string \<times> int64 list" where
  "currentTelegram a = (tgToken a, tgAdmins a)"

definition setTelegram :: "string \<Rightarrow> int64 list \<Rightarrow> App \<Rightarrow> App" where
  "setTelegram token adms a = a\<lparr>tgToken := token, tgAdmins := adms\<rparr>"

definition restartBot :: "App \<Rightarrow> App" where
  "restartBot a = a\<lparr>bot := (if tgToken a = '''' \<or> \<not> rootCtx a then None else Some (tgToken a))\<rparr>"

definition notifyEnabled :: "App \<Rightarrow> bool" where
  "notifyEnabled a = (case currentTelegram a of (token, adms) \<Rightarrow> token \<noteq> '''' \<and> adms \<noteq> [])"

definition notifyAdmins :: "notice \<Rightarrow> App \<Rightarrow> App" where
  "notifyAdmins text a =
     (case currentTelegram a of (token, adms) \<Rightarrow>
        if token = '''' \<or> adms = [] then a
        else a\<lparr>outbox := outbox a @ map (\<lambda>i. (token, i, text)) adms\<rparr>)"

definition botAuthorized :: "int64 \<Rightarrow> App \<Rightarrow> bool" where
  "botAuthorized chatID a =
     (case currentTelegram a of (_, adms) \<Rightarrow> if adms = [] then False else list_ex (\<lambda>i. i = chatID) adms)"

section \<open>Metrics and throughput\<close>

definition setNodeMetrics :: "int64 \<Rightarrow> NodeMetrics \<Rightarrow> App \<Rightarrow> App" where
  "setNodeMetrics nodeID m a = a\<lparr>nodeMetrics := gomap_set nodeID m (nodeMetrics a)\<rparr>"

definition getNodeMetrics :: "int64 \<Rightarrow> App \<Rightarrow> NodeMetrics option" where
  "getNodeMetrics nodeID a = map_of (nodeMetrics a) nodeID"

definition rateStaleAfter :: int64 where
  "rateStaleAfter = 180"

definition tpTotal :: "throughput \<Rightarrow> rat" where
  "tpTotal t = tpUp t + tpDown t"

definition recordRate :: "int64 \<Rightarrow> int64 \<Rightarrow> int64 \<Rightarrow> int64 \<Rightarrow> App \<Rightarrow> App" where
  "recordRate now nodeID up down a =
     (let prevAt = (case map_of (rateLast a) nodeID of None \<Rightarrow> 0 | Some t \<Rightarrow> t);
          a1 = a\<lparr>rateLast := gomap_set nodeID now (rateLast a)\<rparr>
      in if prevAt = 0 \<or> now \<le> prevAt then a1
         else
           let secs = of_int (now - prevAt);
               inst = \<lparr>tpUp = of_int up / secs, tpDown = of_int down / secs\<rparr>;
               inst' = (case map_of (nodeRate a1) nodeID of
                          None \<Rightarrow> inst
                        | Some prev \<Rightarrow> \<lparr>tpUp = tpUp prev * (1 / 2) + tpUp inst * (1 / 2),
                                         tpDown = tpDown prev * (1 / 2) + tpDown inst * (1 / 2)\<rparr>)
           in a1\<lparr>nodeRate := gomap_set nodeID inst' (nodeRate a1)\<rparr>)"

definition getNodeRate :: "int64 \<Rightarrow> int64 \<Rightarrow> App \<Rightarrow> throughput" where
  "getNodeRate now nodeID a =
     (if now - (case map_of (rateLast a) nodeID of None \<Rightarrow> 0 | Some t \<Rightarrow> t) > rateStaleAfter
      then \<lparr>tpUp = 0, tpDown = 0\<rparr>
      else (case map_of (nodeRate a) nodeID of None \<Rightarrow> \<lparr>tpUp = 0, tpDown = 0\<rparr> | Some t \<Rightarrow> t))"

section \<open>User transitions\<close>

definition inactive_reason :: "int64 \<Rightarrow> User \<Rightarrow> string" where
  "inactive_reason now u =
     (if \<not> uEnabled u then ''disabled by admin''
      else if uExpireAt u > 0 \<and> now \<ge> uExpireAt u then ''expired''
      else if uDataLimit u > 0 \<and> uDataUsed u \<ge> uDataLimit u then ''over quota''
      else ''disabled'')"

definition check_user :: "int64 \<Rightarrow> User \<Rightarrow> App \<Rightarrow> App" where
  "check_user now u a =
     (let act = active u now;
          prev = map_of (userActive a) (uID u);
          a1 = a\<lparr>userActive := gomap_set (uID u) act (userActive a)\<rparr>
      in if prev = Some True \<and> \<not> act then notifyAdmins (UserInactive (uUsername u) (inactive_reason now u)) a1 else a1)"

definition checkUserTransitions :: "int64 \<Rightarrow> App \<Rightarrow> App" where
  "checkUserTransitions now a = fold (check_user now) (ListUsers (store a)) a"

section \<open>Start\<close>

text \<open>
  \<open>Run\<close> up to the point where requests are served, on the store file that is already open:
  encryption, migration, seeding the admin, empty caches, live settings, Telegram. \<open>hash\<close> is the
  bcrypt hash of \<open>PANEL_ADMIN_PASS\<close>; \<open>None\<close> means the panel does not start.
\<close>

definition boot :: "externs \<Rightarrow> (string \<Rightarrow> aead) \<Rightarrow> (int \<Rightarrow> string) \<Rightarrow> (int \<Rightarrow> string) \<Rightarrow> string \<Rightarrow> string \<Rightarrow> environment \<Rightarrow> Config \<Rightarrow> Store \<Rightarrow> App option" where
  "boot X derive nodeNonce adminNonce tgNonce salt e c s0 =
     (if validateSecrets X c \<noteq> None then None
      else
        let s1 = encryptExisting nodeNonce adminNonce tgNonce (s0\<lparr>crypt := newCrypter derive (JWTSecret c)\<rparr>)
        in case hashPassword X salt (AdminPass c) of
             None \<Rightarrow> None
           | Some hash \<Rightarrow>
               (case EnsureAdmin (AdminUser c) hash s1 of
                  Inl _ \<Rightarrow> None
                | Inr s \<Rightarrow>
                    let a = \<lparr>cfg = c, store = s, conns = [], objs = [], loginLimiter = newLimiter 8 300000000000, activeCache = [],
                             nodeMetrics = [], nodeRate = [], rateLast = [], userActive = [], offlineNotified = [],
                             tgToken = '''', tgAdmins = [], rootCtx = True, bot = None,
                             live = loadSettings e (PublicURL c) (BackupKeep c) s, outbox = [], timers = []\<rparr>;
                        tok = (case GetSecretSetting ''telegram_token'' s of (v, found) \<Rightarrow> if found then v else TelegramToken c);
                        adm = (case GetSetting ''telegram_admin_ids'' s of (v, found) \<Rightarrow> if found then parseIDList v else TelegramAdms c)
                    in Some (restartBot (setTelegram tok adm a))))"

end
