(* ===== verification/Hub.thy ===== *)
theory Hub
  imports App
begin

text \<open>
  The websocket hub of the panel (\<open>src/internal/panel/hub.go\<close>), provisioning and traffic enforcement
  (\<open>traffic.go\<close>, \<open>config.go\<close>) and the notices tied to connections (\<open>notify.go\<close>). One definition per Go
  function; the background loops are given by the body of one iteration.
\<close>

section \<open>Connections\<close>

definition sendCap :: nat where
  "sendCap = 8"

definition close_conn :: "nat \<Rightarrow> App \<Rightarrow> App" where
  "close_conn c a = a\<lparr>objs := (objs a)[c := (objs a ! c)\<lparr>ncClosed := True\<rparr>]\<rparr>"

definition register :: "nat \<Rightarrow> App \<Rightarrow> App" where
  "register c a =
     (let nid = ncNode (objs a ! c);
          a1 = (case map_of (conns a) nid of None \<Rightarrow> a | Some old \<Rightarrow> close_conn old a)
      in a1\<lparr>conns := gomap_set nid c (conns a1)\<rparr>)"

definition scheduleOfflineNotice :: "int64 \<Rightarrow> int64 \<Rightarrow> App \<Rightarrow> App" where
  "scheduleOfflineNotice now nodeID a = a\<lparr>timers := timers a @ [(now + 90, nodeID)]\<rparr>"

definition unregister :: "int64 \<Rightarrow> nat \<Rightarrow> App \<Rightarrow> App" where
  "unregister now c a =
     (let nid = ncNode (objs a ! c);
          removed = (map_of (conns a) nid = Some c);
          a1 = (if removed then a\<lparr>conns := gomap_delete nid (conns a)\<rparr> else a);
          a2 = close_conn c a1
      in if removed then scheduleOfflineNotice now nid a2 else a2)"

text \<open>A send on a closed channel panics and is recovered; a full channel drops the message.\<close>

definition trySend :: "nat \<Rightarrow> Msg \<Rightarrow> App \<Rightarrow> bool \<times> App" where
  "trySend c m a =
     (if ncClosed (objs a ! c) then (False, a)
      else if length (ncSend (objs a ! c)) < sendCap
      then (True, a\<lparr>objs := (objs a)[c := (objs a ! c)\<lparr>ncSend := ncSend (objs a ! c) @ [m]\<rparr>]\<rparr>)
      else (False, a))"

text \<open>One turn of \<open>writeLoop\<close>: the oldest queued message goes to the socket. After \<open>close\<close> the channel
  still delivers what is buffered, but the socket is closed, so nothing more is written.\<close>

definition write_one :: "nat \<Rightarrow> App \<Rightarrow> App" where
  "write_one c a =
     (case ncSend (objs a ! c) of
        [] \<Rightarrow> a
      | m # q \<Rightarrow>
          if ncClosed (objs a ! c) then a
          else a\<lparr>objs := (objs a)[c := (objs a ! c)\<lparr>ncSend := q, ncOut := ncOut (objs a ! c) @ [m]\<rparr>]\<rparr>)"

section \<open>Provisioning\<close>

definition active_clients :: "int64 \<Rightarrow> User list \<Rightarrow> Client list" where
  "active_clients now us = map (\<lambda>u. \<lparr>cUUID = uUUID u, cEmail = uUsername u\<rparr>) (filter (\<lambda>u. active u now) us)"

definition node_params :: "Node \<Rightarrow> NodeParams" where
  "node_params n = \<lparr>npRealityDest = nRealityDest n, npRealityServerName = nRealityServerName n,
     npRealityPrivateKey = nRealityPrivateKey n, npRealityShortID = nRealityShortID n, npTLSDomain = nTLSDomain n\<rparr>"

definition buildXrayConfig :: "int64 \<Rightarrow> Node \<Rightarrow> User list \<Rightarrow> json" where
  "buildXrayConfig now node us = Build (node_params node) (active_clients now us)"

definition activeSignature :: "int64 \<Rightarrow> User list \<Rightarrow> string" where
  "activeSignature now us =
     (let lines = map (\<lambda>u. uUsername u @ '':'' @ uUUID u) (filter (\<lambda>u. active u now) us)
      in hex_encode (sha256 (''['' @ Join (sort lines) '' '' @ '']'')))"

definition config_msg :: "Node \<Rightarrow> json \<Rightarrow> Msg" where
  "config_msg node c = (empty_msg TypeConfig)\<lparr>msgConfig := Some c, msgTLSDomain := nTLSDomain node\<rparr>"

definition PushConfig :: "int64 \<Rightarrow> int64 \<Rightarrow> App \<Rightarrow> bool \<times> App" where
  "PushConfig now nodeID a =
     (case map_of (conns a) nodeID of
        None \<Rightarrow> (False, a)
      | Some c \<Rightarrow>
          (case GetNode now nodeID (store a) of
             Inl _ \<Rightarrow> (False, a)
           | Inr node \<Rightarrow>
               trySend c (config_msg node (buildXrayConfig now node (UsersForNode nodeID (store a)))) a))"

definition PushAll :: "int64 \<Rightarrow> App \<Rightarrow> App" where
  "PushAll now a = fold (\<lambda>nid b. snd (PushConfig now nid b)) (map fst (conns a)) a"

definition OnlineNodeIDs :: "App \<Rightarrow> int64 list" where
  "OnlineNodeIDs a = map fst (conns a)"

definition syncNode :: "int64 \<Rightarrow> int64 \<Rightarrow> App \<Rightarrow> App" where
  "syncNode now nodeID a =
     (let sig = activeSignature now (UsersForNode nodeID (store a))
      in if map_of (activeCache a) nodeID = Some sig then a
         else case PushConfig now nodeID a of
                (sent, a1) \<Rightarrow>
                  if \<not> sent then a1 else a1\<lparr>activeCache := gomap_set nodeID sig (activeCache a1)\<rparr>)"

definition forceSyncNode :: "int64 \<Rightarrow> int64 \<Rightarrow> App \<Rightarrow> App" where
  "forceSyncNode now nodeID a =
     (let sig = activeSignature now (UsersForNode nodeID (store a))
      in case PushConfig now nodeID a of
           (sent, a1) \<Rightarrow>
             if \<not> sent then a1\<lparr>activeCache := gomap_delete nodeID (activeCache a1)\<rparr>
             else a1\<lparr>activeCache := gomap_set nodeID sig (activeCache a1)\<rparr>)"

definition syncNodes :: "int64 \<Rightarrow> int64 list \<Rightarrow> App \<Rightarrow> App" where
  "syncNodes now nids a = fold (syncNode now) nids a"

section \<open>Ingestion\<close>

definition allowed_users :: "User list \<Rightarrow> (string, int64) gomap" where
  "allowed_users us = fold (\<lambda>u. gomap_set (uUsername u) (uID u)) us []"

definition ingest_item :: "int64 \<Rightarrow> int64 \<Rightarrow> (string, int64) gomap \<Rightarrow> TrafficItem \<Rightarrow> Store \<times> int64 \<times> int64 \<Rightarrow> Store \<times> int64 \<times> int64" where
  "ingest_item now nodeID allowed it = (\<lambda>(s, up, down).
     if tiUp it = 0 \<and> tiDown it = 0 then (s, up, down)
     else (case map_of allowed (tiEmail it) of
             None \<Rightarrow> (s, up, down)
           | Some uid \<Rightarrow> (AddTraffic now uid nodeID (tiUp it) (tiDown it) s, wrap64 (up + tiUp it), wrap64 (down + tiDown it))))"

definition ingestTraffic :: "int64 \<Rightarrow> int64 \<Rightarrow> int64 \<Rightarrow> TrafficItem list \<Rightarrow> App \<Rightarrow> App" where
  "ingestTraffic now nodeID seq items a =
     (case NodeTrafficSeq nodeID (store a) of
        Inl _ \<Rightarrow> a
      | Inr lastSeq \<Rightarrow>
          if seq \<noteq> 0 \<and> seq = lastSeq then a
          else
            (case fold (ingest_item now nodeID (allowed_users (UsersForNode nodeID (store a)))) items (store a, 0, 0) of
               (s, batchUp, batchDown) \<Rightarrow>
                 let a1 = recordRate now nodeID batchUp batchDown (a\<lparr>store := s\<rparr>);
                     a2 = (if seq \<noteq> 0 then with_store (SetNodeTrafficSeq nodeID seq) a1 else a1)
                 in syncNode now nodeID a2))"

definition ingest_device :: "int64 \<Rightarrow> int64 \<Rightarrow> (string, int64) gomap \<Rightarrow> DeviceItem \<Rightarrow> Store \<Rightarrow> Store" where
  "ingest_device now nodeID allowed it s =
     (case map_of allowed (diEmail it) of
        None \<Rightarrow> s
      | Some uid \<Rightarrow>
          if diIP it = '''' then s
          else
            let seen = (if diLastSeen it = 0 then now else diLastSeen it)
            in UpsertDevice uid nodeID (diIP it) (diInbound it) (diConns it) seen s)"

definition ingestDevices :: "int64 \<Rightarrow> int64 \<Rightarrow> DeviceItem list \<Rightarrow> App \<Rightarrow> App" where
  "ingestDevices now nodeID items a =
     with_store (fold (ingest_device now nodeID (allowed_users (UsersForNode nodeID (store a)))) items) a"

section \<open>A connection's life\<close>

definition noticeOnline :: "int64 \<Rightarrow> string \<Rightarrow> App \<Rightarrow> App" where
  "noticeOnline nodeID name a =
     (let was = (map_of (offlineNotified a) nodeID = Some True);
          a1 = a\<lparr>offlineNotified := gomap_delete nodeID (offlineNotified a)\<rparr>
      in if was then notifyAdmins (NodeBackOnline name) a1 else a1)"

text \<open>\<open>handleWS\<close> from the first frame to the start of \<open>readLoop\<close>; \<open>None\<close> is a refused connection.\<close>

definition handleWS :: "int64 \<Rightarrow> Msg \<Rightarrow> App \<Rightarrow> (nat \<times> App) option" where
  "handleWS now reg a =
     (if msgType reg \<noteq> TypeRegister then None
      else
        (case GetNodeByToken now (msgToken reg) (store a) of
           Inl _ \<Rightarrow> None
         | Inr node \<Rightarrow>
             let c = length (objs a);
                 a1 = register c (a\<lparr>objs := objs a @ [\<lparr>ncNode = nID node, ncSend = [], ncOut = [], ncClosed = False\<rparr>]\<rparr>);
                 a2 = with_store (TouchNode now (nID node)) a1;
                 a3 = with_store (SetNodeAgentVersion (nID node) (msgVersion reg)) a2;
                 a4 = noticeOnline (nID node) (nName node) a3
             in Some (c, forceSyncNode now (nID node) a4)))"

text \<open>\<open>readLoop\<close>, for one frame that was read.\<close>

definition handleMsg :: "int64 \<Rightarrow> nat \<Rightarrow> Msg \<Rightarrow> App \<Rightarrow> App" where
  "handleMsg now c m a =
     (let nid = ncNode (objs a ! c)
      in if msgType m = TypeHeartbeat then
           let a1 = with_store (TouchNode now nid) a
           in (case msgMetrics m of None \<Rightarrow> a1 | Some mt \<Rightarrow> setNodeMetrics nid mt a1)
         else if msgType m = TypeTraffic then
           snd (trySend c ((empty_msg TypeAck)\<lparr>msgSeq := msgSeq m\<rparr>) (ingestTraffic now nid (msgSeq m) (msgItems m) a))
         else if msgType m = TypeDevices then ingestDevices now nid (msgDevices m) a
         else a)"

text \<open>The body of the timer that \<open>scheduleOfflineNotice\<close> sets.\<close>

definition offlineNotice :: "int64 \<Rightarrow> int64 \<Rightarrow> App \<Rightarrow> App" where
  "offlineNotice now nodeID a =
     (if map_of (conns a) nodeID \<noteq> None then a
      else (case GetNode now nodeID (store a) of
              Inl _ \<Rightarrow> a
            | Inr n \<Rightarrow> notifyAdmins (NodeOffline (nName n) (nAddress n))
                         (a\<lparr>offlineNotified := gomap_set nodeID True (offlineNotified a)\<rparr>)))"

section \<open>Background loops\<close>

definition deviceRetention :: int64 where
  "deviceRetention = 30 * 24 * 3600"

definition purge_tick :: "int64 \<Rightarrow> App \<Rightarrow> App" where
  "purge_tick now a = with_store (\<lambda>s. snd (PurgeDevices (now - deviceRetention) s)) a"

definition enforcement_tick :: "int64 \<Rightarrow> App \<Rightarrow> App" where
  "enforcement_tick now a = checkUserTransitions now (syncNodes now (OnlineNodeIDs a) a)"

definition monthlyResetDue :: "int64 \<Rightarrow> int64 \<Rightarrow> int64 \<Rightarrow> int64 option" where
  "monthlyResetDue now resetDay lastReset =
     (if resetDay < 1 then None
      else
        (case civil (unix_day now) of
           (y, m, _) \<Rightarrow>
             let daysInMonth = (case civil (date_days y (m + 1) 1 - 1) of (_, _, d) \<Rightarrow> d);
                 day = (if resetDay > daysInMonth then daysInMonth else resetDay);
                 resetInstant = 86400 * date_days y m day
             in if now < resetInstant \<or> lastReset \<ge> resetInstant then None else Some resetInstant))"

definition reset_user :: "int64 \<Rightarrow> User \<Rightarrow> App \<Rightarrow> App" where
  "reset_user now u a =
     (if monthlyResetDue now (uResetDay u) (uLastReset u) = None then a
      else syncNodes now (uNodeIDs u)
             (with_store (SetUserLastReset (uID u) now) (with_store (ResetUserTraffic (uID u)) a)))"

definition autoReset_tick :: "int64 \<Rightarrow> App \<Rightarrow> App" where
  "autoReset_tick now a = fold (reset_user now) (ListUsers (store a)) a"

section \<open>Frames\<close>

lemma store_trySend [simp]: "store (snd (trySend c m a)) = store a"
  by (simp add: trySend_def)

lemma store_PushConfig [simp]: "store (snd (PushConfig now n a)) = store a"
  by (auto simp: PushConfig_def split: option.splits sum.splits)

lemma store_syncNode [simp]: "store (syncNode now n a) = store a"
  using store_PushConfig [of now n a] by (cases "PushConfig now n a") (auto simp: syncNode_def Let_def)

lemma store_recordRate [simp]: "store (recordRate now n up down a) = store a"
  by (simp add: recordRate_def Let_def split: option.splits)

end
