(* ===== verification/Store_Inv.thy ===== *)
theory Store_Inv
  imports Store
begin

text \<open>
  The invariant of the store and its preservation by every operation that writes. \<open>store_ok\<close> says
  what the schema's primary keys, \<open>UNIQUE\<close> constraints and \<open>AUTOINCREMENT\<close> counters promise;
  \<open>store_step\<close> is one write of the panel, \<open>store_reach\<close> the stores a panel can have on disk.
\<close>

section \<open>Tables written by upsert\<close>

interpretation set_tab: upsert_table fst "\<lambda>(k, v). (k, v)" "\<lambda>(k, v) r. (fst r, v)"
  by unfold_locales auto

interpretation nt_up: counter_table "\<lambda>r. (ntUser r, ntNode r)"
    "\<lambda>(now, u, n, up, down). \<lparr>ntUser = u, ntNode = n, ntUp = up, ntDown = down, ntUpdatedAt = now\<rparr>"
    "\<lambda>(now, u, n, up, down) r. r\<lparr>ntUp := ntUp r + up, ntDown := ntDown r + down, ntUpdatedAt := now\<rparr>" ntUp
  by unfold_locales auto

interpretation nt_down: counter_table "\<lambda>r. (ntUser r, ntNode r)"
    "\<lambda>(now, u, n, up, down). \<lparr>ntUser = u, ntNode = n, ntUp = up, ntDown = down, ntUpdatedAt = now\<rparr>"
    "\<lambda>(now, u, n, up, down) r. r\<lparr>ntUp := ntUp r + up, ntDown := ntDown r + down, ntUpdatedAt := now\<rparr>" ntDown
  by unfold_locales auto

interpretation td_up: counter_table "\<lambda>r. (tdUser r, tdDay r)"
    "\<lambda>(day, u, up, down). \<lparr>tdUser = u, tdDay = day, tdUp = up, tdDown = down\<rparr>"
    "\<lambda>(day, u, up, down) r. r\<lparr>tdUp := tdUp r + up, tdDown := tdDown r + down\<rparr>" tdUp
  by unfold_locales auto

interpretation td_down: counter_table "\<lambda>r. (tdUser r, tdDay r)"
    "\<lambda>(day, u, up, down). \<lparr>tdUser = u, tdDay = day, tdUp = up, tdDown = down\<rparr>"
    "\<lambda>(day, u, up, down) r. r\<lparr>tdUp := tdUp r + up, tdDown := tdDown r + down\<rparr>" tdDown
  by unfold_locales auto

interpretation nd_up: counter_table "\<lambda>r. (ndNode r, ndDay r)"
    "\<lambda>(day, n, up, down). \<lparr>ndNode = n, ndDay = day, ndUp = up, ndDown = down\<rparr>"
    "\<lambda>(day, n, up, down) r. r\<lparr>ndUp := ndUp r + up, ndDown := ndDown r + down\<rparr>" ndUp
  by unfold_locales auto

interpretation nd_down: counter_table "\<lambda>r. (ndNode r, ndDay r)"
    "\<lambda>(day, n, up, down). \<lparr>ndNode = n, ndDay = day, ndUp = up, ndDown = down\<rparr>"
    "\<lambda>(day, n, up, down) r. r\<lparr>ndUp := ndUp r + up, ndDown := ndDown r + down\<rparr>" ndDown
  by unfold_locales auto

interpretation dev_conns: counter_table "\<lambda>d. (dvUser d, dvNode d, dvIP d)"
    "\<lambda>(u, n, ip, inb, c, seen). \<lparr>dvUser = u, dvNode = n, dvIP = ip, dvInbound = inb, dvConns = c,
        dvFirstSeen = seen, dvLastSeen = seen\<rparr>"
    "\<lambda>(u, n, ip, inb, c, seen) d. d\<lparr>dvConns := dvConns d + c, dvInbound := inb, dvLastSeen := seen\<rparr>" dvConns
  by unfold_locales auto

lemma put_node_traffic_eq:
  "put_node_traffic now u n up down t = nt_up.put (now, u, n, up, down) t"
  by (simp add: put_node_traffic_def)

lemma put_traffic_daily_eq:
  "put_traffic_daily day u up down t = td_up.put (day, u, up, down) t"
  by (simp add: put_traffic_daily_def)

lemma put_node_traffic_daily_eq:
  "put_node_traffic_daily day n up down t = nd_up.put (day, n, up, down) t"
  by (simp add: put_node_traffic_daily_def)

text \<open>The totals a write changes, for any selection of keys.\<close>

lemma sum_put_node_traffic:
  "sum_for (\<lambda>r. Q (ntUser r) (ntNode r)) ntUp (put_node_traffic now u n up down t) =
     sum_for (\<lambda>r. Q (ntUser r) (ntNode r)) ntUp t + (if Q u n then up else 0)"
  "sum_for (\<lambda>r. Q (ntUser r) (ntNode r)) ntDown (put_node_traffic now u n up down t) =
     sum_for (\<lambda>r. Q (ntUser r) (ntNode r)) ntDown t + (if Q u n then down else 0)"
  using nt_up.sum_put [of "\<lambda>(u, n). Q u n" "(now, u, n, up, down)" t]
    nt_down.sum_put [of "\<lambda>(u, n). Q u n" "(now, u, n, up, down)" t]
  by (simp_all add: put_node_traffic_def)

lemma sum_put_traffic_daily:
  "sum_for (\<lambda>r. Q (tdUser r) (tdDay r)) tdUp (put_traffic_daily day u up down t) =
     sum_for (\<lambda>r. Q (tdUser r) (tdDay r)) tdUp t + (if Q u day then up else 0)"
  "sum_for (\<lambda>r. Q (tdUser r) (tdDay r)) tdDown (put_traffic_daily day u up down t) =
     sum_for (\<lambda>r. Q (tdUser r) (tdDay r)) tdDown t + (if Q u day then down else 0)"
  using td_up.sum_put [of "\<lambda>(u, n). Q u n" "(day, u, up, down)" t]
    td_down.sum_put [of "\<lambda>(u, n). Q u n" "(day, u, up, down)" t]
  by (simp_all add: put_traffic_daily_def)

lemma sum_put_node_traffic_daily:
  "sum_for (\<lambda>r. Q (ndNode r) (ndDay r)) ndUp (put_node_traffic_daily day n up down t) =
     sum_for (\<lambda>r. Q (ndNode r) (ndDay r)) ndUp t + (if Q n day then up else 0)"
  "sum_for (\<lambda>r. Q (ndNode r) (ndDay r)) ndDown (put_node_traffic_daily day n up down t) =
     sum_for (\<lambda>r. Q (ndNode r) (ndDay r)) ndDown t + (if Q n day then down else 0)"
  using nd_up.sum_put [of "\<lambda>(u, n). Q u n" "(day, n, up, down)" t]
    nd_down.sum_put [of "\<lambda>(u, n). Q u n" "(day, n, up, down)" t]
  by (simp_all add: put_node_traffic_daily_def)

lemmas sum_puts = sum_put_node_traffic sum_put_traffic_daily sum_put_node_traffic_daily

section \<open>The invariant\<close>

definition admins_ok :: "Store \<Rightarrow> bool" where
  "admins_ok s \<longleftrightarrow> distinct (map arUsername (admins s)) \<and> distinct (map arID (admins s)) \<and>
     (\<forall>r \<in> set (admins s). 1 \<le> arID r \<and> arID r \<le> seqAdmins s) \<and> 0 \<le> seqAdmins s"

definition nodes_ok :: "Store \<Rightarrow> bool" where
  "nodes_ok s \<longleftrightarrow> distinct (map nrID (nodes s)) \<and> distinct (map nrToken (nodes s)) \<and>
     (\<forall>r \<in> set (nodes s). 1 \<le> nrID r \<and> nrID r \<le> seqNodes s) \<and> 0 \<le> seqNodes s"

definition users_ok :: "Store \<Rightarrow> bool" where
  "users_ok s \<longleftrightarrow> distinct (map urID (users s)) \<and> distinct (map urUsername (users s)) \<and>
     distinct (map urSubToken (users s)) \<and>
     (\<forall>r \<in> set (users s). 1 \<le> urID r \<and> urID r \<le> seqUsers s) \<and> 0 \<le> seqUsers s"

definition keys_ok :: "Store \<Rightarrow> bool" where
  "keys_ok s \<longleftrightarrow> distinct (user_nodes s) \<and> distinct (map (\<lambda>r. (ntUser r, ntNode r)) (node_traffic s)) \<and>
     distinct (map (\<lambda>r. (tdUser r, tdDay r)) (traffic_daily s)) \<and>
     distinct (map (\<lambda>r. (ndNode r, ndDay r)) (node_traffic_daily s)) \<and>
     distinct (map fst (settings s)) \<and>
     distinct (map (\<lambda>d. (dvUser d, dvNode d, dvIP d)) (user_devices s)) \<and>
     distinct (map auID (audit_log s)) \<and> (\<forall>r \<in> set (audit_log s). auID r \<le> seqAudit s)"

definition store_ok :: "Store \<Rightarrow> bool" where
  "store_ok s \<longleftrightarrow> admins_ok s \<and> nodes_ok s \<and> users_ok s \<and> keys_ok s"

lemmas store_ok_defs = store_ok_def admins_ok_def nodes_ok_def users_ok_def keys_ok_def

lemma store_ok_open: "store_ok (OpenStore\<lparr>crypt := c\<rparr>)"
  by (simp add: store_ok_defs OpenStore_def)

section \<open>Preservation\<close>

lemma ball_sql_update: "(\<forall>r \<in> set (sql_update p f t). P r) \<longleftrightarrow> (\<forall>r \<in> set t. P (if p r then f r else r))"
  by (auto simp: set_sql_update)

lemma admins_ok_insert: "admins_ok s \<Longrightarrow> insert_admin u h s = Inr s' \<Longrightarrow> admins_ok s'"
  by (fastforce simp: admins_ok_def insert_admin_def split: if_splits)

lemma admins_ok_update:
  "admins_ok s \<Longrightarrow> (\<And>r. arUsername (f r) = arUsername r \<and> arID (f r) = arID r) \<Longrightarrow>
   admins_ok (s\<lparr>admins := sql_update p f (admins s)\<rparr>)"
  by (auto simp: admins_ok_def ball_sql_update)

lemma nodes_ok_update:
  "nodes_ok s \<Longrightarrow> (\<And>r. nrToken (f r) = nrToken r \<and> nrID (f r) = nrID r) \<Longrightarrow>
   nodes_ok (s\<lparr>nodes := sql_update p f (nodes s)\<rparr>)"
  by (auto simp: nodes_ok_def ball_sql_update)

lemma users_ok_update:
  "users_ok s \<Longrightarrow> (\<And>r. urUsername (f r) = urUsername r \<and> urSubToken (f r) = urSubToken r \<and> urID (f r) = urID r) \<Longrightarrow>
   users_ok (s\<lparr>users := sql_update p f (users s)\<rparr>)"
  by (auto simp: users_ok_def ball_sql_update)

lemma users_ok_upd_user:
  "users_ok s \<Longrightarrow> (\<And>r. urUsername (f r) = urUsername r \<and> urSubToken (f r) = urSubToken r \<and> urID (f r) = urID r) \<Longrightarrow>
   users_ok (upd_user uid f s)"
  unfolding upd_user_def by (rule users_ok_update)

text \<open>Fields a statement does not write keep the part of the invariant that only reads them.\<close>

lemma ok_frames [simp]:
  "admins_ok (s\<lparr>nodes := a\<rparr>) = admins_ok s" "admins_ok (s\<lparr>users := b\<rparr>) = admins_ok s"
  "admins_ok (s\<lparr>user_nodes := un\<rparr>) = admins_ok s" "admins_ok (s\<lparr>node_traffic := c\<rparr>) = admins_ok s"
  "admins_ok (s\<lparr>traffic_daily := d\<rparr>) = admins_ok s" "admins_ok (s\<lparr>node_traffic_daily := e\<rparr>) = admins_ok s"
  "admins_ok (s\<lparr>audit_log := al\<rparr>) = admins_ok s" "admins_ok (s\<lparr>settings := st\<rparr>) = admins_ok s"
  "admins_ok (s\<lparr>user_devices := dv\<rparr>) = admins_ok s" "admins_ok (s\<lparr>seqNodes := i\<rparr>) = admins_ok s"
  "admins_ok (s\<lparr>seqUsers := i\<rparr>) = admins_ok s" "admins_ok (s\<lparr>seqAudit := i\<rparr>) = admins_ok s"
  "nodes_ok (s\<lparr>admins := ad\<rparr>) = nodes_ok s" "nodes_ok (s\<lparr>users := b\<rparr>) = nodes_ok s"
  "nodes_ok (s\<lparr>user_nodes := un\<rparr>) = nodes_ok s" "nodes_ok (s\<lparr>node_traffic := c\<rparr>) = nodes_ok s"
  "nodes_ok (s\<lparr>traffic_daily := d\<rparr>) = nodes_ok s" "nodes_ok (s\<lparr>node_traffic_daily := e\<rparr>) = nodes_ok s"
  "nodes_ok (s\<lparr>audit_log := al\<rparr>) = nodes_ok s" "nodes_ok (s\<lparr>settings := st\<rparr>) = nodes_ok s"
  "nodes_ok (s\<lparr>user_devices := dv\<rparr>) = nodes_ok s" "nodes_ok (s\<lparr>seqAdmins := i\<rparr>) = nodes_ok s"
  "nodes_ok (s\<lparr>seqUsers := i\<rparr>) = nodes_ok s" "nodes_ok (s\<lparr>seqAudit := i\<rparr>) = nodes_ok s"
  "users_ok (s\<lparr>admins := ad\<rparr>) = users_ok s" "users_ok (s\<lparr>nodes := a\<rparr>) = users_ok s"
  "users_ok (s\<lparr>user_nodes := un\<rparr>) = users_ok s" "users_ok (s\<lparr>node_traffic := c\<rparr>) = users_ok s"
  "users_ok (s\<lparr>traffic_daily := d\<rparr>) = users_ok s" "users_ok (s\<lparr>node_traffic_daily := e\<rparr>) = users_ok s"
  "users_ok (s\<lparr>audit_log := al\<rparr>) = users_ok s" "users_ok (s\<lparr>settings := st\<rparr>) = users_ok s"
  "users_ok (s\<lparr>user_devices := dv\<rparr>) = users_ok s" "users_ok (s\<lparr>seqAdmins := i\<rparr>) = users_ok s"
  "users_ok (s\<lparr>seqNodes := i\<rparr>) = users_ok s" "users_ok (s\<lparr>seqAudit := i\<rparr>) = users_ok s"
  "keys_ok (s\<lparr>admins := ad\<rparr>) = keys_ok s" "keys_ok (s\<lparr>nodes := a\<rparr>) = keys_ok s"
  "keys_ok (s\<lparr>users := b\<rparr>) = keys_ok s" "keys_ok (s\<lparr>seqAdmins := i\<rparr>) = keys_ok s"
  "keys_ok (s\<lparr>seqNodes := i\<rparr>) = keys_ok s" "keys_ok (s\<lparr>seqUsers := i\<rparr>) = keys_ok s"
  by (simp_all add: store_ok_defs)

lemma store_ok_admin_row:
  "store_ok s \<Longrightarrow> (\<And>r. arUsername (f r) = arUsername r \<and> arID (f r) = arID r) \<Longrightarrow>
   store_ok (s\<lparr>admins := sql_update p f (admins s)\<rparr>)"
  by (simp add: store_ok_def admins_ok_update)

lemma store_ok_node_row:
  "store_ok s \<Longrightarrow> (\<And>r. nrToken (f r) = nrToken r \<and> nrID (f r) = nrID r) \<Longrightarrow>
   store_ok (s\<lparr>nodes := sql_update p f (nodes s)\<rparr>)"
  by (simp add: store_ok_def nodes_ok_update)

lemma store_ok_user_row:
  "store_ok s \<Longrightarrow> (\<And>r. urUsername (f r) = urUsername r \<and> urSubToken (f r) = urSubToken r \<and> urID (f r) = urID r) \<Longrightarrow>
   store_ok (upd_user uid f s)"
  by (simp add: store_ok_def users_ok_upd_user upd_user_def users_ok_update)

lemma store_ok_SetNodeTrafficSeq: "store_ok s \<Longrightarrow> store_ok (SetNodeTrafficSeq n q s)"
  unfolding SetNodeTrafficSeq_def by (rule store_ok_node_row) auto

lemma store_ok_SetSetting: "store_ok s \<Longrightarrow> store_ok (SetSetting k v s)"
  using set_tab.distinct_put [of "settings s" "(k, v)"]
  by (auto simp: SetSetting_def store_ok_def keys_ok_def)

lemma store_ok_insert_admin: "store_ok s \<Longrightarrow> insert_admin u h s = Inr s' \<Longrightarrow> store_ok s'"
  using admins_ok_insert [of s u h s'] by (auto simp: store_ok_def insert_admin_def split: if_splits)

lemma store_ok_EnsureAdmin: "store_ok s \<Longrightarrow> EnsureAdmin u h s = Inr s' \<Longrightarrow> store_ok s'"
  by (auto simp: EnsureAdmin_def intro: store_ok_insert_admin split: sum.splits store_error.splits)

lemma store_ok_DeleteAdmin: "store_ok s \<Longrightarrow> store_ok (DeleteAdmin u s)"
  by (auto simp: DeleteAdmin_def store_ok_def admins_ok_def)

lemma store_ok_UpsertDevice: "store_ok s \<Longrightarrow> store_ok (UpsertDevice u n ip inb c seen s)"
  using dev_conns.distinct_put [of "user_devices s" "(u, n, ip, inb, c, seen)"]
  by (auto simp: UpsertDevice_def store_ok_def keys_ok_def)

lemma store_ok_PurgeDevices: "store_ok s \<Longrightarrow> store_ok (snd (PurgeDevices c s))"
  by (auto simp: PurgeDevices_def store_ok_def keys_ok_def)

lemma store_ok_AddAudit: "store_ok s \<Longrightarrow> store_ok (AddAudit now ac an de s)"
  by (fastforce simp: AddAudit_def store_ok_def keys_ok_def)

lemma store_ok_CreateNode: "store_ok s \<Longrightarrow> CreateNode now nonce n s = Inr (i, s') \<Longrightarrow> store_ok s'"
  by (fastforce simp: CreateNode_def store_ok_def nodes_ok_def split: if_splits)

lemma store_ok_DeleteNode: "store_ok s \<Longrightarrow> store_ok (DeleteNode n s)"
  by (auto simp: DeleteNode_def store_ok_def nodes_ok_def keys_ok_def)

lemma store_ok_CreateUser: "store_ok s \<Longrightarrow> CreateUser now u s = Inr (i, s') \<Longrightarrow> store_ok s'"
  by (fastforce simp: CreateUser_def store_ok_def users_ok_def split: if_splits)

lemma store_ok_SetUserSubToken: "store_ok s \<Longrightarrow> SetUserSubToken u t s = Inr s' \<Longrightarrow> store_ok s'"
proof -
  assume ok: "store_ok s" and set: "SetUserSubToken u t s = Inr s'"
  let ?f = "\<lambda>r::user_row. r\<lparr>urSubToken := t\<rparr>"
  have s': "s' = upd_user u ?f s"
    and fresh: "(\<exists>r \<in> set (users s). urID r = u) \<longrightarrow> (\<forall>r \<in> set (users s). urID r \<noteq> u \<longrightarrow> urSubToken r \<noteq> t)"
    using set by (auto simp: SetUserSubToken_def split: if_splits)
  have "distinct (map urSubToken (sql_update (\<lambda>r. urID r = u) ?f us))"
    if "distinct (map urSubToken us)" "distinct (map urID us)" "set us \<subseteq> set (users s)" for us
    using that
  proof (induction us)
    case (Cons r us)
    show ?case
    proof (cases "urID r = u")
      case True
      then have "sql_update (\<lambda>r. urID r = u) ?f us = us"
        using Cons.prems(2) by (intro sql_update_none) (auto simp: image_iff)
      moreover have "t \<notin> urSubToken ` set us"
        using True Cons.prems fresh by (fastforce simp: image_iff)
      ultimately show ?thesis using True Cons.prems by simp
    next
      case False
      with Cons fresh show ?thesis by (auto simp: set_sql_update)
    qed
  qed simp
  from this [of "users s"] ok show ?thesis
    by (auto simp: s' upd_user_def store_ok_def users_ok_def ball_sql_update)
qed

lemma store_ok_DeleteUser: "store_ok s \<Longrightarrow> store_ok (DeleteUser u s)"
  by (auto simp: DeleteUser_def store_ok_def users_ok_def keys_ok_def)

lemma distinct_insert_or_ignore: "distinct t \<Longrightarrow> distinct (fold (\<lambda>x. insert_or_ignore (f x)) xs t)"
  by (induction xs arbitrary: t) (auto simp: insert_or_ignore_def)

lemma store_ok_SetUserNodes: "store_ok s \<Longrightarrow> store_ok (SetUserNodes u ns s)"
  by (auto simp: SetUserNodes_def store_ok_def keys_ok_def intro: distinct_insert_or_ignore)

lemma store_ok_AddTraffic: "store_ok s \<Longrightarrow> store_ok (AddTraffic now u n up down s)"
  using nt_up.distinct_put [of "node_traffic s" "(now, u, n, up, down)"]
    td_up.distinct_put [of "traffic_daily s" "(format_day (unix_day now), u, up, down)"]
    nd_up.distinct_put [of "node_traffic_daily s" "(format_day (unix_day now), n, up, down)"]
  by (auto simp: AddTraffic_def Let_def store_ok_def keys_ok_def put_node_traffic_def
      put_traffic_daily_def put_node_traffic_daily_def intro!: users_ok_update)

lemma store_ok_ResetUserTraffic: "store_ok s \<Longrightarrow> store_ok (ResetUserTraffic u s)"
  by (auto simp: ResetUserTraffic_def store_ok_def keys_ok_def intro!: users_ok_update)

lemma store_ok_encryptExisting: "store_ok s \<Longrightarrow> store_ok (encryptExisting f g t s)"
  by (auto simp: encryptExisting_def store_ok_defs comp_def split: option.splits)

section \<open>Every store the panel can write\<close>

inductive store_step :: "Store \<Rightarrow> Store \<Rightarrow> bool" where
  set_seq: "store_step s (SetNodeTrafficSeq n q s)"
| set_setting: "store_step s (SetSetting k v s)"
| set_secret: "store_step s (SetSecretSetting nonce k v s)"
| encrypt_existing: "store_step s (encryptExisting f g t s)"
| ensure_admin: "EnsureAdmin a h s = Inr s' \<Longrightarrow> store_step s s'"
| create_admin: "CreateAdmin a h s = Inr s' \<Longrightarrow> store_step s s'"
| bump_admin: "store_step s (BumpAdminSessionEpoch a s)"
| set_totp: "store_step s (SetAdminTOTP nonce a sec en s)"
| delete_admin: "store_step s (DeleteAdmin a s)"
| set_admin_pw: "store_step s (SetAdminPassword a h s)"
| upsert_device: "store_step s (UpsertDevice u n ip inb c seen s)"
| purge_devices: "store_step s (snd (PurgeDevices cutoff s))"
| add_audit: "store_step s (AddAudit now actor action detail s)"
| create_node: "CreateNode now nonce nd s = Inr (i, s') \<Longrightarrow> store_step s s'"
| update_node: "store_step s (UpdateNode nonce nd s)"
| delete_node: "store_step s (DeleteNode n s)"
| set_version: "store_step s (SetNodeAgentVersion n ver s)"
| touch_node: "store_step s (TouchNode now n s)"
| create_user: "CreateUser now usr s = Inr (i, s') \<Longrightarrow> store_step s s'"
| bump_user: "store_step s (BumpUserSessionEpoch u s)"
| update_user: "store_step s (UpdateUser usr s)"
| set_sub: "SetUserSubToken u tok s = Inr s' \<Longrightarrow> store_step s s'"
| set_uuid: "store_step s (SetUserUUID u uuid s)"
| set_last_reset: "store_step s (SetUserLastReset u ts s)"
| set_portal_pw: "store_step s (SetUserPortalPassword u h mc s)"
| change_portal_pw: "store_step s (ChangeUserPortalPassword u h s)"
| delete_user: "store_step s (DeleteUser u s)"
| set_user_nodes: "store_step s (SetUserNodes u ns s)"
| add_traffic: "store_step s (AddTraffic now u n up down s)"
| reset_traffic: "store_step s (ResetUserTraffic u s)"

lemmas store_ok_ops =
  store_ok_SetNodeTrafficSeq store_ok_SetSetting store_ok_insert_admin store_ok_EnsureAdmin
  store_ok_DeleteAdmin store_ok_UpsertDevice store_ok_PurgeDevices store_ok_AddAudit store_ok_CreateNode
  store_ok_DeleteNode store_ok_CreateUser store_ok_SetUserSubToken store_ok_DeleteUser
  store_ok_SetUserNodes store_ok_AddTraffic store_ok_ResetUserTraffic store_ok_encryptExisting

lemmas user_row_ops =
  BumpUserSessionEpoch_def UpdateUser_def SetUserUUID_def SetUserLastReset_def
  SetUserPortalPassword_def ChangeUserPortalPassword_def

lemmas admin_row_ops = BumpAdminSessionEpoch_def SetAdminTOTP_def SetAdminPassword_def

lemmas node_row_ops = UpdateNode_def SetNodeAgentVersion_def TouchNode_def

lemma store_step_ok: "store_step s s' \<Longrightarrow> store_ok s \<Longrightarrow> store_ok s'"
  by (induction rule: store_step.induct)
    (auto simp: SetSecretSetting_def CreateAdmin_def user_row_ops admin_row_ops node_row_ops
      intro: store_ok_ops store_ok_user_row store_ok_admin_row store_ok_node_row)

inductive store_reach :: "Store \<Rightarrow> bool" where
  fresh: "store_reach (OpenStore\<lparr>crypt := c\<rparr>)"
| stored: "store_reach s \<Longrightarrow> store_step s s' \<Longrightarrow> store_reach s'"

lemma store_reach_ok: "store_reach s \<Longrightarrow> store_ok s"
  by (induction rule: store_reach.induct) (auto intro: store_ok_open store_step_ok)

section \<open>An example store\<close>

text \<open>A node and a user assigned to it, for concrete runs.\<close>

definition demo_node :: node_row where
  "demo_node = \<lparr>nrID = 1, nrName = ''n1'', nrToken = ''tok'', nrAddress = '''', nrRemark = '''', nrLastSeen = 0, nrCreatedAt = 0,
     nrRealityDest = '''', nrRealityServerName = '''', nrRealityPrivateKey = '''', nrRealityPublicKey = '''', nrRealityShortID = '''',
     nrTLSDomain = ''a.example'', nrTrafficSeq = 0, nrAgentVersion = ''''\<rparr>"

definition demo_user :: user_row where
  "demo_user = \<lparr>urID = 1, urUsername = ''al'', urUUID = ''123e4567-e89b-42d3-a456-426614174000'', urSubToken = ''s1'', urDataLimit = 100, urDataUsed = 0,
     urExpireAt = 0, urEnabled = 1, urCreatedAt = 0, urPortalPasswordHash = '''', urResetDay = 15, urLastReset = 0,
     urSessionEpoch = 0, urMustChangePW = 0, urNote = ''''\<rparr>"

definition demo_store :: Store where
  "demo_store = OpenStore\<lparr>nodes := [demo_node], users := [demo_user], user_nodes := [(1, 1)], seqNodes := 1, seqUsers := 1\<rparr>"

lemmas demo_defs = demo_store_def demo_node_def demo_user_def OpenStore_def

lemma demo_store_ok: "store_ok demo_store"
  by (simp add: store_ok_defs demo_defs)

end
