(* ===== verification/Reports.thy ===== *)
theory Reports
  imports Store_Inv
begin

text \<open>
  The reporting queries of \<open>src/internal/panel/store.go\<close>. A grouped query gives one entry per group; where
  SQL leaves the order of rows open (groups, ties of an \<open>ORDER BY\<close>) the model takes the order of the
  group keys or of the rows. Days are compared as the strings the columns hold, the way SQLite does.
\<close>

section \<open>Go's truncated division\<close>

definition quot :: "int \<Rightarrow> int \<Rightarrow> int" where
  "quot a b = wrap64 (sgn a * sgn b * (\<bar>a\<bar> div \<bar>b\<bar>))"

section \<open>Result rows\<close>

record Device =
  dIP :: string
  dInbound :: string
  dConns :: int64
  dNodeID :: int64
  dFirstSeen :: int64
  dLastSeen :: int64

record DailyTraffic =
  dtDay :: string
  dtUp :: int64
  dtDown :: int64

record TrafficSplit =
  tsUp :: int64
  tsDown :: int64

record NodeUsage =
  nuNodeID :: int64
  nuUp :: int64
  nuDown :: int64
  nuUsers :: int64

record PeriodStats =
  psToday :: TrafficSplit
  psMonth :: TrafficSplit

section \<open>Queries\<close>

text \<open>\<open>SELECT k, agg(..) GROUP BY k\<close>.\<close>

definition group_by :: "('r \<Rightarrow> 'k::linorder) \<Rightarrow> ('r list \<Rightarrow> 'v) \<Rightarrow> 'r list \<Rightarrow> ('k, 'v) gomap" where
  "group_by key agg rows =
     map (\<lambda>k. (k, agg (filter (\<lambda>r. key r = k) rows))) (sort (remdups (map key rows)))"

definition count_distinct :: "('r \<Rightarrow> 'a) \<Rightarrow> 'r list \<Rightarrow> int" where
  "count_distinct f rows = int (length (remdups (map f rows)))"

definition sum_of :: "('r \<Rightarrow> int) \<Rightarrow> 'r list \<Rightarrow> int" where
  "sum_of f rows = sum_list (map f rows)"

definition ListUserDevices :: "int64 \<Rightarrow> Store \<Rightarrow> Device list" where
  "ListUserDevices userID s =
     map (\<lambda>d. \<lparr>dIP = dvIP d, dInbound = dvInbound d, dConns = dvConns d, dNodeID = dvNode d,
               dFirstSeen = dvFirstSeen d, dLastSeen = dvLastSeen d\<rparr>)
       (sort_key (\<lambda>d. - dvLastSeen d) (filter (\<lambda>d. dvUser d = userID) (user_devices s)))"

definition DeviceCounts :: "int64 \<Rightarrow> Store \<Rightarrow> (int64, int) gomap" where
  "DeviceCounts since s =
     group_by dvUser (count_distinct dvIP) (filter (\<lambda>d. dvLastSeen d \<ge> since) (user_devices s))"

definition NodeClientCounts :: "int64 \<Rightarrow> Store \<Rightarrow> (int64, int64) gomap" where
  "NodeClientCounts since s =
     group_by dvNode (count_distinct dvIP) (filter (\<lambda>d. dvLastSeen d \<ge> since) (user_devices s))"

section \<open>Daily series\<close>

text \<open>\<open>time.Now().UTC().AddDate(0, 0, -i).Format("2006-01-02")\<close>.\<close>

definition day_back :: "int64 \<Rightarrow> int \<Rightarrow> string" where
  "day_back now i = format_day (unix_day now - i)"

definition fillDaily :: "int64 \<Rightarrow> (string, DailyTraffic) gomap \<Rightarrow> int \<Rightarrow> DailyTraffic list" where
  "fillDaily now byDay days =
     map (\<lambda>i. let day = day_back now (int i)
              in case map_of byDay day of
                   Some d \<Rightarrow> d
                 | None \<Rightarrow> \<lparr>dtDay = day, dtUp = 0, dtDown = 0\<rparr>) (rev [0..<nat days])"

text \<open>\<open>byDay[d.Day] = d\<close> over the rows of a result.\<close>

definition by_day :: "DailyTraffic list \<Rightarrow> (string, DailyTraffic) gomap" where
  "by_day rows = fold (\<lambda>d. gomap_set (dtDay d) d) rows []"

definition TrafficHistory :: "int64 \<Rightarrow> int64 \<Rightarrow> int \<Rightarrow> Store \<Rightarrow> DailyTraffic list" where
  "TrafficHistory now userID days0 s =
     (let days = (if days0 < 1 then 30 else days0);
          since = day_back now (days - 1);
          rows = sort_key tdDay (filter (\<lambda>r. tdUser r = userID \<and> tdDay r \<ge> since) (traffic_daily s))
      in fillDaily now (by_day (map (\<lambda>r. \<lparr>dtDay = tdDay r, dtUp = tdUp r, dtDown = tdDown r\<rparr>) rows)) days)"

definition FleetDaily :: "int64 \<Rightarrow> int \<Rightarrow> Store \<Rightarrow> DailyTraffic list" where
  "FleetDaily now days0 s =
     (let days = (if days0 < 1 then 30 else days0);
          since = day_back now (days - 1);
          rows = group_by tdDay (\<lambda>g. (sum_of tdUp g, sum_of tdDown g)) (filter (\<lambda>r. tdDay r \<ge> since) (traffic_daily s))
      in fillDaily now (by_day (map (\<lambda>(day, up, down). \<lparr>dtDay = day, dtUp = up, dtDown = down\<rparr>) rows)) days)"

definition NodeDaily :: "int64 \<Rightarrow> int64 \<Rightarrow> int64 \<Rightarrow> Store \<Rightarrow> DailyTraffic list" where
  "NodeDaily now nodeID days0 s =
     (let days = (if days0 < 1 then 30 else days0);
          since = day_back now (days - 1);
          rows = sort_key ndDay (filter (\<lambda>r. ndNode r = nodeID \<and> ndDay r \<ge> since) (node_traffic_daily s))
      in fillDaily now (by_day (map (\<lambda>r. \<lparr>dtDay = ndDay r, dtUp = ndUp r, dtDown = ndDown r\<rparr>) rows)) days)"

definition PeriodTotals :: "int64 \<Rightarrow> Store \<Rightarrow> PeriodStats" where
  "PeriodTotals now s =
     (let today = format_day (unix_day now);
          monthStart = (case civil (unix_day now) of (y, m, _) \<Rightarrow> format_day (date_days y m 1));
          split = (\<lambda>rows. \<lparr>tsUp = sum_of tdUp rows, tsDown = sum_of tdDown rows\<rparr>)
      in \<lparr>psToday = split (filter (\<lambda>r. tdDay r = today) (traffic_daily s)),
          psMonth = split (filter (\<lambda>r. tdDay r \<ge> monthStart) (traffic_daily s))\<rparr>)"

definition RecentDailyAvg :: "int64 \<Rightarrow> int \<Rightarrow> Store \<Rightarrow> (int64, int64) gomap" where
  "RecentDailyAvg now days0 s =
     (let days = (if days0 < 1 then 7 else days0);
          since = day_back now (days - 1)
      in group_by tdUser (\<lambda>g. quot (sum_of (\<lambda>r. tdUp r + tdDown r) g) days)
           (filter (\<lambda>r. tdDay r \<ge> since) (traffic_daily s)))"

section \<open>Totals\<close>

definition NodeTrafficTotals :: "Store \<Rightarrow> NodeUsage list" where
  "NodeTrafficTotals s =
     map (\<lambda>(nid, up, down, us). \<lparr>nuNodeID = nid, nuUp = up, nuDown = down, nuUsers = us\<rparr>)
       (group_by ntNode (\<lambda>g. (sum_of ntUp g, sum_of ntDown g, count_distinct ntUser g)) (node_traffic s))"

definition UserTrafficTotals :: "Store \<Rightarrow> (int64, TrafficSplit) gomap" where
  "UserTrafficTotals s =
     group_by ntUser (\<lambda>g. \<lparr>tsUp = sum_of ntUp g, tsDown = sum_of ntDown g\<rparr>) (node_traffic s)"

definition UserTrafficByNode :: "int64 \<Rightarrow> Store \<Rightarrow> NodeUsage list" where
  "UserTrafficByNode userID s =
     map (\<lambda>r. \<lparr>nuNodeID = ntNode r, nuUp = ntUp r, nuDown = ntDown r, nuUsers = 0\<rparr>)
       (sort_key (\<lambda>r. - (ntUp r + ntDown r))
          (filter (\<lambda>r. ntUser r = userID \<and> ntUp r + ntDown r > 0) (node_traffic s)))"

section \<open>Grouping loses nothing\<close>

lemma map_of_group_by:
  "map_of (group_by key agg rows) k =
     (if k \<in> key ` set rows then Some (agg (filter (\<lambda>r. key r = k) rows)) else None)"
  by (auto simp: group_by_def map_of_map_restrict restrict_map_def)

lemma gomap_wf_group_by [simp]: "gomap_wf (group_by key agg rows)"
  by (simp add: group_by_def o_def)

lemma sum_of_group_by:
  assumes "\<And>g. f (agg g) = sum_of h g"
  shows "sum_of (\<lambda>(k, v). f v) (group_by key agg rows) = sum_of h rows"
proof -
  have "sum_list (map (\<lambda>k. sum_list (map h (filter (\<lambda>r. key r = k) rows))) ks) = sum_list (map h rows)"
    if "distinct ks" "key ` set rows \<subseteq> set ks" for ks
    using that(2)
  proof (induction rows)
    case (Cons r rows)
    have "(\<Sum>k\<leftarrow>ks. sum_list (map h (filter (\<lambda>r. key r = k) (r # rows)))) =
      (\<Sum>k\<leftarrow>ks. (if k = key r then h r else 0) + sum_list (map h (filter (\<lambda>r. key r = k) rows)))"
      by (intro arg_cong [of _ _ sum_list] map_cong) auto
    also have "\<dots> = (\<Sum>k\<leftarrow>ks. if k = key r then h r else 0) + sum_list (map h rows)"
      using Cons by (simp add: sum_list_addf)
    also have "(\<Sum>k\<leftarrow>ks. if k = key r then h r else 0) = h r"
      using that(1) Cons.prems by (simp add: sum_list_distinct_conv_sum_set)
    finally show ?case by simp
  qed simp
  from this [of "sort (remdups (map key rows))"]
  show ?thesis using assms by (simp add: sum_of_def group_by_def o_def)
qed

end
