(* ===== verification/Decode.thy ===== *)
theory Decode
  imports Json Go_Strings Tables
begin

text \<open>
  Decoding a JSON value into a struct, as \<open>encoding/json\<close> does it for request bodies
  (\<open>json.NewDecoder(r.Body).Decode(&body)\<close>) and for the agent's local files. A struct is the list of its
  field names with a setter each.
\<close>

text \<open>
  Object keys match a field by name up to case folding; besides ASCII letters only the long s and the
  Kelvin sign fold to a letter of a field name. A value of the wrong type is an error, but the other
  fields are still decoded; \<open>null\<close> leaves a field alone, except that it clears a pointer or a slice. A
  number that is no \<open>int64\<close> literal is of the wrong type for every field here.
\<close>

fun foldName :: "string \<Rightarrow> string" where
  "foldName [] = []"
| "foldName (c # s) =
     (if c = CHR 0xC5 \<and> prefix [CHR 0xBF] s then CHR ''s'' # foldName (drop 1 s)
      else if c = CHR 0xE2 \<and> prefix [CHR 0x84, CHR 0xAA] s then CHR ''k'' # foldName (drop 2 s)
      else lower_char c # foldName s)"

type_synonym 'b setter = "json \<Rightarrow> 'b \<Rightarrow> 'b option"

definition to_string :: "((string \<Rightarrow> string) \<Rightarrow> 'b \<Rightarrow> 'b) \<Rightarrow> 'b setter" where
  "to_string upd j b = (case j of JNull \<Rightarrow> Some b | JStr s \<Rightarrow> Some (upd (\<lambda>_. s) b) | _ \<Rightarrow> None)"

definition to_int64 :: "((int64 \<Rightarrow> int64) \<Rightarrow> 'b \<Rightarrow> 'b) \<Rightarrow> 'b setter" where
  "to_int64 upd j b =
     (case j of JNull \<Rightarrow> Some b | JNum n \<Rightarrow> if in_int64 n then Some (upd (\<lambda>_. n) b) else None | _ \<Rightarrow> None)"

definition to_bool :: "((bool \<Rightarrow> bool) \<Rightarrow> 'b \<Rightarrow> 'b) \<Rightarrow> 'b setter" where
  "to_bool upd j b = (case j of JNull \<Rightarrow> Some b | JBool v \<Rightarrow> Some (upd (\<lambda>_. v) b) | _ \<Rightarrow> None)"

definition to_string_ptr :: "((string option \<Rightarrow> string option) \<Rightarrow> 'b \<Rightarrow> 'b) \<Rightarrow> 'b setter" where
  "to_string_ptr upd j b =
     (case j of JNull \<Rightarrow> Some (upd (\<lambda>_. None) b) | JStr s \<Rightarrow> Some (upd (\<lambda>_. Some s) b) | _ \<Rightarrow> None)"

definition to_int64_ptr :: "((int64 option \<Rightarrow> int64 option) \<Rightarrow> 'b \<Rightarrow> 'b) \<Rightarrow> 'b setter" where
  "to_int64_ptr upd j b =
     (case j of JNull \<Rightarrow> Some (upd (\<lambda>_. None) b)
      | JNum n \<Rightarrow> if in_int64 n then Some (upd (\<lambda>_. Some n) b) else None
      | _ \<Rightarrow> None)"

definition to_bool_ptr :: "((bool option \<Rightarrow> bool option) \<Rightarrow> 'b \<Rightarrow> 'b) \<Rightarrow> 'b setter" where
  "to_bool_ptr upd j b =
     (case j of JNull \<Rightarrow> Some (upd (\<lambda>_. None) b) | JBool v \<Rightarrow> Some (upd (\<lambda>_. Some v) b) | _ \<Rightarrow> None)"

definition elem_int64 :: "json \<Rightarrow> int64 option" where
  "elem_int64 j = (case j of JNull \<Rightarrow> Some 0 | JNum n \<Rightarrow> if in_int64 n then Some n else None | _ \<Rightarrow> None)"

definition to_int64s :: "((int64 list \<Rightarrow> int64 list) \<Rightarrow> 'b \<Rightarrow> 'b) \<Rightarrow> 'b setter" where
  "to_int64s upd j b =
     (case j of JNull \<Rightarrow> Some (upd (\<lambda>_. []) b)
      | JArr xs \<Rightarrow> map_option (\<lambda>ns. upd (\<lambda>_. ns) b) (those (map elem_int64 xs))
      | _ \<Rightarrow> None)"

type_synonym 'b struct = "(string \<times> 'b setter) list"

definition struct_field :: "'b struct \<Rightarrow> string \<Rightarrow> 'b setter option" where
  "struct_field fs k =
     (case map_of fs k of
        Some f \<Rightarrow> Some f
      | None \<Rightarrow> map_option snd (find (\<lambda>(n, f). foldName n = foldName k) fs))"

definition decode_member :: "'b struct \<Rightarrow> string \<times> json \<Rightarrow> bool \<times> 'b \<Rightarrow> bool \<times> 'b" where
  "decode_member fs kv r =
     (case struct_field fs (fst kv) of
        None \<Rightarrow> r
      | Some f \<Rightarrow> (case f (snd kv) (snd r) of None \<Rightarrow> (False, snd r) | Some b \<Rightarrow> (fst r, b)))"

definition decode :: "'b struct \<Rightarrow> raw_message \<Rightarrow> 'b \<Rightarrow> bool \<times> 'b" where
  "decode fs raw b =
     (case raw of
        None \<Rightarrow> (False, b)
      | Some JNull \<Rightarrow> (True, b)
      | Some (JObj m) \<Rightarrow> fold (decode_member fs) m (True, b)
      | Some _ \<Rightarrow> (False, b))"

lemmas setter_defs = to_string_def to_int64_def to_bool_def to_string_ptr_def to_int64_ptr_def to_bool_ptr_def to_int64s_def

text \<open>What every setter of a struct keeps, decoding keeps.\<close>

lemma decode_keeps:
  assumes "\<And>n f j b b'. (n, f) \<in> set fs \<Longrightarrow> f j b = Some b' \<Longrightarrow> P b \<Longrightarrow> P b'" and "P b"
  shows "P (snd (decode fs raw b))"
proof -
  have step: "P (snd (decode_member fs kv r))" if "P (snd r)" for kv r
  proof (cases "struct_field fs (fst kv)")
    case (Some f)
    then have "\<exists>n. (n, f) \<in> set fs"
      by (auto simp: struct_field_def dest: map_of_SomeD find_key_eq split: option.splits)
    with assms(1) that Some show ?thesis by (auto simp: decode_member_def split: option.splits)
  qed (simp add: decode_member_def that)
  have "P (snd (fold (decode_member fs) m r))" if "P (snd r)" for m r
    using that by (induction m arbitrary: r) (simp_all add: step)
  with assms(2) show ?thesis by (auto simp: decode_def split: option.splits json.splits)
qed

end
