(* ===== verification/Request.thy ===== *)
theory Request
  imports Hub Reports Decode
begin

text \<open>
  What the HTTP handlers of the panel share: a request, a response, and the small helpers of \<open>api.go\<close>, \<open>auth.go\<close>
  and \<open>admins.go\<close>. A handler is a function from a request and the panel to a response and the panel. The
  request also carries what the handler draws from outside: the clock (one reading, in nanoseconds)
  and random bytes (\<open>rqRand i n\<close> is the \<open>i\<close>-th draw, of \<open>n\<close> bytes). \<open>rqPath\<close> is the
  path as its unescaped segments, \<open>rqVars\<close> are the path values the router bound.
\<close>

section \<open>Requests and responses\<close>

record request =
  rqMethod :: string
  rqPath :: "string list"
  rqVars :: "(string \<times> string) list"
  rqQuery :: "(string \<times> string) list"
  rqCookies :: "(string \<times> string) list"
  rqRemoteAddr :: string
  rqBody :: raw_message
  rqNano :: int64
  rqRand :: "nat \<Rightarrow> nat \<Rightarrow> string"

definition Now :: "request \<Rightarrow> int64" where
  "Now r = rqNano r div 1000000000"

definition PathValue :: "string \<Rightarrow> request \<Rightarrow> string" where
  "PathValue k r = (case map_of (rqVars r) k of None \<Rightarrow> '''' | Some v \<Rightarrow> v)"

definition QueryGet :: "string \<Rightarrow> request \<Rightarrow> string" where
  "QueryGet k r = (case map_of (rqQuery r) k of None \<Rightarrow> '''' | Some v \<Rightarrow> v)"

definition Cookie :: "string \<Rightarrow> request \<Rightarrow> string option" where
  "Cookie k r = map_of (rqCookies r) k"

text \<open>The texts of error responses: a literal, or the \<open>Error()\<close> of an error value.\<close>

datatype error_text =
    Literal string
  | StoreErr store_error
  | ValidateErr validate_error
  | WeakPassword
  | HashErr
  | OSErr
  | BackupErr
  | KeyErr

text \<open>A row of the node list: its fields without floats, the metrics, the three rates.\<close>

record node_view =
  nvFields :: "(string \<times> json) list"
  nvMetrics :: "NodeMetrics option"
  nvRateTotal :: rat
  nvRateUp :: rat
  nvRateDown :: rat

text \<open>A body is JSON; the node list has floats in it and is kept as rows; \<open>PNG\<close> is the picture of a QR code,
  \<open>Database\<close> a copy of the database file, \<open>Asset\<close> an embedded file.\<close>

datatype payload =
    Err error_text
  | ErrTOTP string
  | JSON json
  | NodeList "node_view list"
  | PlainError string
  | Plain string
  | PNG string
  | Database Store
  | Asset "string list"

record cookie =
  ckName :: string
  ckValue :: string
  ckSecure :: bool
  ckMaxAge :: int

record response =
  rsCode :: int
  rsCookie :: "cookie option"
  rsHeaders :: "(string \<times> string) list"
  rsBody :: payload

type_synonym handler = "request \<Rightarrow> App \<Rightarrow> response \<times> App"

definition writeJSON :: "int \<Rightarrow> json \<Rightarrow> response" where
  "writeJSON code v = \<lparr>rsCode = code, rsCookie = None, rsHeaders = [(''Content-Type'', ''application/json'')], rsBody = JSON v\<rparr>"

definition writeErr :: "int \<Rightarrow> error_text \<Rightarrow> response" where
  "writeErr code msg = (writeJSON code JNull)\<lparr>rsBody := Err msg\<rparr>"

definition HTTPError :: "string \<Rightarrow> int \<Rightarrow> response" where
  "HTTPError msg code = \<lparr>rsCode = code, rsCookie = None,
     rsHeaders = [(''Content-Type'', ''text/plain; charset=utf-8''), (''X-Content-Type-Options'', ''nosniff'')],
     rsBody = PlainError msg\<rparr>"

abbreviation okJSON :: json where
  "okJSON \<equiv> JObj [(''ok'', JBool True)]"

definition pathID :: "request \<Rightarrow> int64 option" where
  "pathID r = ParseInt (PathValue ''id'' r)"

section \<open>The caller\<close>

definition last_colon :: "string \<Rightarrow> nat option" where
  "last_colon s = (if CHR '':'' \<in> set s then Some (length s - 1 - length (takeWhile ((\<noteq>) (CHR '':'')) (rev s))) else None)"

definition SplitHostPort :: "string \<Rightarrow> (string \<times> string) option" where
  "SplitHostPort hp =
     (case last_colon hp of
        None \<Rightarrow> None
      | Some i \<Rightarrow>
          if hd hp = CHR ''['' then
            (if CHR '']'' \<notin> set hp then None
             else
               let e = length (takeWhile ((\<noteq>) (CHR '']'')) hp)
               in if e + 1 \<noteq> i then None
                  else if CHR ''['' \<in> set (drop 1 hp) \<or> CHR '']'' \<in> set (drop (e + 1) hp) then None
                  else Some (drop 1 (take e hp), drop (i + 1) hp))
          else if CHR '':'' \<in> set (take i hp) then None
          else if CHR ''['' \<in> set hp \<or> CHR '']'' \<in> set hp then None
          else Some (take i hp, drop (i + 1) hp))"

definition clientIP :: "request \<Rightarrow> string" where
  "clientIP r = (case SplitHostPort (rqRemoteAddr r) of None \<Rightarrow> rqRemoteAddr r | Some (host, _) \<Rightarrow> host)"

definition sessionCookie :: string where "sessionCookie = ''xuanwu_session''"
definition portalCookie :: string where "portalCookie = ''xuanwu_portal''"

definition admin_of :: "request \<Rightarrow> App \<Rightarrow> Admin option" where
  "admin_of r a = currentAdmin (Now r) (JWTSecret (cfg a)) (store a) (Cookie sessionCookie r)"

definition user_of :: "request \<Rightarrow> App \<Rightarrow> User option" where
  "user_of r a = portalUser (Now r) (JWTSecret (cfg a)) (store a) (Cookie portalCookie r)"

text \<open>\<open>requireAuth\<close> as the wrapper it is: the handler runs only for an admin.\<close>

definition authenticated :: "handler \<Rightarrow> handler" where
  "authenticated next r a =
     (if requireAuth (Now r) (JWTSecret (cfg a)) (store a) (Cookie sessionCookie r) then next r a
      else (HTTPError ''unauthorized'' 401, a))"

definition audit :: "request \<Rightarrow> string \<Rightarrow> string \<Rightarrow> App \<Rightarrow> App" where
  "audit r action detail a =
     (let actor = (case admin_of r a of Some adm \<Rightarrow> aUsername adm | None \<Rightarrow> ''?'')
      in with_store (AddAudit (Now r) actor action detail) a)"

definition session_cookie :: "string \<Rightarrow> string \<Rightarrow> App \<Rightarrow> cookie" where
  "session_cookie name tok a = \<lparr>ckName = name, ckValue = tok, ckSecure = cookieSecure a, ckMaxAge = 86400\<rparr>"

definition expired_cookie :: "string \<Rightarrow> App \<Rightarrow> cookie" where
  "expired_cookie name a = \<lparr>ckName = name, ckValue = '''', ckSecure = cookieSecure a, ckMaxAge = -1\<rparr>"

end
