(* ===== verification/Views.thy ===== *)
theory Views
  imports Request
begin

text \<open>
  How the handlers show their values as JSON (the struct tags of \<open>models.go\<close> and \<open>store.go\<close>), and the
  structs request bodies are decoded into.
\<close>

section \<open>Output\<close>

definition num_opt :: "string \<Rightarrow> int \<Rightarrow> (string \<times> json) list" where
  "num_opt k n = (if n = 0 then [] else [(k, JNum n)])"

definition user_json :: "User \<Rightarrow> json" where
  "user_json u = JObj (
     [(''id'', JNum (uID u)), (''username'', JStr (uUsername u)), (''uuid'', JStr (uUUID u)), (''sub_token'', JStr (uSubToken u)),
      (''data_limit'', JNum (uDataLimit u)), (''data_used'', JNum (uDataUsed u)), (''expire_at'', JNum (uExpireAt u)),
      (''enabled'', JBool (uEnabled u)), (''created_at'', JNum (uCreatedAt u))]
     @ (if uNodeIDs u = [] then [] else [(''node_ids'', JArr (map JNum (uNodeIDs u)))])
     @ [(''has_portal_password'', JBool (uHasPortalPassword u)), (''reset_day'', JNum (uResetDay u))]
     @ num_opt ''last_reset'' (uLastReset u)
     @ [(''must_change_pw'', JBool (uMustChangePW u)), (''device_count'', JNum (uDeviceCount u))]
     @ num_opt ''eta_days'' (uEtaDays u) @ [(''note'', JStr (uNote u))])"

definition node_json :: "Node \<Rightarrow> json" where
  "node_json n = JObj
     [(''id'', JNum (nID n)), (''name'', JStr (nName n)), (''token'', JStr (nToken n)), (''address'', JStr (nAddress n)),
      (''remark'', JStr (nRemark n)), (''last_seen'', JNum (nLastSeen n)), (''online'', JBool (nOnline n)),
      (''created_at'', JNum (nCreatedAt n)), (''reality_dest'', JStr (nRealityDest n)),
      (''reality_server_name'', JStr (nRealityServerName n)), (''reality_private_key'', JStr (nRealityPrivateKey n)),
      (''reality_public_key'', JStr (nRealityPublicKey n)), (''reality_short_id'', JStr (nRealityShortID n)),
      (''tls_domain'', JStr (nTLSDomain n)), (''agent_version'', JStr (nAgentVersion n))]"

definition device_json :: "Device \<Rightarrow> json" where
  "device_json d = JObj
     [(''ip'', JStr (dIP d)), (''inbound'', JStr (dInbound d)), (''conns'', JNum (dConns d)), (''node_id'', JNum (dNodeID d)),
      (''first_seen'', JNum (dFirstSeen d)), (''last_seen'', JNum (dLastSeen d))]"

definition daily_json :: "DailyTraffic \<Rightarrow> json" where
  "daily_json d = JObj [(''day'', JStr (dtDay d)), (''up'', JNum (dtUp d)), (''down'', JNum (dtDown d))]"

definition split_json :: "TrafficSplit \<Rightarrow> json" where
  "split_json t = JObj [(''up'', JNum (tsUp t)), (''down'', JNum (tsDown t))]"

definition usage_json :: "NodeUsage \<Rightarrow> json" where
  "usage_json u = JObj [(''node_id'', JNum (nuNodeID u)), (''up'', JNum (nuUp u)), (''down'', JNum (nuDown u)), (''users'', JNum (nuUsers u))]"

definition audit_json :: "audit_row \<Rightarrow> json" where
  "audit_json e = JObj [(''id'', JNum (auID e)), (''ts'', JNum (auTS e)), (''actor'', JStr (auActor e)),
     (''action'', JStr (auAction e)), (''detail'', JStr (auDetail e))]"

text \<open>A Go slice is \<open>null\<close> when nothing was ever appended to it.\<close>

definition slice_json :: "('a \<Rightarrow> json) \<Rightarrow> 'a list \<Rightarrow> json" where
  "slice_json f xs = (if xs = [] then JNull else JArr (map f xs))"

section \<open>Input\<close>

record login_body =
  lbUsername :: string
  lbPassword :: string
  lbCode :: string

definition login_struct :: "login_body struct" where
  "login_struct = [(''Username'', to_string lbUsername_update), (''Password'', to_string lbPassword_update), (''Code'', to_string lbCode_update)]"

definition login_zero :: login_body where
  "login_zero = \<lparr>lbUsername = '''', lbPassword = '''', lbCode = ''''\<rparr>"

definition credentials_struct :: "login_body struct" where
  "credentials_struct = [(''Username'', to_string lbUsername_update), (''Password'', to_string lbPassword_update)]"

definition password_struct :: "login_body struct" where
  "password_struct = [(''Password'', to_string lbPassword_update)]"

definition portal_password_struct :: "login_body struct" where
  "portal_password_struct = [(''password'', to_string lbPassword_update)]"

definition new_password_struct :: "login_body struct" where
  "new_password_struct = [(''new_password'', to_string lbPassword_update)]"

definition code_struct :: "login_body struct" where
  "code_struct = [(''code'', to_string lbCode_update)]"

definition node_zero :: Node where
  "node_zero = \<lparr>nID = 0, nName = '''', nToken = '''', nAddress = '''', nRemark = '''', nLastSeen = 0, nOnline = False,
     nCreatedAt = 0, nRealityDest = '''', nRealityServerName = '''', nRealityPrivateKey = '''', nRealityPublicKey = '''',
     nRealityShortID = '''', nTLSDomain = '''', nAgentVersion = ''''\<rparr>"

definition node_struct :: "Node struct" where
  "node_struct =
     [(''id'', to_int64 nID_update), (''name'', to_string nName_update), (''token'', to_string nToken_update),
      (''address'', to_string nAddress_update), (''remark'', to_string nRemark_update), (''last_seen'', to_int64 nLastSeen_update),
      (''online'', to_bool nOnline_update), (''created_at'', to_int64 nCreatedAt_update),
      (''reality_dest'', to_string nRealityDest_update), (''reality_server_name'', to_string nRealityServerName_update),
      (''reality_private_key'', to_string nRealityPrivateKey_update), (''reality_public_key'', to_string nRealityPublicKey_update),
      (''reality_short_id'', to_string nRealityShortID_update), (''tls_domain'', to_string nTLSDomain_update),
      (''agent_version'', to_string nAgentVersion_update)]"

record create_user_body =
  cbUsername :: string
  cbDataLimit :: int64
  cbExpireAt :: int64
  cbResetDay :: int64
  cbNote :: string
  cbEnabled :: "bool option"
  cbNodeIDs :: "int64 list"

definition create_user_struct :: "create_user_body struct" where
  "create_user_struct =
     [(''username'', to_string cbUsername_update), (''data_limit'', to_int64 cbDataLimit_update), (''expire_at'', to_int64 cbExpireAt_update),
      (''reset_day'', to_int64 cbResetDay_update), (''note'', to_string cbNote_update), (''enabled'', to_bool_ptr cbEnabled_update),
      (''node_ids'', to_int64s cbNodeIDs_update)]"

definition create_user_zero :: create_user_body where
  "create_user_zero = \<lparr>cbUsername = '''', cbDataLimit = 0, cbExpireAt = 0, cbResetDay = 0, cbNote = '''', cbEnabled = None, cbNodeIDs = []\<rparr>"

record update_user_body =
  ubDataLimit :: "int64 option"
  ubExpireAt :: "int64 option"
  ubResetDay :: "int64 option"
  ubNote :: "string option"
  ubEnabled :: "bool option"

definition update_user_struct :: "update_user_body struct" where
  "update_user_struct =
     [(''data_limit'', to_int64_ptr ubDataLimit_update), (''expire_at'', to_int64_ptr ubExpireAt_update),
      (''reset_day'', to_int64_ptr ubResetDay_update), (''note'', to_string_ptr ubNote_update), (''enabled'', to_bool_ptr ubEnabled_update)]"

definition update_user_zero :: update_user_body where
  "update_user_zero = \<lparr>ubDataLimit = None, ubExpireAt = None, ubResetDay = None, ubNote = None, ubEnabled = None\<rparr>"

definition node_ids_struct :: "create_user_body struct" where
  "node_ids_struct = [(''node_ids'', to_int64s cbNodeIDs_update)]"

record settings_body =
  sbPublicURL :: "string option"
  sbCookieSecure :: "string option"
  sbBackupKeep :: "int64 option"
  sbClashTemplate :: "string option"

definition settings_struct :: "settings_body struct" where
  "settings_struct =
     [(''public_url'', to_string_ptr sbPublicURL_update), (''cookie_secure'', to_string_ptr sbCookieSecure_update),
      (''backup_keep'', to_int64_ptr sbBackupKeep_update), (''clash_template'', to_string_ptr sbClashTemplate_update)]"

definition settings_zero :: settings_body where
  "settings_zero = \<lparr>sbPublicURL = None, sbCookieSecure = None, sbBackupKeep = None, sbClashTemplate = None\<rparr>"

record notify_body =
  tbToken :: "string option"
  tbAdminIDs :: string

definition notify_struct :: "notify_body struct" where
  "notify_struct = [(''token'', to_string_ptr tbToken_update), (''admin_ids'', to_string tbAdminIDs_update)]"

definition notify_zero :: notify_body where
  "notify_zero = \<lparr>tbToken = None, tbAdminIDs = ''''\<rparr>"

end
