(* ===== verification/Url.thy ===== *)
theory Url
  imports Go_Strings Codec "HOL-Library.Char_ord" "HOL-Library.List_Lexorder"
begin

text \<open>
  The escaping side of Go's \<open>net/url\<close>, which share links and enrolment links are built with:
  \<open>QueryEscape\<close>, \<open>PathEscape\<close> and \<open>Values.Encode\<close>.
\<close>

definition upper_hex :: string where
  "upper_hex = ''0123456789ABCDEF''"

definition percent :: "char \<Rightarrow> string" where
  "percent c = [CHR ''%'', upper_hex ! (of_char c div 16), upper_hex ! (of_char c mod 16)]"

definition unreserved :: string where
  "unreserved = ''ABCDEFGHIJKLMNOPQRSTUVWXYZabcdefghijklmnopqrstuvwxyz0123456789-_.~''"

definition query_char :: "char \<Rightarrow> string" where
  "query_char c = (if c \<in> set unreserved then [c] else if c = CHR '' '' then ''+'' else percent c)"

definition QueryEscape :: "string \<Rightarrow> string" where
  "QueryEscape s = concat (map query_char s)"

definition PathEscape :: "string \<Rightarrow> string" where
  "PathEscape s = concat (map (\<lambda>c. if c \<in> set (unreserved @ ''$&+:=@'') then [c] else percent c) s)"

type_synonym Values = "(string, string) gomap"

definition Encode :: "Values \<Rightarrow> string" where
  "Encode v = Join (map (\<lambda>(k, x). QueryEscape k @ ''='' @ QueryEscape x) (sort_key fst v)) ''&''"

text \<open>Every byte that escaping leaves is from a small set, so no delimiter of a link survives it.\<close>

definition link_chars :: "char set" where
  "link_chars = set (unreserved @ ''%+'')"

lemma upper_hex_in: "n < 16 \<Longrightarrow> upper_hex ! n \<in> set unreserved"
  using nth_mem [of n upper_hex] by (auto simp: upper_hex_def unreserved_def)

lemma percent_chars: "set (percent c) \<subseteq> link_chars"
proof -
  have "of_char c div 16 < (16 :: nat)" 
    using bytes_of_bound [of "of_char c" "[c]"] by (simp add: less_mult_imp_div_less)
  then have "upper_hex ! (of_char c div 16) \<in> link_chars" "upper_hex ! (of_char c mod 16) \<in> link_chars"
    using upper_hex_in [of "of_char c div 16"] upper_hex_in [of "of_char c mod 16"] by (simp_all add: link_chars_def)
  moreover have "CHR ''%'' \<in> link_chars" by (simp add: link_chars_def)
  ultimately show ?thesis by (simp add: percent_def)
qed

lemma QueryEscape_chars: "set (QueryEscape s) \<subseteq> link_chars"
proof -
  have plus: "CHR ''+'' \<in> link_chars" and unres: "set unreserved \<subseteq> link_chars"
    unfolding link_chars_def set_append by (simp, rule Un_upper1)
  have "set (query_char c) \<subseteq> link_chars" for c
    using percent_chars [of c] plus unres unfolding query_char_def by (cases "c \<in> set unreserved"; cases "c = CHR '' ''") (simp_all add: subset_iff)
  then show ?thesis unfolding QueryEscape_def by (induction s) simp_all
qed

text \<open>The characters that structure a link or a list of links.\<close>

definition delims :: "char set" where
  "delims = {CHR ''#'', CHR ''?'', CHR ''/'', CHR '':'', CHR ''@'', CHR '' '', CHR 0x0A}"

lemma link_chars_delims: "link_chars \<inter> delims = {}"
  by (simp add: link_chars_def unreserved_def delims_def)

lemma link_chars_amp: "CHR ''&'' \<notin> link_chars" "CHR ''='' \<notin> link_chars"
  by (simp_all add: link_chars_def unreserved_def)

lemma amp_delims: "CHR ''&'' \<notin> delims" "CHR ''='' \<notin> delims"
  by (simp_all add: delims_def)

lemma QueryEscape_clean: "c \<in> delims \<Longrightarrow> c \<notin> set (QueryEscape s)"
  using QueryEscape_chars [of s] link_chars_delims by blast

lemma QueryEscape_amp: "CHR ''&'' \<notin> set (QueryEscape s)"
  using QueryEscape_chars [of s] link_chars_amp(1) by blast

text \<open>A query carries its pairs: cutting at \<open>&\<close> gives one piece per key, in key order.\<close>

lemma Split_Encode:
  assumes "v \<noteq> []"
  shows "Split (Encode v) ''&'' = map (\<lambda>(k, x). QueryEscape k @ ''='' @ QueryEscape x) (sort_key fst v)"
  unfolding Encode_def
proof (rule Split_Join)
  show "map (\<lambda>(k, x). QueryEscape k @ ''='' @ QueryEscape x) (sort_key fst v) \<noteq> []"
    using assms length_sort [of fst v] by (simp flip: length_greater_0_conv)
qed (simp add: QueryEscape_amp case_prod_beta)

lemma set_Join: "set (Join ps sep) \<subseteq> set sep \<union> (\<Union>p \<in> set ps. set p)"
  by (induction ps sep rule: Join.induct) auto

lemma Encode_clean:
  assumes "c \<in> delims"
  shows "c \<notin> set (Encode v)"
proof -
  have ne: "CHR ''&'' \<noteq> c" "CHR ''='' \<noteq> c" using assms amp_delims by metis+
  then have "c \<notin> set (QueryEscape k @ ''='' @ QueryEscape x)" for k x
    using QueryEscape_clean [OF assms] by (metis (no_types) Un_iff empty_iff empty_set insert_iff list.simps(15) set_append)
  then have "c \<notin> (\<Union>p \<in> set (map (\<lambda>(k, x). QueryEscape k @ ''='' @ QueryEscape x) (sort_key fst v)). set p)"
    by (auto simp: case_prod_beta)
  moreover have "c \<notin> set ''&''" using ne by simp
  ultimately show ?thesis unfolding Encode_def using set_Join by blast
qed

end
