(* ===== verification/Marshal.thy ===== *)
theory Marshal
  imports Json Go_Strings Codec "HOL-Library.Char_ord" "HOL-Library.List_Lexorder"
begin

text \<open>
  The printing side of \<open>encoding/json\<close>: \<open>Marshal\<close> and \<open>MarshalIndent(v, "", "  ")\<close> with their sorted
  object keys and their string escapes, because the agent compares and hashes the bytes it prints
  (\<open>skeleton\<close> and \<open>config_sha\<close> of its baseline).
\<close>

definition hex4 :: "nat \<Rightarrow> string" where
  "hex4 r = CHR 0x5C # CHR ''u'' # hex_byte (r div 256) @ hex_byte (r mod 256)"

definition quote_ascii :: "nat \<Rightarrow> string" where
  "quote_ascii b =
     (if b = 0x22 \<or> b = 0x5C then [CHR 0x5C, char_of b]
      else if b = 8 then [CHR 0x5C, CHR ''b'']
      else if b = 12 then [CHR 0x5C, CHR ''f'']
      else if b = 10 then [CHR 0x5C, CHR ''n'']
      else if b = 13 then [CHR 0x5C, CHR ''r'']
      else if b = 9 then [CHR 0x5C, CHR ''t'']
      else if b < 0x20 \<or> b = 0x3C \<or> b = 0x3E \<or> b = 0x26 then hex4 b
      else [char_of b])"

function quote_bytes :: "nat list \<Rightarrow> string" where
  "quote_bytes bs =
     (if bs = [] then ''''
      else case decode_rune bs of (r, w) \<Rightarrow>
        (if w = 1 \<and> r < 0x80 then quote_ascii r
         else if w = 1 \<or> r = 0x2028 \<or> r = 0x2029 then hex4 r
         else string_of (take w bs)) @ quote_bytes (drop w bs))"
  by pat_completeness auto
termination
proof (relation "measure length", goal_cases)
  case (2 bs r w)
  then have "0 < w" using decode_rune_width [of bs] by (metis snd_conv)
  with 2 show ?case by simp
qed simp

declare quote_bytes.simps [simp del]

definition quote :: "string \<Rightarrow> string" where
  "quote s = CHR 0x22 # quote_bytes (bytes_of s) @ [CHR 0x22]"

text \<open>\<open>nl d\<close> is what starts a line at depth \<open>d\<close>, \<open>colon\<close> what separates a key from its value.\<close>

fun encode_json :: "(nat \<Rightarrow> string) \<Rightarrow> string \<Rightarrow> nat \<Rightarrow> json \<Rightarrow> string" where
  "encode_json nl colon d JNull = ''null''"
| "encode_json nl colon d (JBool b) = (if b then ''true'' else ''false'')"
| "encode_json nl colon d (JNum i) = FormatInt i"
| "encode_json nl colon d (JStr s) = quote s"
| "encode_json nl colon d (JArr xs) =
     (if xs = [] then ''[]''
      else ''['' @ Join (map (\<lambda>x. nl (Suc d) @ encode_json nl colon (Suc d) x) xs) '','' @ nl d @ '']'')"
| "encode_json nl colon d (JObj m) =
     (if m = [] then ''{}''
      else ''{'' @ Join (map (\<lambda>(k, v). nl (Suc d) @ quote k @ colon @ v)
                          (sort_key fst (map (\<lambda>(k, v). (k, encode_json nl colon (Suc d) v)) m))) '','' @ nl d @ ''}'')"

definition marshal :: "json \<Rightarrow> string" where
  "marshal j = encode_json (\<lambda>_. '''') '':'' 0 j"

definition MarshalIndent :: "json \<Rightarrow> string" where
  "MarshalIndent j = encode_json (\<lambda>d. CHR 0x0A # replicate (2 * d) CHR '' '') '': '' 0 j"

text \<open>A printed value is never the empty string, so an empty skeleton means that there is none.\<close>

lemma marshal_neq_Nil [simp]: "marshal j \<noteq> ''''"
proof (cases j)
  case (JNum i)
  then show ?thesis by (simp add: marshal_def FormatInt_def)
qed (simp_all add: marshal_def quote_def)

end
