(* ===== verification/Subscription.thy ===== *)
theory Subscription
  imports Request Url Marshal
begin

text \<open>
  The subscription endpoints of \<open>src/internal/panel/sub.go\<close>: share links, the sing-box profile and the
  Clash configuration. \<open>outside\<close> collects what the handlers take from code that is not here.
\<close>

section \<open>Outside code\<close>

text \<open>
  bcrypt and the Unicode classes (\<open>externs\<close>), X25519, \<open>rsc.io/qr\<close> (\<open>None\<close>: the text is too long),
  \<open>unicode.IsPrint\<close> beyond ASCII, the version stamped into the build.
\<close>

record outside =
  oExt :: externs
  oX25519 :: "string \<Rightarrow> string option"
  oQR :: "string \<Rightarrow> string option"
  oIsPrint :: "nat \<Rightarrow> bool"
  oVersion :: string

section \<open>Strings\<close>

definition ReplaceAll :: "string \<Rightarrow> string \<Rightarrow> string \<Rightarrow> string" where
  "ReplaceAll s old new = Join (Split s old) new"

text \<open>\<open>strconv.Quote\<close>, the verb \<open>%q\<close>.\<close>

definition hex2 :: "nat \<Rightarrow> string" where
  "hex2 b = CHR 0x5C # CHR ''x'' # hex_byte b"

definition hex8 :: "nat \<Rightarrow> string" where
  "hex8 r = CHR 0x5C # CHR ''U'' # concat (map (\<lambda>i. hex_byte (r div 256 ^ i mod 256)) [3, 2, 1, 0])"

definition q_ascii :: "nat \<Rightarrow> string" where
  "q_ascii b =
     (if b = 0x22 \<or> b = 0x5C then [CHR 0x5C, char_of b]
      else if 0x20 \<le> b \<and> b \<le> 0x7E then [char_of b]
      else if b = 7 then [CHR 0x5C, CHR ''a'']
      else if b = 8 then [CHR 0x5C, CHR ''b'']
      else if b = 12 then [CHR 0x5C, CHR ''f'']
      else if b = 10 then [CHR 0x5C, CHR ''n'']
      else if b = 13 then [CHR 0x5C, CHR ''r'']
      else if b = 9 then [CHR 0x5C, CHR ''t'']
      else if b = 11 then [CHR 0x5C, CHR ''v'']
      else hex2 b)"

function q_bytes :: "(nat \<Rightarrow> bool) \<Rightarrow> nat list \<Rightarrow> string" where
  "q_bytes isPrint bs =
     (if bs = [] then ''''
      else case decode_rune bs of (r, w) \<Rightarrow>
        (if w = 1 \<and> r < 0x80 then q_ascii r
         else if w = 1 then hex2 (hd bs)
         else if isPrint r then string_of (take w bs)
         else if r < 0x10000 then hex4 r
         else hex8 r) @ q_bytes isPrint (drop w bs))"
  by pat_completeness auto
termination
proof (relation "measure (\<lambda>(p, bs). length bs)", goal_cases)
  case (2 p bs r w)
  then have "0 < w" using decode_rune_width [of bs] by (metis snd_conv)
  with 2 show ?case by simp
qed simp

declare q_bytes.simps [simp del]

definition Quote :: "(nat \<Rightarrow> bool) \<Rightarrow> string \<Rightarrow> string" where
  "Quote isPrint s = CHR 0x22 # q_bytes isPrint (bytes_of s) @ [CHR 0x22]"

section \<open>Share links\<close>

definition realityHost :: "Node \<Rightarrow> string" where
  "realityHost n =
     (if nRealityDest n = '''' \<or> nRealityServerName n = '''' \<or> nRealityPublicKey n = '''' then ''''
      else if nAddress n \<noteq> '''' then nAddress n
      else nTLSDomain n)"

definition vless_link :: "string \<Rightarrow> string \<Rightarrow> Values \<Rightarrow> string \<Rightarrow> string" where
  "vless_link uuid host q name =
     ''vless://'' @ uuid @ ''@'' @ host @ '':443?'' @ Encode q @ ''#'' @ QueryEscape name"

definition reality_query :: "Node \<Rightarrow> Values" where
  "reality_query n =
     (let q0 = fold (\<lambda>(k, v). gomap_set k v)
            [(''encryption'', ''none''), (''flow'', ''xtls-rprx-vision''), (''security'', ''reality''),
             (''sni'', nRealityServerName n), (''fp'', ''chrome''), (''pbk'', nRealityPublicKey n)] [];
          q1 = (if nRealityShortID n \<noteq> '''' then gomap_set ''sid'' (nRealityShortID n) q0 else q0)
      in gomap_set ''type'' ''tcp'' q1)"

definition tls_query :: "Node \<Rightarrow> Values" where
  "tls_query n =
     fold (\<lambda>(k, v). gomap_set k v)
       [(''encryption'', ''none''), (''flow'', ''xtls-rprx-vision''), (''security'', ''tls''),
        (''sni'', nTLSDomain n), (''fp'', ''chrome''), (''type'', ''tcp'')] []"

definition nodeLinks :: "User \<Rightarrow> Node \<Rightarrow> string list" where
  "nodeLinks u n =
     (let host = realityHost n
      in (if host \<noteq> '''' then [vless_link (uUUID u) host (reality_query n) (nName n @ ''-reality'')] else [])
         @ (if nTLSDomain n \<noteq> '''' then [vless_link (uUUID u) (nTLSDomain n) (tls_query n) (nName n @ ''-tls'')] else []))"

definition userNodesList :: "int64 \<Rightarrow> Store \<Rightarrow> User \<Rightarrow> Node list" where
  "userNodesList now s u =
     List.map_filter (\<lambda>nid. case GetNode now nid s of Inl _ \<Rightarrow> None | Inr n \<Rightarrow> Some n) (uNodeIDs u)"

text \<open>\<open>base64.StdEncoding\<close>: the unpadded form and its padding.\<close>

definition b64_padded :: "string \<Rightarrow> string" where
  "b64_padded s =
     (let e = b64_encode std_alphabet s in e @ replicate ((4 - length e mod 4) mod 4) (CHR ''=''))"

definition sub_body :: "int64 \<Rightarrow> Store \<Rightarrow> User \<Rightarrow> string" where
  "sub_body now s u = Join (concat (map (nodeLinks u) (userNodesList now s u))) [CHR 0x0A]"

definition quota_header :: "User \<Rightarrow> (string \<times> string) list" where
  "quota_header u =
     (if uDataLimit u > 0
      then [(''Subscription-Userinfo'', ''upload=0; download='' @ FormatInt (uDataUsed u) @ ''; total='' @ FormatInt (uDataLimit u)
               @ ''; expire='' @ FormatInt (uExpireAt u))]
      else [])"

definition handleSub :: handler where
  "handleSub r a =
     (case GetUserBySubToken (PathValue ''token'' r) (store a) of
        Inl _ \<Rightarrow> (HTTPError ''not found'' 404, a)
      | Inr u \<Rightarrow>
          (\<lparr>rsCode = 200, rsCookie = None,
             rsHeaders = quota_header u @ [(''Profile-Update-Interval'', ''12''), (''Content-Type'', ''text/plain; charset=utf-8'')],
             rsBody = Plain (b64_padded (sub_body (Now r) (store a) u))\<rparr>, a))"

section \<open>sing-box\<close>

definition utls :: json where
  "utls = JObj [(''enabled'', JBool True), (''fingerprint'', JStr ''chrome'')]"

definition sb_outbound :: "string \<Rightarrow> string \<Rightarrow> string \<Rightarrow> (string \<times> json) list \<Rightarrow> json" where
  "sb_outbound name host uuid tls =
     JObj [(''type'', JStr ''vless''), (''tag'', JStr name), (''server'', JStr host), (''server_port'', JNum 443),
           (''uuid'', JStr uuid), (''flow'', JStr ''xtls-rprx-vision''), (''packet_encoding'', JStr ''xudp''), (''tls'', JObj tls)]"

definition sb_node :: "User \<Rightarrow> Node \<Rightarrow> (json \<times> string) list" where
  "sb_node u n =
     (let host = realityHost n
      in (if host \<noteq> '''' then
            let name = nName n @ ''-reality''
            in [(sb_outbound name host (uUUID u)
                   [(''enabled'', JBool True), (''server_name'', JStr (nRealityServerName n)), (''utls'', utls),
                    (''reality'', JObj [(''enabled'', JBool True), (''public_key'', JStr (nRealityPublicKey n)),
                                       (''short_id'', JStr (nRealityShortID n))])], name)]
          else [])
         @ (if nTLSDomain n \<noteq> '''' then
              let name = nName n @ ''-tls''
              in [(sb_outbound name (nTLSDomain n) (uUUID u)
                     [(''enabled'', JBool True), (''server_name'', JStr (nTLSDomain n)), (''utls'', utls)], name)]
            else []))"

definition singboxOutbounds :: "int64 \<Rightarrow> Store \<Rightarrow> User \<Rightarrow> json list \<times> string list" where
  "singboxOutbounds now s u =
     (let outs = concat (map (sb_node u) (userNodesList now s u)) in (map fst outs, map snd outs))"

abbreviation strs :: "string list \<Rightarrow> json" where
  "strs xs \<equiv> JArr (map JStr xs)"

definition singbox_profile :: "json list \<Rightarrow> string list \<Rightarrow> json" where
  "singbox_profile nodeOuts names0 =
     (let names = (if names0 = [] then [''direct''] else names0)
      in JObj [(''log'', JObj [(''level'', JStr ''warn'')]),
           (''dns'', JObj [(''servers'', JArr [JObj [(''tag'', JStr ''google''), (''address'', JStr ''tls://8.8.8.8'')]])]),
           (''inbounds'', JArr [JObj [(''type'', JStr ''mixed''), (''tag'', JStr ''mixed-in''), (''listen'', JStr ''127.0.0.1''),
                                     (''listen_port'', JNum 2080)]]),
           (''outbounds'', JArr (
              [JObj [(''type'', JStr ''selector''), (''tag'', JStr ''proxy''), (''outbounds'', strs (names @ [''auto''])),
                     (''default'', JStr (hd names))],
               JObj [(''type'', JStr ''urltest''), (''tag'', JStr ''auto''), (''outbounds'', strs names),
                     (''url'', JStr ''http://www.gstatic.com/generate_204''), (''interval'', JStr ''5m'')]]
              @ nodeOuts
              @ [JObj [(''type'', JStr ''direct''), (''tag'', JStr ''direct'')],
                 JObj [(''type'', JStr ''block''), (''tag'', JStr ''block'')],
                 JObj [(''type'', JStr ''dns''), (''tag'', JStr ''dns-out'')]])),
           (''route'', JObj [(''rules'', JArr [
                JObj [(''protocol'', JStr ''dns''), (''outbound'', JStr ''dns-out'')],
                JObj [(''ip_is_private'', JBool True), (''outbound'', JStr ''direct'')]]), (''final'', JStr ''proxy'')])])"

definition handleSubSingbox :: handler where
  "handleSubSingbox r a =
     (case GetUserBySubToken (PathValue ''token'' r) (store a) of
        Inl _ \<Rightarrow> (HTTPError ''not found'' 404, a)
      | Inr u \<Rightarrow>
          (case singboxOutbounds (Now r) (store a) u of
             (nodeOuts, names) \<Rightarrow>
               (\<lparr>rsCode = 200, rsCookie = None,
                  rsHeaders = [(''Profile-Update-Interval'', ''12''), (''Content-Type'', ''application/json; charset=utf-8'')],
                  rsBody = JSON (singbox_profile nodeOuts names)\<rparr>, a)))"

section \<open>Clash\<close>

definition clash_common :: "(nat \<Rightarrow> bool) \<Rightarrow> string \<Rightarrow> string \<Rightarrow> string \<Rightarrow> string \<Rightarrow> string" where
  "clash_common isPrint name host uuid sni =
     ''- {name: '' @ Quote isPrint name @ '', type: vless, server: '' @ host @ '', port: 443, uuid: '' @ uuid
     @ '', network: tcp, udp: true, tls: true, encryption: none, flow: xtls-rprx-vision, packet-encoding: xudp, servername: ''
     @ sni @ '', client-fingerprint: chrome, skip-cert-verify: false''"

definition clash_node :: "(nat \<Rightarrow> bool) \<Rightarrow> User \<Rightarrow> Node \<Rightarrow> (string \<times> string) list" where
  "clash_node isPrint u n =
     (let host = realityHost n
      in (if host \<noteq> '''' then
            let name = nName n @ ''-reality''
            in [(clash_common isPrint name host (uUUID u) (nRealityServerName n)
                 @ '', reality-opts: {public-key: '' @ nRealityPublicKey n @ '', short-id: '' @ Quote isPrint (nRealityShortID n) @ ''}}'', name)]
          else [])
         @ (if nTLSDomain n \<noteq> '''' then
              let name = nName n @ ''-tls''
              in [(clash_common isPrint name (nTLSDomain n) (uUUID u) (nTLSDomain n) @ ''}'', name)]
            else []))"

definition clashProxies :: "(nat \<Rightarrow> bool) \<Rightarrow> int64 \<Rightarrow> Store \<Rightarrow> User \<Rightarrow> string list \<times> string list" where
  "clashProxies isPrint now s u =
     (let ps = concat (map (clash_node isPrint u) (userNodesList now s u)) in (map fst ps, map snd ps))"

definition ph_proxies :: string where "ph_proxies = ''{{PROXIES}}''"
definition ph_names :: string where "ph_names = ''{{PROXY_NAMES}}''"

definition render_line :: "string list \<Rightarrow> string list \<Rightarrow> string \<Rightarrow> string list" where
  "render_line items quoted line =
     (let trimmed = TrimSpace line;
          indent = takeWhile (\<lambda>c. c = CHR '' '' \<or> c = CHR 0x09) line
      in if trimmed = ph_proxies then map (\<lambda>it. indent @ it) items
         else if trimmed = ph_names then map (\<lambda>q. indent @ ''- '' @ q) quoted
         else if Contains line ph_names then [ReplaceAll line ph_names (Join quoted '', '')]
         else if Contains line ph_proxies then [ReplaceAll line ph_proxies (Join items '' '')]
         else [line])"

definition renderClashTemplate :: "(nat \<Rightarrow> bool) \<Rightarrow> string \<Rightarrow> string list \<Rightarrow> string list \<Rightarrow> string" where
  "renderClashTemplate isPrint tpl items names =
     (let quoted = map (Quote isPrint) names
      in Join (concat (map (render_line items quoted) (Split tpl [CHR 0x0A]))) [CHR 0x0A])"

definition clash_lines :: "string list \<Rightarrow> string \<Rightarrow> string list" where
  "clash_lines items lst =
     [''port: 7890'', ''socks-port: 7891'', ''allow-lan: true'', ''mode: rule'', ''log-level: info'', ''proxies:'']
     @ map (\<lambda>it. ''  '' @ it) items
     @ [''proxy-groups:'',
        ''  - {name: PROXY, type: select, proxies: ['' @ lst @ '']}'',
        ''  - {name: AUTO, type: url-test, url: '' @ [CHR 0x27] @ ''http://www.gstatic.com/generate_204'' @ [CHR 0x27]
          @ '', interval: 300, proxies: ['' @ lst @ '']}'',
        ''rules:'', ''  - GEOIP,private,DIRECT,no-resolve'', ''  - MATCH,PROXY'']"

definition clash_config :: "(nat \<Rightarrow> bool) \<Rightarrow> string \<Rightarrow> string list \<Rightarrow> string list \<Rightarrow> string" where
  "clash_config isPrint tpl items names0 =
     (let names = (if names0 = [] then [''DIRECT''] else names0)
      in if TrimSpace tpl \<noteq> '''' then renderClashTemplate isPrint tpl items names
         else concat (map (\<lambda>l. l @ [CHR 0x0A]) (clash_lines items (Join (map (Quote isPrint) names) '', ''))))"

definition handleSubClash :: "outside \<Rightarrow> handler" where
  "handleSubClash X r a =
     (case GetUserBySubToken (PathValue ''token'' r) (store a) of
        Inl _ \<Rightarrow> (HTTPError ''not found'' 404, a)
      | Inr u \<Rightarrow>
          (case clashProxies (oIsPrint X) (Now r) (store a) u of
             (items, names) \<Rightarrow>
               (\<lparr>rsCode = 200, rsCookie = None,
                  rsHeaders = [(''Profile-Update-Interval'', ''12''), (''Content-Type'', ''text/plain; charset=utf-8'')],
                  rsBody = Plain (clash_config (oIsPrint X) (clashTemplate a) items names)\<rparr>, a)))"

end
