(* ===== verification/Totp.thy ===== *)
theory Totp
  imports Url Sha
begin

text \<open>
  One-time codes (\<open>src/internal/panel/totp.go\<close>): unpadded base32, RFC 6238 with HMAC-SHA-1 and six
  digits, and the enrolment URL; and the key generation of \<open>src/internal/nodekey/nodekey.go\<close>, with
  X25519 (\<open>golang.org/x/crypto/curve25519\<close>) as a parameter. Random bytes are arguments.
\<close>

section \<open>Base32\<close>

fun quintets :: "nat list \<Rightarrow> nat list" where
  "quintets (a # b # c # d # e # bs) =
     [a div 8, a mod 8 * 4 + b div 64, b div 2 mod 32, b mod 2 * 16 + c div 16, c mod 16 * 2 + d div 128,
      d div 4 mod 32, d mod 4 * 8 + e div 32, e mod 32] @ quintets bs"
| "quintets [a, b, c, d] =
     [a div 8, a mod 8 * 4 + b div 64, b div 2 mod 32, b mod 2 * 16 + c div 16, c mod 16 * 2 + d div 128,
      d div 4 mod 32, d mod 4 * 8]"
| "quintets [a, b, c] =
     [a div 8, a mod 8 * 4 + b div 64, b div 2 mod 32, b mod 2 * 16 + c div 16, c mod 16 * 2]"
| "quintets [a, b] = [a div 8, a mod 8 * 4 + b div 64, b div 2 mod 32, b mod 2 * 16]"
| "quintets [a] = [a div 8, a mod 8 * 4]"
| "quintets [] = []"

text \<open>A last group of 1, 3 or 6 characters carries no byte; the decoder drops it without an error.\<close>

fun unquintets :: "nat list \<Rightarrow> nat list" where
  "unquintets (p # q # r # s # t # u # v # w # ds) =
     [p * 8 + q div 4, q mod 4 * 64 + r * 2 + s div 16, s mod 16 * 16 + t div 2,
      t mod 2 * 128 + u * 4 + v div 8, v mod 8 * 32 + w] @ unquintets ds"
| "unquintets [p, q, r, s, t, u, v] =
     [p * 8 + q div 4, q mod 4 * 64 + r * 2 + s div 16, s mod 16 * 16 + t div 2, t mod 2 * 128 + u * 4 + v div 8]"
| "unquintets [p, q, r, s, t] = [p * 8 + q div 4, q mod 4 * 64 + r * 2 + s div 16, s mod 16 * 16 + t div 2]"
| "unquintets [p, q, r, s] = [p * 8 + q div 4, q mod 4 * 64 + r * 2 + s div 16]"
| "unquintets [p, q] = [p * 8 + q div 4]"
| "unquintets _ = []"

definition b32_encode :: "string \<Rightarrow> string" where
  "b32_encode s = map (digit_char b32_alphabet) (quintets (bytes_of s))"

definition b32_decode :: "string \<Rightarrow> string option" where
  "b32_decode s =
     map_option (\<lambda>ds. string_of (unquintets ds))
       (those (map (char_digit b32_alphabet) (filter (\<lambda>c. c \<noteq> CHR 0x0A \<and> c \<noteq> CHR 0x0D) s)))"

lemma quintets_bound: "\<forall>b \<in> set bs. b < 256 \<Longrightarrow> \<forall>d \<in> set (quintets bs). d < 32"
  by (induction bs rule: quintets.induct) auto

lemma three_parts: "b div 64 * 64 + b div 2 mod 32 * 2 + b mod 2 = (b :: nat)" "d div 128 * 128 + d div 4 mod 32 * 4 + d mod 4 = (d :: nat)"
proof -
  have "b div 64 = b div 2 div 32" "d div 128 = d div 4 div 32" by (simp_all add: div_mult2_eq [symmetric])
  then show "b div 64 * 64 + b div 2 mod 32 * 2 + b mod 2 = b" "d div 128 * 128 + d div 4 mod 32 * 4 + d mod 4 = d"
    using div_mult_mod_eq [of "b div 2" 32] div_mult_mod_eq [of b 2] div_mult_mod_eq [of "d div 4" 32] div_mult_mod_eq [of d 4]
    by linarith+
qed

lemma unquintets_quintets: "\<forall>b \<in> set bs. b < 256 \<Longrightarrow> unquintets (quintets bs) = bs"
  by (induction bs rule: quintets.induct) (auto simp: three_parts)

interpretation b32: encoding b32_encode b32_decode "set b32_alphabet"
proof
  fix s
  let ?ds = "quintets (bytes_of s)"
  have bound: "\<forall>d \<in> set ?ds. d < 32" by (rule quintets_bound) simp
  then have in_al: "set (b32_encode s) \<subseteq> set b32_alphabet" by (auto simp: b32_encode_def)
  then show "set (b32_encode s) \<subseteq> set b32_alphabet" .
  have "CHR 0x0A \<notin> set b32_alphabet" "CHR 0x0D \<notin> set b32_alphabet" by (simp_all add: b32_alphabet_def)
  with in_al have "filter (\<lambda>c. c \<noteq> CHR 0x0A \<and> c \<noteq> CHR 0x0D) (b32_encode s) = b32_encode s"
    by (auto simp: filter_id_conv)
  moreover have "those (map (char_digit b32_alphabet) (b32_encode s)) = Some ?ds"
    unfolding b32_encode_def by (rule b32a.those_digits [OF bound])
  ultimately show "b32_decode (b32_encode s) = Some s"
    by (simp add: b32_decode_def unquintets_quintets)
qed

section \<open>Codes\<close>

definition newTOTPSecret :: "string \<Rightarrow> string" where
  "newTOTPSecret b = b32_encode b"

definition pad6 :: "nat \<Rightarrow> string" where
  "pad6 n = replicate (6 - length (dec_digits n)) (CHR ''0'') @ dec_digits n"

text \<open>The dynamic truncation of RFC 4226 on the 20 bytes of the MAC.\<close>

definition truncate_mac :: "nat list \<Rightarrow> nat" where
  "truncate_mac mac =
     (let off = last mac mod 16
      in (mac ! off mod 128 * 2 ^ 24 + mac ! (off + 1) * 2 ^ 16 + mac ! (off + 2) * 2 ^ 8 + mac ! (off + 3)) mod 1000000)"

definition totpCode :: "string \<Rightarrow> int64 \<Rightarrow> string option" where
  "totpCode secret t =
     map_option
       (\<lambda>key. let counter = nat (t mod 2 ^ 64 div 30)
              in pad6 (truncate_mac (bytes_of (hmac sha1 key (string_of (be64 counter))))))
       (b32_decode (ToUpper (TrimSpace secret)))"

definition totpVerify :: "int64 \<Rightarrow> string \<Rightarrow> string \<Rightarrow> bool" where
  "totpVerify now secret code0 =
     (let code = TrimSpace code0
      in length code = 6 \<and> list_ex (\<lambda>skew. totpCode secret (now + skew * 30) = Some code) [-1, 0, 1])"

definition otpauthURL :: "string \<Rightarrow> string \<Rightarrow> string \<Rightarrow> string" where
  "otpauthURL issuer account secret =
     (let label = PathEscape (issuer @ '':'' @ account);
          q = gomap_set ''period'' ''30'' (gomap_set ''digits'' ''6''
                (gomap_set ''issuer'' issuer (gomap_set ''secret'' secret [])))
      in ''otpauth://totp/'' @ label @ ''?'' @ Encode q)"

section \<open>Node keys\<close>

definition clamp :: "nat list \<Rightarrow> nat list" where
  "clamp b =
     (let b1 = b[0 := b ! 0 AND 248]; b2 = b1[31 := b1 ! 31 AND 127]
      in b2[31 := b2 ! 31 OR 64])"

text \<open>\<open>x25519 priv\<close> is \<open>curve25519.X25519(priv, Basepoint)\<close>.\<close>

definition GenerateKeypair :: "(string \<Rightarrow> string option) \<Rightarrow> string \<Rightarrow> (string \<times> string) option" where
  "GenerateKeypair x25519 rnd =
     (let priv = string_of (clamp (bytes_of rnd))
      in case x25519 priv of
           None \<Rightarrow> None
         | Some pub \<Rightarrow> Some (b64_encode url_alphabet priv, b64_encode url_alphabet pub))"

definition GenerateShortID :: "string \<Rightarrow> string" where
  "GenerateShortID b = hex_encode b"

section \<open>An enrolled secret\<close>

lemma b32_upper: "set s \<subseteq> set b32_alphabet \<Longrightarrow> ToUpper s = s"
proof -
  have "\<forall>c \<in> set b32_alphabet. upper_char c = c" by (simp add: b32_alphabet_def upper_char_def)
  then show "set s \<subseteq> set b32_alphabet \<Longrightarrow> ToUpper s = s" by (simp add: ToUpper_def map_idI subset_iff)
qed

lemma b32_printable: "c \<in> set b32_alphabet \<Longrightarrow> (0x20 :: nat) < of_char c \<and> of_char c < (0x80 :: nat)"
proof -
  have "\<forall>c \<in> set b32_alphabet. (0x20 :: nat) < of_char c \<and> of_char c < (0x80 :: nat)" by (simp add: b32_alphabet_def)
  then show "c \<in> set b32_alphabet \<Longrightarrow> (0x20 :: nat) < of_char c \<and> of_char c < (0x80 :: nat)" by blast
qed

lemma decode_secret: "b32_decode (ToUpper (TrimSpace (newTOTPSecret b))) = Some b"
proof -
  have "TrimSpace (b32_encode b) = b32_encode b"
    using b32.enc_chars [of b] b32_printable by (intro TrimSpace_printable) blast
  then show ?thesis by (simp add: newTOTPSecret_def b32_upper [OF b32.enc_chars])
qed

lemma dec_digits_length: "n < 10 ^ Suc k \<Longrightarrow> length (dec_digits n) \<le> Suc k"
proof (induction k arbitrary: n)
  case 0
  then show ?case by (subst dec_digits.simps) simp
next
  case (Suc k)
  then have "length (dec_digits (n div 10)) \<le> Suc k" by (intro Suc.IH) (simp add: less_mult_imp_div_less mult.commute)
  then show ?case by (subst dec_digits.simps) simp
qed

lemma pad6_code: "n < 1000000 \<Longrightarrow> length (pad6 n) = 6 \<and> list_all is_dec (pad6 n)"
  using dec_digits_length [of n 5] dec_digits_dec [of _ n] by (auto simp: pad6_def list_all_iff is_dec_def)

lemma truncate_mac_bound: "truncate_mac m < 1000000"
  by (simp add: truncate_mac_def Let_def)

lemma totpCode_secret: "\<exists>c. totpCode (newTOTPSecret b) t = Some c \<and> length c = 6 \<and> list_all is_dec c"
  using pad6_code [OF truncate_mac_bound] by (simp add: totpCode_def decode_secret Let_def)

text \<open>Codes depend on the 30-second window only.\<close>

lemma totpCode_window: "0 \<le> t \<Longrightarrow> in_int64 t \<Longrightarrow> 0 \<le> t' \<Longrightarrow> in_int64 t' \<Longrightarrow> t div 30 = t' div 30 \<Longrightarrow> totpCode secret t = totpCode secret t'"
  by (simp add: totpCode_def int64_defs)

text \<open>C36: after enrolment the server and an authenticator agree. For a secret that \<open>newTOTPSecret\<close> made, every
  instant has a code of exactly six decimal digits, and \<open>totpVerify\<close> accepts an entered code (up to
  surrounding white space) exactly if it is the code of some instant in the current 30-second window or
  one of the two adjacent ones: the base32 text survives trimming and upper-casing, and a code two
  windows old is refused unless the two codes coincide.\<close>

theorem totp_enrolled_codes:
  assumes "30 \<le> now" "in_int64 (now + 30)"
  shows "(totpVerify now (newTOTPSecret b) code \<longleftrightarrow>
      (\<exists>t. in_int64 t \<and> \<bar>t div 30 - now div 30\<bar> \<le> 1 \<and> totpCode (newTOTPSecret b) t = Some (TrimSpace code)))
    \<and> (\<exists>c. totpCode (newTOTPSecret b) t = Some c \<and> length c = 6 \<and> list_all is_dec c)"
proof -
  let ?code = "totpCode (newTOTPSecret b)"
  have six: "length c = 6" if "?code t = Some c" for c t
    using totpCode_secret [of b t] that by auto
  have rng: "0 \<le> now - 30" "in_int64 (now - 30)" "0 \<le> now" "in_int64 now" "0 \<le> now + 30"
    using assms by (simp_all add: int64_defs)
  have "(\<exists>t. in_int64 t \<and> \<bar>t div 30 - now div 30\<bar> \<le> 1 \<and> ?code t = Some c)
      \<longleftrightarrow> ?code (now - 30) = Some c \<or> ?code now = Some c \<or> ?code (now + 30) = Some c" for c
  proof
    assume "\<exists>t. in_int64 t \<and> \<bar>t div 30 - now div 30\<bar> \<le> 1 \<and> ?code t = Some c"
    then obtain t where t: "in_int64 t" "\<bar>t div 30 - now div 30\<bar> \<le> 1" "?code t = Some c" by blast
    have "0 \<le> t div 30" using t(2) assms(1) by linarith
    then have "0 \<le> t" by simp
    have "t div 30 = (now - 30) div 30 \<or> t div 30 = now div 30 \<or> t div 30 = (now + 30) div 30"
      using t(2) by linarith
    then have "?code t = ?code (now - 30) \<or> ?code t = ?code now \<or> ?code t = ?code (now + 30)"
      using totpCode_window [OF \<open>0 \<le> t\<close> t(1) rng(1,2)] totpCode_window [OF \<open>0 \<le> t\<close> t(1) rng(3,4)]
        totpCode_window [OF \<open>0 \<le> t\<close> t(1) rng(5) assms(2)] by blast
    with t(3) show "?code (now - 30) = Some c \<or> ?code now = Some c \<or> ?code (now + 30) = Some c" by metis
  next
    assume "?code (now - 30) = Some c \<or> ?code now = Some c \<or> ?code (now + 30) = Some c"
    moreover have "\<bar>(now - 30) div 30 - now div 30\<bar> \<le> 1" "\<bar>(now + 30) div 30 - now div 30\<bar> \<le> 1" by linarith+
    moreover have "\<bar>now div 30 - now div 30\<bar> \<le> 1" by simp
    ultimately show "\<exists>t. in_int64 t \<and> \<bar>t div 30 - now div 30\<bar> \<le> 1 \<and> ?code t = Some c"
      using assms(2) rng(2,4) by blast
  qed
  then show ?thesis using totpCode_secret [of b t] six by (auto simp: totpVerify_def Let_def)
qed

theorem totp_enrolled_codes_witness:
  "\<exists>c. totpCode (newTOTPSecret ''12345678901234567890'') 59 = Some c \<and> length c = 6
     \<and> totpVerify 59 (newTOTPSecret ''12345678901234567890'') c \<and> totpVerify 88 (newTOTPSecret ''12345678901234567890'') c"
proof -
  let ?s = "newTOTPSecret ''12345678901234567890''"
  obtain c where c: "totpCode ?s 59 = Some c" "length c = 6" "list_all is_dec c"
    using totpCode_secret by blast
  have "TrimSpace c = c"
    by (rule TrimSpace_printable) (use c(3) in \<open>auto simp: list_all_iff is_dec_def\<close>)
  then have "totpVerify n ?s c" if "n = 59 \<or> n = 88" for n
    using that totp_enrolled_codes [of n "''12345678901234567890''" c] c(1)
    by (auto simp: int64_defs intro!: exI [of _ 59])
  with c show ?thesis by blast
qed

end
