(* ===== verification/Api.thy ===== *)
theory Api
  imports Views Subscription Totp
begin

text \<open>
  The admin API of \<open>src/internal/panel/api.go\<close>, \<open>admins.go\<close> and \<open>keys.go\<close>: one handler per route. Every
  store operation of a handler is a step on \<open>store a\<close>, every \<open>syncNode\<close> a step on the hub, in the order
  of the code. The database never fails except where a constraint is violated or a row is missing.
\<close>

section \<open>Login\<close>

definition with_limiter :: "(limiter \<Rightarrow> limiter) \<Rightarrow> App \<Rightarrow> App" where
  "with_limiter f a = a\<lparr>loginLimiter := f (loginLimiter a)\<rparr>"

text \<open>\<open>blocked\<close> of the address key, then, unless that is blocked, of the name key.\<close>

definition throttled :: "int64 \<Rightarrow> string \<Rightarrow> string \<Rightarrow> App \<Rightarrow> bool \<times> App" where
  "throttled nano ipKey userKey a =
     (case blocked nano ipKey (loginLimiter a) of
        (b, l) \<Rightarrow>
          if b then (True, a\<lparr>loginLimiter := l\<rparr>)
          else (case blocked nano userKey l of (b', l') \<Rightarrow> (b', a\<lparr>loginLimiter := l'\<rparr>)))"

definition count_failure :: "int64 \<Rightarrow> string \<Rightarrow> string \<Rightarrow> App \<Rightarrow> App" where
  "count_failure nano ipKey userKey = with_limiter (\<lambda>l. fail nano userKey (fail nano ipKey l))"

definition clear_failures :: "string \<Rightarrow> string \<Rightarrow> App \<Rightarrow> App" where
  "clear_failures ipKey userKey = with_limiter (\<lambda>l. reset userKey (reset ipKey l))"

definition errTOTP :: "string \<Rightarrow> response" where
  "errTOTP msg = (writeJSON 401 JNull)\<lparr>rsBody := ErrTOTP msg\<rparr>"

definition handleLogin :: "outside \<Rightarrow> handler" where
  "handleLogin X r a =
     (case decode login_struct (rqBody r) login_zero of
        (ok, body) \<Rightarrow>
          if \<not> ok then (writeErr 400 (Literal ''bad body''), a)
          else
            let ipKey = ''ip:'' @ clientIP r; userKey = ''user:'' @ lbUsername body
            in case throttled (rqNano r) ipKey userKey a of
                 (True, a1) \<Rightarrow> (writeErr 429 (Literal ''too many attempts; try again later''), a1)
               | (False, a1) \<Rightarrow>
                   (case GetAdmin (lbUsername body) (store a1) of
                      Inl _ \<Rightarrow> (writeErr 401 (Literal ''invalid credentials''), count_failure (rqNano r) ipKey userKey a1)
                    | Inr admin \<Rightarrow>
                        if \<not> checkPassword (oExt X) (aPasswordHash admin) (lbPassword body)
                        then (writeErr 401 (Literal ''invalid credentials''), count_failure (rqNano r) ipKey userKey a1)
                        else if aTOTPEnabled admin \<and> lbCode body = '''' then (errTOTP ''2fa required'', a1)
                        else if aTOTPEnabled admin \<and> \<not> totpVerify (Now r) (aTOTPSecret admin) (lbCode body)
                        then (errTOTP ''invalid 2fa code'', count_failure (rqNano r) ipKey userKey a1)
                        else
                          let a2 = clear_failures ipKey userKey a1;
                              a3 = with_store (AddAudit (Now r) (aUsername admin) ''login'' (clientIP r)) a2;
                              tok = signSession (Now r) (JWTSecret (cfg a3)) roleAdmin (aUsername admin) (aSessionEpoch admin) 86400
                          in ((writeJSON 200 (JObj [(''username'', JStr (aUsername admin))]))
                                \<lparr>rsCookie := Some (session_cookie sessionCookie tok a3)\<rparr>, a3)))"

definition handleLogout :: handler where
  "handleLogout r a = ((writeJSON 200 okJSON)\<lparr>rsCookie := Some (expired_cookie sessionCookie a)\<rparr>, a)"

text \<open>Behind \<open>requireAuth\<close>, so the cookie is there; without one the code would panic.\<close>

definition handleMe :: "outside \<Rightarrow> handler" where
  "handleMe X r a =
     (let name = (case Cookie sessionCookie r of
                    None \<Rightarrow> ''''
                  | Some v \<Rightarrow> (case verifySession (Now r) (JWTSecret (cfg a)) v of None \<Rightarrow> '''' | Some (_, n, _) \<Rightarrow> n))
      in (writeJSON 200 (JObj [(''username'', JStr name), (''version'', JStr (oVersion X))]), a))"

definition handleLogoutAll :: handler where
  "handleLogoutAll r a =
     (case admin_of r a of
        None \<Rightarrow> (writeErr 401 (Literal ''unauthorized''), a)
      | Some adm \<Rightarrow>
          let a1 = with_store (BumpAdminSessionEpoch (aUsername adm)) a
          in ((writeJSON 200 okJSON)\<lparr>rsCookie := Some (expired_cookie sessionCookie a1)\<rparr>, a1))"

section \<open>Nodes\<close>

definition lookup0 :: "('k, int) gomap \<Rightarrow> 'k \<Rightarrow> int" where
  "lookup0 m k = (case map_of m k of None \<Rightarrow> 0 | Some v \<Rightarrow> v)"

definition node_fields :: "bool \<Rightarrow> int64 \<Rightarrow> Node \<Rightarrow> (string \<times> json) list" where
  "node_fields online clients n =
     [(''id'', JNum (nID n)), (''name'', JStr (nName n)), (''address'', JStr (nAddress n)), (''remark'', JStr (nRemark n)),
      (''online'', JBool online), (''last_seen'', JNum (nLastSeen n)), (''reality_dest'', JStr (nRealityDest n)),
      (''reality_server_name'', JStr (nRealityServerName n)), (''reality_public_key'', JStr (nRealityPublicKey n)),
      (''reality_short_id'', JStr (nRealityShortID n)), (''tls_domain'', JStr (nTLSDomain n)),
      (''agent_version'', JStr (nAgentVersion n)), (''clients'', JNum clients)]"

definition handleListNodes :: handler where
  "handleListNodes r a =
     (let online = OnlineNodeIDs a; clients = NodeClientCounts (Now r - 300) (store a)
      in ((writeJSON 200 JNull)\<lparr>rsBody := NodeList (map (\<lambda>n.
            let rate = getNodeRate (Now r) (nID n) a
            in \<lparr>nvFields = node_fields (nID n \<in> set online) (lookup0 clients (nID n)) n, nvMetrics = getNodeMetrics (nID n) a,
               nvRateTotal = tpTotal rate, nvRateUp = tpUp rate, nvRateDown = tpDown rate\<rparr>) (ListNodes (Now r) (store a)))\<rparr>, a))"

definition handleCreateNode :: handler where
  "handleCreateNode r a =
     (case decode node_struct (rqBody r) node_zero of
        (ok, n) \<Rightarrow>
          if \<not> ok then (writeErr 400 (Literal ''bad body''), a)
          else if TrimSpace (nName n) = '''' then (writeErr 400 (Literal ''name required''), a)
          else (case validateNode n of
                  Some e \<Rightarrow> (writeErr 400 (ValidateErr e), a)
                | None \<Rightarrow>
                    let n1 = n\<lparr>nToken := randToken (rqRand r 0 24)\<rparr>
                    in case CreateNode (Now r) (rqRand r 1 12) n1 (store a) of
                         Inl e \<Rightarrow> (writeErr 500 (StoreErr e), a)
                       | Inr (i, s) \<Rightarrow>
                           let a1 = audit r ''node.create'' (nName n1) (a\<lparr>store := s\<rparr>)
                           in (writeJSON 201 (node_json (n1\<lparr>nID := i\<rparr>)), a1)))"

definition handleUpdateNode :: handler where
  "handleUpdateNode r a =
     (case pathID r of
        None \<Rightarrow> (writeErr 400 (Literal ''bad id''), a)
      | Some i \<Rightarrow>
          (case GetNode (Now r) i (store a) of
             Inl _ \<Rightarrow> (writeErr 404 (Literal ''not found''), a)
           | Inr n0 \<Rightarrow>
               (case decode node_struct (rqBody r) n0 of
                  (ok, n1) \<Rightarrow>
                    if \<not> ok then (writeErr 400 (Literal ''bad body''), a)
                    else
                      let n2 = n1\<lparr>nID := i, nToken := nToken n0\<rparr>;
                          n = (if TrimSpace (nRealityPrivateKey n2) = '''' then n2\<lparr>nRealityPrivateKey := nRealityPrivateKey n0\<rparr> else n2)
                      in case validateNode n of
                           Some e \<Rightarrow> (writeErr 400 (ValidateErr e), a)
                         | None \<Rightarrow>
                             let a1 = with_store (UpdateNode (rqRand r 0 12) n) a
                             in (writeJSON 200 (node_json n), forceSyncNode (Now r) i a1))))"

definition handleDeleteNode :: handler where
  "handleDeleteNode r a =
     (case pathID r of
        None \<Rightarrow> (writeErr 400 (Literal ''bad id''), a)
      | Some i \<Rightarrow>
          (writeJSON 200 okJSON, audit r ''node.delete'' (''id='' @ FormatInt i) (with_store (DeleteNode i) a)))"

definition handleNodeInstall :: handler where
  "handleNodeInstall r a =
     (case pathID r of
        None \<Rightarrow> (writeErr 400 (Literal ''bad id''), a)
      | Some i \<Rightarrow>
          (case GetNode (Now r) i (store a) of
             Inl _ \<Rightarrow> (writeErr 404 (Literal ''not found''), a)
           | Inr n \<Rightarrow>
               let cmd = ''PANEL_URL='' @ publicURL a @ '' NODE_TOKEN='' @ nToken n @ '' DOMAIN='' @ nTLSDomain n
                           @ '' docker compose up -d --pull always''
               in (writeJSON 200 (JObj [(''token'', JStr (nToken n)), (''panel_url'', JStr (publicURL a)), (''compose_cmd'', JStr cmd)]), a)))"

section \<open>Users\<close>

definition with_eta :: "(int64, int64) gomap \<Rightarrow> User \<Rightarrow> User" where
  "with_eta avg u =
     (let d = lookup0 avg (uID u)
      in if uDataLimit u > 0 \<and> uDataUsed u < uDataLimit u \<and> d > 0
         then u\<lparr>uEtaDays := quot (wrap64 (uDataLimit u - uDataUsed u + d - 1)) d\<rparr> else u)"

text \<open>\<open>AddDate(0, 0, -n)\<close> on the local clock, which is UTC in the panel's container.\<close>

definition days_ago :: "int64 \<Rightarrow> int \<Rightarrow> int64" where
  "days_ago now n = now - n * 86400"

definition handleListUsers :: handler where
  "handleListUsers r a =
     (let counts = DeviceCounts (days_ago (Now r) 30) (store a);
          avg = RecentDailyAvg (Now r) 7 (store a);
          us = map (\<lambda>u. with_eta avg (u\<lparr>uDeviceCount := lookup0 counts (uID u)\<rparr>)) (ListUsers (store a))
      in (writeJSON 200 (slice_json user_json us), a))"

definition handleUserDevices :: handler where
  "handleUserDevices r a =
     (case pathID r of
        None \<Rightarrow> (writeErr 400 (Literal ''bad id''), a)
      | Some i \<Rightarrow> (writeJSON 200 (slice_json device_json (ListUserDevices i (store a))), a))"

definition handleCreateUser :: handler where
  "handleCreateUser r a =
     (case decode create_user_struct (rqBody r) create_user_zero of
        (ok, b) \<Rightarrow>
          if \<not> ok then (writeErr 400 (Literal ''bad body''), a)
          else
            let name = TrimSpace (cbUsername b)
            in case validateUsername name of
                 Some e \<Rightarrow> (writeErr 400 (ValidateErr e), a)
               | None \<Rightarrow>
                   if cbResetDay b < 0 \<or> cbResetDay b > 28 then (writeErr 400 (Literal ''reset_day must be 0-28''), a)
                   else
                     let u = \<lparr>uID = 0, uUsername = name, uUUID = newUUID (bytes_of (rqRand r 0 16)), uSubToken = randToken (rqRand r 1 18),
                           uDataLimit = cbDataLimit b, uDataUsed = 0, uExpireAt = cbExpireAt b,
                           uEnabled = (cbEnabled b = None \<or> cbEnabled b = Some True), uCreatedAt = 0, uNodeIDs = [],
                           uPortalPasswordHash = '''', uHasPortalPassword = False, uResetDay = cbResetDay b, uLastReset = 0,
                           uSessionEpoch = 0, uMustChangePW = False, uDeviceCount = 0, uEtaDays = 0, uNote = TrimSpace (cbNote b)\<rparr>
                     in case CreateUser (Now r) u (store a) of
                          Inl e \<Rightarrow> (writeErr 500 (StoreErr e), a)
                        | Inr (i, s) \<Rightarrow>
                            let a1 = a\<lparr>store := s\<rparr>;
                                a2 = (if cbNodeIDs b = [] then a1
                                      else syncNodes (Now r) (cbNodeIDs b) (with_store (SetUserNodes i (cbNodeIDs b)) a1))
                            in (writeJSON 201 (user_json (u\<lparr>uID := i, uNodeIDs := cbNodeIDs b\<rparr>)), audit r ''user.create'' name a2))"

definition or_old :: "'a option \<Rightarrow> 'a \<Rightarrow> 'a" where
  "or_old x old = (case x of None \<Rightarrow> old | Some v \<Rightarrow> v)"

definition handleUpdateUser :: handler where
  "handleUpdateUser r a =
     (case pathID r of
        None \<Rightarrow> (writeErr 400 (Literal ''bad id''), a)
      | Some i \<Rightarrow>
          (case GetUser i (store a) of
             Inl _ \<Rightarrow> (writeErr 404 (Literal ''not found''), a)
           | Inr u0 \<Rightarrow>
               (case decode update_user_struct (rqBody r) update_user_zero of
                  (ok, b) \<Rightarrow>
                    if \<not> ok then (writeErr 400 (Literal ''bad body''), a)
                    else if ubResetDay b \<noteq> None \<and> (the (ubResetDay b) < 0 \<or> the (ubResetDay b) > 28)
                    then (writeErr 400 (Literal ''reset_day must be 0-28''), a)
                    else
                      let u = u0\<lparr>uDataLimit := or_old (ubDataLimit b) (uDataLimit u0), uExpireAt := or_old (ubExpireAt b) (uExpireAt u0),
                               uResetDay := or_old (ubResetDay b) (uResetDay u0),
                               uNote := (case ubNote b of None \<Rightarrow> uNote u0 | Some t \<Rightarrow> TrimSpace t),
                               uEnabled := or_old (ubEnabled b) (uEnabled u0)\<rparr>
                      in (writeJSON 200 (user_json u), syncNodes (Now r) (uNodeIDs u) (with_store (UpdateUser u) a)))))"

definition handleDeleteUser :: handler where
  "handleDeleteUser r a =
     (case pathID r of
        None \<Rightarrow> (writeErr 400 (Literal ''bad id''), a)
      | Some i \<Rightarrow>
          (case GetUser i (store a) of
             Inl _ \<Rightarrow> (writeErr 404 (Literal ''not found''), a)
           | Inr u \<Rightarrow>
               (writeJSON 200 okJSON,
                audit r ''user.delete'' (uUsername u) (syncNodes (Now r) (uNodeIDs u) (with_store (DeleteUser i) a)))))"

definition handleSetUserNodes :: handler where
  "handleSetUserNodes r a =
     (case pathID r of
        None \<Rightarrow> (writeErr 400 (Literal ''bad id''), a)
      | Some i \<Rightarrow>
          (case GetUser i (store a) of
             Inl _ \<Rightarrow> (writeErr 404 (Literal ''not found''), a)
           | Inr u \<Rightarrow>
               (case decode node_ids_struct (rqBody r) create_user_zero of
                  (ok, b) \<Rightarrow>
                    if \<not> ok then (writeErr 400 (Literal ''bad body''), a)
                    else
                      let a1 = with_store (SetUserNodes i (cbNodeIDs b)) a;
                          touched = remdups (uNodeIDs u @ cbNodeIDs b)
                      in (writeJSON 200 (JObj [(''node_ids'', slice_json JNum (cbNodeIDs b))]), syncNodes (Now r) touched a1))))"

definition handleResetUserTraffic :: handler where
  "handleResetUserTraffic r a =
     (case pathID r of
        None \<Rightarrow> (writeErr 400 (Literal ''bad id''), a)
      | Some i \<Rightarrow>
          let a1 = with_store (ResetUserTraffic i) a
          in (writeJSON 200 okJSON,
              case GetUser i (store a1) of Inl _ \<Rightarrow> a1 | Inr u \<Rightarrow> syncNodes (Now r) (uNodeIDs u) a1))"

definition handleRotateSub :: handler where
  "handleRotateSub r a =
     (case pathID r of
        None \<Rightarrow> (writeErr 400 (Literal ''bad id''), a)
      | Some i \<Rightarrow>
          (case GetUser i (store a) of
             Inl _ \<Rightarrow> (writeErr 404 (Literal ''not found''), a)
           | Inr _ \<Rightarrow>
               let tok = randToken (rqRand r 0 18)
               in case SetUserSubToken i tok (store a) of
                    Inl e \<Rightarrow> (writeErr 500 (StoreErr e), a)
                  | Inr s \<Rightarrow>
                      (writeJSON 200 (JObj [(''sub_token'', JStr tok), (''sub_url'', JStr (publicURL a @ ''/sub/'' @ tok))]),
                       audit r ''user.rotate_sub'' (''id='' @ FormatInt i) (a\<lparr>store := s\<rparr>))))"

definition handleRotateUUID :: handler where
  "handleRotateUUID r a =
     (case pathID r of
        None \<Rightarrow> (writeErr 400 (Literal ''bad id''), a)
      | Some i \<Rightarrow>
          (case GetUser i (store a) of
             Inl _ \<Rightarrow> (writeErr 404 (Literal ''not found''), a)
           | Inr u \<Rightarrow>
               let uuid = newUUID (bytes_of (rqRand r 0 16))
               in (writeJSON 200 (JObj [(''uuid'', JStr uuid)]),
                   audit r ''user.rotate_uuid'' (uUsername u)
                     (syncNodes (Now r) (uNodeIDs u) (with_store (SetUserUUID i uuid) a)))))"

definition query_days :: "request \<Rightarrow> int" where
  "query_days r =
     (let q = QueryGet ''days'' r
      in if q = '''' then 30 else (case Atoi q of None \<Rightarrow> 30 | Some n \<Rightarrow> if n > 0 \<and> n \<le> 365 then n else 30))"

definition handleUserTrafficHistory :: handler where
  "handleUserTrafficHistory r a =
     (case pathID r of
        None \<Rightarrow> (writeErr 400 (Literal ''bad id''), a)
      | Some i \<Rightarrow> (writeJSON 200 (JArr (map daily_json (TrafficHistory (Now r) i (query_days r) (store a)))), a))"

definition sum_split :: "NodeUsage list \<Rightarrow> TrafficSplit" where
  "sum_split us = fold (\<lambda>n t. \<lparr>tsUp = wrap64 (tsUp t + nuUp n), tsDown = wrap64 (tsDown t + nuDown n)\<rparr>) us \<lparr>tsUp = 0, tsDown = 0\<rparr>"

definition handleStats :: handler where
  "handleStats r a =
     (let nodeAgg = NodeTrafficTotals (store a);
          userAgg = UserTrafficTotals (store a);
          period = PeriodTotals (Now r) (store a);
          trend = FleetDaily (Now r) (query_days r) (store a)
      in (writeJSON 200 (JObj
            [(''total'', split_json (sum_split nodeAgg)), (''today'', split_json (psToday period)), (''month'', split_json (psMonth period)),
             (''trend'', JArr (map daily_json trend)), (''nodes'', slice_json usage_json nodeAgg),
             (''users'', JObj (map (\<lambda>(u, t). (FormatInt u, split_json t)) userAgg))]), a))"

definition handleNodeTrafficHistory :: handler where
  "handleNodeTrafficHistory r a =
     (case pathID r of
        None \<Rightarrow> (writeErr 400 (Literal ''bad id''), a)
      | Some i \<Rightarrow> (writeJSON 200 (JArr (map daily_json (NodeDaily (Now r) i (query_days r) (store a)))), a))"

definition handleUserTrafficNodes :: handler where
  "handleUserTrafficNodes r a =
     (case pathID r of
        None \<Rightarrow> (writeErr 400 (Literal ''bad id''), a)
      | Some i \<Rightarrow> (writeJSON 200 (slice_json usage_json (UserTrafficByNode i (store a))), a))"

definition handleSetPortalPassword :: "outside \<Rightarrow> handler" where
  "handleSetPortalPassword X r a =
     (case pathID r of
        None \<Rightarrow> (writeErr 400 (Literal ''bad id''), a)
      | Some i \<Rightarrow>
          (case GetUser i (store a) of
             Inl _ \<Rightarrow> (writeErr 404 (Literal ''not found''), a)
           | Inr _ \<Rightarrow>
               (case decode portal_password_struct (rqBody r) login_zero of
                  (ok, b) \<Rightarrow>
                    if \<not> ok then (writeErr 400 (Literal ''bad body''), a)
                    else
                      let pw = TrimSpace (lbPassword b)
                      in if pw = '''' then
                           (writeJSON 200 (JObj [(''has_portal_password'', JBool False)]),
                            with_store (BumpUserSessionEpoch i) (with_store (SetUserPortalPassword i '''' False) a))
                         else if \<not> validatePasswordStrength (oExt X) pw then (writeErr 400 WeakPassword, a)
                         else (case hashPassword (oExt X) (rqRand r 0 16) pw of
                                 None \<Rightarrow> (writeErr 500 HashErr, a)
                               | Some hash \<Rightarrow>
                                   (writeJSON 200 (JObj [(''has_portal_password'', JBool True)]),
                                    with_store (BumpUserSessionEpoch i) (with_store (SetUserPortalPassword i hash True) a))))))"

definition handleUserSubInfo :: handler where
  "handleUserSubInfo r a =
     (case pathID r of
        None \<Rightarrow> (writeErr 400 (Literal ''bad id''), a)
      | Some i \<Rightarrow>
          (case GetUser i (store a) of
             Inl _ \<Rightarrow> (writeErr 404 (Literal ''not found''), a)
           | Inr u \<Rightarrow> (writeJSON 200 (JObj [(''sub_url'', JStr (publicURL a @ ''/sub/'' @ uSubToken u))]), a)))"

section \<open>Admins\<close>

definition handleListAdmins :: handler where
  "handleListAdmins r a = (writeJSON 200 (slice_json JStr (ListAdmins (store a))), a)"

definition handleCreateAdmin :: "outside \<Rightarrow> handler" where
  "handleCreateAdmin X r a =
     (case decode credentials_struct (rqBody r) login_zero of
        (ok, b) \<Rightarrow>
          if \<not> ok then (writeErr 400 (Literal ''bad body''), a)
          else
            let name = TrimSpace (lbUsername b)
            in case validateUsername name of
                 Some e \<Rightarrow> (writeErr 400 (ValidateErr e), a)
               | None \<Rightarrow>
                   if \<not> validatePasswordStrength (oExt X) (lbPassword b) then (writeErr 400 WeakPassword, a)
                   else (case GetAdmin name (store a) of
                           Inr _ \<Rightarrow> (writeErr 409 (Literal ''admin already exists''), a)
                         | Inl _ \<Rightarrow>
                             (case hashPassword (oExt X) (rqRand r 0 16) (lbPassword b) of
                                None \<Rightarrow> (writeErr 500 HashErr, a)
                              | Some hash \<Rightarrow>
                                  (case CreateAdmin name hash (store a) of
                                     Inl e \<Rightarrow> (writeErr 500 (StoreErr e), a)
                                   | Inr s \<Rightarrow>
                                       (writeJSON 201 (JObj [(''username'', JStr name)]),
                                        audit r ''admin.create'' name (a\<lparr>store := s\<rparr>))))))"

definition handleDeleteAdmin :: handler where
  "handleDeleteAdmin r a =
     (let username = PathValue ''username'' r
      in if CountAdmins (store a) \<le> 1 then (writeErr 400 (Literal ''cannot delete the last admin''), a)
         else
           (writeJSON 200 okJSON,
            audit r ''admin.delete'' username
              (with_store (BumpAdminSessionEpoch username) (with_store (DeleteAdmin username) a))))"

definition handleChangeAdminPassword :: "outside \<Rightarrow> handler" where
  "handleChangeAdminPassword X r a =
     (let username = PathValue ''username'' r
      in case GetAdmin username (store a) of
           Inl _ \<Rightarrow> (writeErr 404 (Literal ''not found''), a)
         | Inr _ \<Rightarrow>
             (case decode password_struct (rqBody r) login_zero of
                (ok, b) \<Rightarrow>
                  if \<not> ok then (writeErr 400 (Literal ''bad body''), a)
                  else if \<not> validatePasswordStrength (oExt X) (lbPassword b) then (writeErr 400 WeakPassword, a)
                  else (case hashPassword (oExt X) (rqRand r 0 16) (lbPassword b) of
                          None \<Rightarrow> (writeErr 500 HashErr, a)
                        | Some hash \<Rightarrow>
                            (writeJSON 200 okJSON,
                             audit r ''admin.password'' username (with_store (SetAdminPassword username hash) a)))))"

definition handleListAudit :: handler where
  "handleListAudit r a = (writeJSON 200 (JArr (map audit_json (ListAudit 100 (store a)))), a)"

section \<open>Keys\<close>

definition handleRealityKeys :: "outside \<Rightarrow> handler" where
  "handleRealityKeys X r a =
     (case GenerateKeypair (oX25519 X) (rqRand r 0 32) of
        None \<Rightarrow> (writeErr 500 KeyErr, a)
      | Some (priv, pub) \<Rightarrow>
          (writeJSON 200 (JObj [(''private_key'', JStr priv), (''public_key'', JStr pub),
             (''short_id'', JStr (GenerateShortID (rqRand r 1 8)))]), a))"

end
