(* ===== verification/Accounts.thy ===== *)
theory Accounts
  imports Api
begin

text \<open>
  The account handlers of the panel: two-factor enrolment (\<open>src/internal/panel/twofa.go\<close>), the self-service
  portal (\<open>portal.go\<close>), live settings (\<open>settings.go\<close>) and Telegram settings (\<open>notify.go\<close>), the daily
  snapshot (\<open>backup.go\<close>) and the recovery command (\<open>reset.go\<close>).
\<close>

section \<open>Two-factor authentication\<close>

definition handle2FAStatus :: handler where
  "handle2FAStatus r a =
     (case admin_of r a of
        None \<Rightarrow> (writeErr 401 (Literal ''unauthorized''), a)
      | Some adm \<Rightarrow>
          (writeJSON 200 (JObj [(''enabled'', JBool (aTOTPEnabled adm)),
             (''pending'', JBool (\<not> aTOTPEnabled adm \<and> aTOTPSecret adm \<noteq> ''''))]), a))"

definition handle2FASetup :: handler where
  "handle2FASetup r a =
     (case admin_of r a of
        None \<Rightarrow> (writeErr 401 (Literal ''unauthorized''), a)
      | Some adm \<Rightarrow>
          if aTOTPEnabled adm then (writeErr 400 (Literal ''2fa already enabled; disable it first''), a)
          else
            let secret = newTOTPSecret (rqRand r 0 20)
            in (writeJSON 200 (JObj [(''secret'', JStr secret), (''otpauth_url'', JStr (otpauthURL ''Xuanwu'' (aUsername adm) secret))]),
                with_store (SetAdminTOTP (rqRand r 1 12) (aUsername adm) secret False) a))"

definition handle2FAVerify :: handler where
  "handle2FAVerify r a =
     (case admin_of r a of
        None \<Rightarrow> (writeErr 401 (Literal ''unauthorized''), a)
      | Some adm \<Rightarrow>
          (case decode code_struct (rqBody r) login_zero of
             (ok, b) \<Rightarrow>
               if \<not> ok then (writeErr 400 (Literal ''bad body''), a)
               else if aTOTPSecret adm = '''' \<or> \<not> totpVerify (Now r) (aTOTPSecret adm) (lbCode b)
               then (writeErr 400 (Literal ''invalid code''), a)
               else
                 (writeJSON 200 (JObj [(''enabled'', JBool True)]),
                  audit r ''2fa.enable'' (aUsername adm)
                    (with_store (SetAdminTOTP (rqRand r 0 12) (aUsername adm) (aTOTPSecret adm) True) a))))"

text \<open>The error of the decoder is ignored: what it had decoded is the code.\<close>

definition handle2FADisable :: handler where
  "handle2FADisable r a =
     (case admin_of r a of
        None \<Rightarrow> (writeErr 401 (Literal ''unauthorized''), a)
      | Some adm \<Rightarrow>
          (case decode code_struct (rqBody r) login_zero of
             (_, b) \<Rightarrow>
               if aTOTPEnabled adm \<and> \<not> totpVerify (Now r) (aTOTPSecret adm) (lbCode b)
               then (writeErr 400 (Literal ''invalid code''), a)
               else
                 (writeJSON 200 (JObj [(''enabled'', JBool False)]),
                  audit r ''2fa.disable'' (aUsername adm)
                    (with_store (SetAdminTOTP (rqRand r 0 12) (aUsername adm) '''' False) a))))"

definition png :: "outside \<Rightarrow> string \<Rightarrow> response" where
  "png X text =
     (case oQR X text of
        None \<Rightarrow> HTTPError ''qr'' 500
      | Some img \<Rightarrow> \<lparr>rsCode = 200, rsCookie = None, rsHeaders = [(''Content-Type'', ''image/png''), (''Cache-Control'', ''no-store'')],
                       rsBody = PNG img\<rparr>)"

definition handle2FAQR :: "outside \<Rightarrow> handler" where
  "handle2FAQR X r a =
     (case admin_of r a of
        None \<Rightarrow> (HTTPError ''no secret'' 404, a)
      | Some adm \<Rightarrow>
          if aTOTPSecret adm = '''' then (HTTPError ''no secret'' 404, a)
          else (png X (otpauthURL ''Xuanwu'' (aUsername adm) (aTOTPSecret adm)), a))"

section \<open>Portal\<close>

text \<open>The hash a login for no account is compared with.\<close>

definition dummy_hash :: string where
  "dummy_hash = ''$2a$10$invalidinvalidinvalidinvalidinvalidinvalidinvalidinvalidin''"

definition portal_session :: "request \<Rightarrow> int64 \<Rightarrow> int64 \<Rightarrow> App \<Rightarrow> cookie" where
  "portal_session r uid epoch a =
     session_cookie portalCookie (signSession (Now r) (JWTSecret (cfg a)) roleUser (FormatInt uid) epoch 86400) a"

definition handlePortalLogin :: "outside \<Rightarrow> handler" where
  "handlePortalLogin X r a =
     (case decode credentials_struct (rqBody r) login_zero of
        (ok, b) \<Rightarrow>
          if \<not> ok then (writeErr 400 (Literal ''bad body''), a)
          else
            let ipKey = ''pip:'' @ clientIP r; userKey = ''puser:'' @ lbUsername b
            in case throttled (rqNano r) ipKey userKey a of
                 (True, a1) \<Rightarrow> (writeErr 429 (Literal ''too many attempts; try again later''), a1)
               | (False, a1) \<Rightarrow>
                   let u = GetUserByName (lbUsername b) (store a1);
                       hash = (case u of Inl _ \<Rightarrow> dummy_hash
                               | Inr v \<Rightarrow> if uPortalPasswordHash v \<noteq> '''' then uPortalPasswordHash v else dummy_hash);
                       match = checkPassword (oExt X) hash (lbPassword b)
                   in (case u of
                         Inl _ \<Rightarrow> (writeErr 401 (Literal ''invalid credentials''), count_failure (rqNano r) ipKey userKey a1)
                       | Inr v \<Rightarrow>
                           if \<not> match \<or> uPortalPasswordHash v = ''''
                           then (writeErr 401 (Literal ''invalid credentials''), count_failure (rqNano r) ipKey userKey a1)
                           else
                             let a2 = clear_failures ipKey userKey a1
                             in ((writeJSON 200 (JObj [(''username'', JStr (uUsername v))]))
                                   \<lparr>rsCookie := Some (portal_session r (uID v) (uSessionEpoch v) a2)\<rparr>, a2)))"

definition handlePortalLogout :: handler where
  "handlePortalLogout r a = ((writeJSON 200 okJSON)\<lparr>rsCookie := Some (expired_cookie portalCookie a)\<rparr>, a)"

definition handlePortalMe :: handler where
  "handlePortalMe r a =
     (case user_of r a of
        None \<Rightarrow> (writeErr 401 (Literal ''unauthorized''), a)
      | Some u \<Rightarrow>
          let base = publicURL a @ ''/sub/'' @ uSubToken u;
              ns = map (\<lambda>n. JObj [(''name'', JStr (nName n)), (''links'', slice_json JStr (nodeLinks u n))])
                     (userNodesList (Now r) (store a) u)
          in (writeJSON 200 (JObj
                [(''username'', JStr (uUsername u)), (''enabled'', JBool (uEnabled u)), (''active'', JBool (active u (Now r))),
                 (''data_used'', JNum (uDataUsed u)), (''data_limit'', JNum (uDataLimit u)), (''expire_at'', JNum (uExpireAt u)),
                 (''must_change'', JBool (uMustChangePW u)), (''nodes'', JArr ns), (''sub_url'', JStr base),
                 (''clash_url'', JStr (base @ ''/clash'')), (''singbox_url'', JStr (base @ ''/singbox''))]), a))"

text \<open>The strength of the trimmed password is checked, the password as entered is hashed.\<close>

definition handlePortalChangePassword :: "outside \<Rightarrow> handler" where
  "handlePortalChangePassword X r a =
     (case user_of r a of
        None \<Rightarrow> (writeErr 401 (Literal ''unauthorized''), a)
      | Some u \<Rightarrow>
          (case decode new_password_struct (rqBody r) login_zero of
             (ok, b) \<Rightarrow>
               if \<not> ok then (writeErr 400 (Literal ''bad body''), a)
               else if \<not> validatePasswordStrength (oExt X) (TrimSpace (lbPassword b)) then (writeErr 400 WeakPassword, a)
               else (case hashPassword (oExt X) (rqRand r 0 16) (lbPassword b) of
                       None \<Rightarrow> (writeErr 500 HashErr, a)
                     | Some hash \<Rightarrow>
                         let a1 = with_store (ChangeUserPortalPassword (uID u) hash) a
                         in (case GetUser (uID u) (store a1) of
                               Inl e \<Rightarrow> (writeErr 500 (StoreErr e), a1)
                             | Inr fresh \<Rightarrow>
                                 ((writeJSON 200 okJSON)\<lparr>rsCookie := Some (portal_session r (uID u) (uSessionEpoch fresh) a1)\<rparr>, a1)))))"

definition handlePortalQR :: "outside \<Rightarrow> handler" where
  "handlePortalQR X r a =
     (case user_of r a of
        None \<Rightarrow> (HTTPError ''unauthorized'' 401, a)
      | Some u \<Rightarrow>
          (png X (publicURL a @ ''/sub/'' @ uSubToken u @ (if QueryGet ''t'' r = ''clash'' then ''/clash'' else '''')), a))"

section \<open>Settings\<close>

definition with_live :: "(liveSettings \<Rightarrow> liveSettings) \<Rightarrow> App \<Rightarrow> App" where
  "with_live f a = a\<lparr>live := f (live a)\<rparr>"

definition handleGetSettings :: handler where
  "handleGetSettings r a =
     (writeJSON 200 (JObj [(''public_url'', JStr (lsPublicURL (live a))), (''cookie_secure'', JStr (lsCookieSecure (live a))),
        (''backup_keep'', JNum (lsBackupKeep (live a))), (''clash_template'', JStr (lsClashTemplate (live a)))]), a)"

definition TrimRightSlash :: "string \<Rightarrow> string" where
  "TrimRightSlash s = rev (dropWhile (\<lambda>c. c = CHR ''/'') (rev s))"

definition clean_url :: "string \<Rightarrow> string" where
  "clean_url v = TrimRightSlash (TrimSpace v)"

definition url_ok :: "string \<Rightarrow> bool" where
  "url_ok pub \<longleftrightarrow> pub = '''' \<or> HasPrefix pub ''http://'' \<or> HasPrefix pub ''https://''"

definition clean_mode :: "string \<Rightarrow> string" where
  "clean_mode v = ToLower (TrimSpace v)"

definition mode_ok :: "string \<Rightarrow> bool" where
  "mode_ok m \<longleftrightarrow> m = ''auto'' \<or> m = ''on'' \<or> m = ''off''"

definition clamp_keep :: "int \<Rightarrow> int" where
  "clamp_keep n = (let k = (if n < 0 then 0 else n) in if k > 365 then 365 else k)"

definition set_url :: "string option \<Rightarrow> App \<Rightarrow> App" where
  "set_url v a = (case v of None \<Rightarrow> a | Some s \<Rightarrow>
     with_store (SetSetting ''public_url'' (clean_url s)) (with_live (\<lambda>l. l\<lparr>lsPublicURL := clean_url s\<rparr>) a))"

definition set_mode :: "string option \<Rightarrow> App \<Rightarrow> App" where
  "set_mode v a = (case v of None \<Rightarrow> a | Some s \<Rightarrow>
     with_store (SetSetting ''cookie_secure'' (clean_mode s)) (with_live (\<lambda>l. l\<lparr>lsCookieSecure := clean_mode s\<rparr>) a))"

definition set_keep :: "int64 option \<Rightarrow> App \<Rightarrow> App" where
  "set_keep v a = (case v of None \<Rightarrow> a | Some n \<Rightarrow>
     with_store (SetSetting ''backup_keep'' (FormatInt (clamp_keep n))) (with_live (\<lambda>l. l\<lparr>lsBackupKeep := clamp_keep n\<rparr>) a))"

definition unix_lines :: "string \<Rightarrow> string" where
  "unix_lines s = ReplaceAll s [CHR 0x0D, CHR 0x0A] [CHR 0x0A]"

definition set_template :: "string option \<Rightarrow> App \<Rightarrow> App" where
  "set_template v a = (case v of None \<Rightarrow> a | Some s \<Rightarrow>
     with_store (SetSetting ''clash_template'' (unix_lines s)) (with_live (\<lambda>l. l\<lparr>lsClashTemplate := unix_lines s\<rparr>) a))"

definition handlePutSettings :: handler where
  "handlePutSettings r a =
     (case decode settings_struct (rqBody r) settings_zero of
        (ok, b) \<Rightarrow>
          if \<not> ok then (writeErr 400 (Literal ''bad body''), a)
          else if sbPublicURL b \<noteq> None \<and> \<not> url_ok (clean_url (the (sbPublicURL b)))
          then (writeErr 400 (Literal ''public_url must start with http:// or https://''), a)
          else if sbCookieSecure b \<noteq> None \<and> \<not> mode_ok (clean_mode (the (sbCookieSecure b)))
          then (writeErr 400 (Literal ''cookie_secure must be auto, on or off''), a)
          else
            let a1 = set_template (sbClashTemplate b) (set_keep (sbBackupKeep b) (set_mode (sbCookieSecure b) (set_url (sbPublicURL b) a)))
            in handleGetSettings r (audit r ''settings.update'' '''' a1))"

section \<open>Telegram\<close>

definition handleNotifyStatus :: handler where
  "handleNotifyStatus r a =
     (case currentTelegram a of (token, adms) \<Rightarrow>
        (writeJSON 200 (JObj [(''enabled'', JBool (token \<noteq> '''' \<and> adms \<noteq> [])), (''has_token'', JBool (token \<noteq> '''')),
           (''admin_ids'', JArr (map JNum adms)),
           (''events'', strs [''node offline'', ''node back online'', ''user disabled / over quota / expired''])]), a))"

definition handleNotifySettings :: handler where
  "handleNotifySettings r a =
     (case decode notify_struct (rqBody r) notify_zero of
        (ok, b) \<Rightarrow>
          if \<not> ok then (writeErr 400 (Literal ''bad body''), a)
          else
            let newToken = (case tbToken b of None \<Rightarrow> fst (currentTelegram a) | Some t \<Rightarrow> TrimSpace t);
                a1 = (if tbToken b = None then a else with_store (SetSecretSetting (rqRand r 0 12) ''telegram_token'' newToken) a);
                adms = parseIDList (tbAdminIDs b);
                a2 = with_store (SetSetting ''telegram_admin_ids'' (tbAdminIDs b)) a1;
                a3 = restartBot (setTelegram newToken adms a2);
                a4 = audit r ''telegram.settings''
                       (''token_set='' @ (if newToken \<noteq> '''' then ''true'' else ''false'') @ '' admins='' @ FormatInt (int (length adms))) a3
            in handleNotifyStatus r a4)"

definition handleNotifyTest :: handler where
  "handleNotifyTest r a =
     (if \<not> notifyEnabled a
      then (writeErr 400 (Literal ''telegram not configured (set a bot token and at least one admin chat id)''), a)
      else (writeJSON 200 okJSON, notifyAdmins TestNotice a))"

section \<open>Snapshots\<close>

text \<open>The steps of a download that can fail; the clock is UTC.\<close>

datatype backup_io = TempFails | VacuumFails | OpenFails | Copied

definition compact_day :: "int \<Rightarrow> string" where
  "compact_day n = (case civil n of (y, m, d) \<Rightarrow> pad 4 (nat y) @ pad 2 (nat m) @ pad 2 (nat d))"

definition compact_time :: "int64 \<Rightarrow> string" where
  "compact_time t = (let s = nat (t mod 86400) in pad 2 (s div 3600) @ pad 2 (s div 60 mod 60) @ pad 2 (s mod 60))"

definition handleBackup :: "backup_io \<Rightarrow> handler" where
  "handleBackup outcome r a =
     (case outcome of
        TempFails \<Rightarrow> (writeErr 500 OSErr, a)
      | VacuumFails \<Rightarrow> (writeErr 500 BackupErr, a)
      | OpenFails \<Rightarrow> (writeErr 500 OSErr, a)
      | Copied \<Rightarrow>
          let name = ''panel-'' @ compact_day (unix_day (Now r)) @ ''-'' @ compact_time (Now r) @ ''.db''
          in (\<lparr>rsCode = 200, rsCookie = None,
                 rsHeaders = [(''Content-Type'', ''application/octet-stream''),
                   (''Content-Disposition'', ''attachment; filename='' @ [CHR 0x22] @ name @ [CHR 0x22])],
                 rsBody = Database (store a)\<rparr>, a))"

text \<open>
  One run of \<open>backupLoop\<close> on the directory, given as the snapshot names in it with their contents;
  \<open>None\<close> for \<open>copy\<close> is a \<open>VACUUM INTO\<close> that failed. \<open>today\<close> is \<open>time.Now().Format("20060102")\<close> and files with
  other names are not listed.
\<close>

type_synonym 'f dir = "(string, 'f) gomap"

definition snapshot_name :: "string \<Rightarrow> string" where
  "snapshot_name today = ''panel-'' @ today @ ''.db''"

definition backup_tick :: "string \<Rightarrow> 'f option \<Rightarrow> int \<Rightarrow> 'f dir \<Rightarrow> 'f dir" where
  "backup_tick today copy keep files =
     (if keep \<le> 0 then files
      else
        let name = snapshot_name today; files1 = gomap_delete name files
        in case copy of
             None \<Rightarrow> files1
           | Some db \<Rightarrow>
               let files2 = gomap_set name db files1;
                   entries = sort (map fst files2);
                   excess = (if int (length entries) > keep then take (length entries - nat keep) entries else [])
               in fold gomap_delete excess files2)"

section \<open>Recovery\<close>

datatype reset_error =
    BadSecrets secrets_error
  | ResetHash
  | ResetStore store_error

definition ResetAdmin :: "externs \<Rightarrow> (string \<Rightarrow> aead) \<Rightarrow> int64 \<Rightarrow> string \<Rightarrow> string \<Rightarrow> Config \<Rightarrow> bool \<Rightarrow> Store \<Rightarrow> reset_error + Store" where
  "ResetAdmin X derive now salt nonce c clear2FA s0 =
     (case validateSecrets X c of
        Some e \<Rightarrow> Inl (BadSecrets e)
      | None \<Rightarrow>
          let s1 = s0\<lparr>crypt := newCrypter derive (JWTSecret c)\<rparr>
          in (case hashPassword X salt (AdminPass c) of
                None \<Rightarrow> Inl ResetHash
              | Some hash \<Rightarrow>
                  (case (case GetAdmin (AdminUser c) s1 of
                           Inl ErrNoRows \<Rightarrow> CreateAdmin (AdminUser c) hash s1
                         | Inl e \<Rightarrow> Inl e
                         | Inr _ \<Rightarrow> Inr (SetAdminPassword (AdminUser c) hash s1)) of
                     Inl e \<Rightarrow> Inl (ResetStore e)
                   | Inr s2 \<Rightarrow>
                       let s3 = (if clear2FA then SetAdminTOTP nonce (AdminUser c) '''' False s2 else s2)
                       in Inr (AddAudit now ''cli'' ''admin.reset'' (AdminUser c) s3))))"

end
