(* ===== verification/Routes.thy ===== *)
theory Routes
  imports Accounts
begin

text \<open>
  The request multiplexer of the panel (\<open>Run\<close> in \<open>src/internal/panel/app.go\<close>): every route with its method,
  its path pattern and whether \<open>requireAuth\<close> wraps its handler, and the headers of \<open>middleware.go\<close>. The
  websocket endpoint is \<open>handleWS\<close> of \<open>Hub\<close> and not listed. The patterns do not overlap, apart from the
  catch-all of the embedded files, so the first match is the one \<open>http.ServeMux\<close> chooses; a \<open>GET\<close>
  pattern also serves \<open>HEAD\<close>.
\<close>

section \<open>Patterns\<close>

definition is_var :: "string \<Rightarrow> bool" where
  "is_var p \<longleftrightarrow> HasPrefix p ''{''"

fun match_segs :: "string list \<Rightarrow> string list \<Rightarrow> (string \<times> string) list option" where
  "match_segs [] [] = Some []"
| "match_segs (p # ps) (s # ss) =
     (if is_var p then (if s = '''' then None else map_option (\<lambda>vs. (drop 1 (butlast p), s) # vs) (match_segs ps ss))
      else if p = s then match_segs ps ss else None)"
| "match_segs _ _ = None"

record route =
  rtMethod :: string
  rtPattern :: "string list"
  rtGuarded :: bool
  rtHandler :: handler

definition matches :: "request \<Rightarrow> route \<Rightarrow> bool" where
  "matches r rt \<longleftrightarrow>
     (rtMethod rt = rqMethod r \<or> rtMethod rt = ''GET'' \<and> rqMethod r = ''HEAD'') \<and> match_segs (rtPattern rt) (rqPath r) \<noteq> None"

definition public :: "string \<Rightarrow> string list \<Rightarrow> handler \<Rightarrow> route" where
  "public m p h = \<lparr>rtMethod = m, rtPattern = p, rtGuarded = False, rtHandler = h\<rparr>"

definition guarded :: "string \<Rightarrow> string list \<Rightarrow> handler \<Rightarrow> route" where
  "guarded m p h = \<lparr>rtMethod = m, rtPattern = p, rtGuarded = True, rtHandler = h\<rparr>"

section \<open>The table\<close>

definition healthz :: handler where
  "healthz r a = (\<lparr>rsCode = 200, rsCookie = None, rsHeaders = [(''Content-Type'', ''text/plain'')], rsBody = Plain ''ok''\<rparr>, a)"

text \<open>Whatever \<open>http.FileServer\<close> answers for an embedded file.\<close>

definition asset :: "string list \<Rightarrow> response" where
  "asset p = \<lparr>rsCode = 200, rsCookie = None, rsHeaders = [], rsBody = Asset p\<rparr>"

definition handlePortalPage :: handler where
  "handlePortalPage r a = ((asset [''portal.html''])\<lparr>rsHeaders := [(''Content-Type'', ''text/html; charset=utf-8'')]\<rparr>, a)"

definition public_routes :: "outside \<Rightarrow> route list" where
  "public_routes X =
     [public ''GET'' [''healthz''] healthz,
      public ''POST'' [''api'', ''login''] (handleLogin X),
      public ''POST'' [''api'', ''logout''] handleLogout,
      public ''GET'' [''sub'', ''{token}''] handleSub,
      public ''GET'' [''sub'', ''{token}'', ''clash''] (handleSubClash X),
      public ''GET'' [''sub'', ''{token}'', ''singbox''] handleSubSingbox,
      public ''GET'' [''portal''] handlePortalPage,
      public ''POST'' [''api'', ''portal'', ''login''] (handlePortalLogin X),
      public ''POST'' [''api'', ''portal'', ''logout''] handlePortalLogout,
      public ''GET'' [''api'', ''portal'', ''me''] handlePortalMe,
      public ''POST'' [''api'', ''portal'', ''change-password''] (handlePortalChangePassword X),
      public ''GET'' [''api'', ''portal'', ''qr''] (handlePortalQR X)]"

definition admin_routes :: "outside \<Rightarrow> backup_io \<Rightarrow> route list" where
  "admin_routes X io =
     [guarded ''POST'' [''api'', ''logout-all''] handleLogoutAll,
      guarded ''GET'' [''api'', ''me''] (handleMe X),
      guarded ''GET'' [''api'', ''stats''] handleStats,
      guarded ''GET'' [''api'', ''nodes''] handleListNodes,
      guarded ''POST'' [''api'', ''nodes''] handleCreateNode,
      guarded ''PUT'' [''api'', ''nodes'', ''{id}''] handleUpdateNode,
      guarded ''DELETE'' [''api'', ''nodes'', ''{id}''] handleDeleteNode,
      guarded ''GET'' [''api'', ''nodes'', ''{id}'', ''install''] handleNodeInstall,
      guarded ''GET'' [''api'', ''nodes'', ''{id}'', ''traffic-history''] handleNodeTrafficHistory,
      guarded ''POST'' [''api'', ''reality-keys''] (handleRealityKeys X),
      guarded ''GET'' [''api'', ''backup''] (handleBackup io),
      guarded ''GET'' [''api'', ''2fa''] handle2FAStatus,
      guarded ''POST'' [''api'', ''2fa'', ''setup''] handle2FASetup,
      guarded ''POST'' [''api'', ''2fa'', ''verify''] handle2FAVerify,
      guarded ''POST'' [''api'', ''2fa'', ''disable''] handle2FADisable,
      guarded ''GET'' [''api'', ''2fa'', ''qr''] (handle2FAQR X),
      guarded ''GET'' [''api'', ''admins''] handleListAdmins,
      guarded ''POST'' [''api'', ''admins''] (handleCreateAdmin X),
      guarded ''DELETE'' [''api'', ''admins'', ''{username}''] handleDeleteAdmin,
      guarded ''POST'' [''api'', ''admins'', ''{username}'', ''password''] (handleChangeAdminPassword X),
      guarded ''GET'' [''api'', ''audit''] handleListAudit,
      guarded ''GET'' [''api'', ''notify''] handleNotifyStatus,
      guarded ''PUT'' [''api'', ''notify''] handleNotifySettings,
      guarded ''POST'' [''api'', ''notify'', ''test''] handleNotifyTest,
      guarded ''GET'' [''api'', ''settings''] handleGetSettings,
      guarded ''PUT'' [''api'', ''settings''] handlePutSettings,
      guarded ''GET'' [''api'', ''users''] handleListUsers,
      guarded ''POST'' [''api'', ''users''] handleCreateUser,
      guarded ''PUT'' [''api'', ''users'', ''{id}''] handleUpdateUser,
      guarded ''DELETE'' [''api'', ''users'', ''{id}''] handleDeleteUser,
      guarded ''POST'' [''api'', ''users'', ''{id}'', ''nodes''] handleSetUserNodes,
      guarded ''POST'' [''api'', ''users'', ''{id}'', ''reset-traffic''] handleResetUserTraffic,
      guarded ''GET'' [''api'', ''users'', ''{id}'', ''sub''] handleUserSubInfo,
      guarded ''GET'' [''api'', ''users'', ''{id}'', ''traffic-history''] handleUserTrafficHistory,
      guarded ''GET'' [''api'', ''users'', ''{id}'', ''traffic-nodes''] handleUserTrafficNodes,
      guarded ''GET'' [''api'', ''users'', ''{id}'', ''devices''] handleUserDevices,
      guarded ''POST'' [''api'', ''users'', ''{id}'', ''rotate-sub''] handleRotateSub,
      guarded ''POST'' [''api'', ''users'', ''{id}'', ''rotate-uuid''] handleRotateUUID,
      guarded ''POST'' [''api'', ''users'', ''{id}'', ''portal-password''] (handleSetPortalPassword X)]"

definition sq :: "string \<Rightarrow> string" where
  "sq s = CHR 0x27 # s @ [CHR 0x27]"

definition securityHeaders :: "response \<Rightarrow> response" where
  "securityHeaders rs = rs\<lparr>rsHeaders :=
     [(''X-Content-Type-Options'', ''nosniff''), (''X-Frame-Options'', ''DENY''), (''Referrer-Policy'', ''no-referrer''),
      (''Content-Security-Policy'', Join [''default-src '' @ sq ''self'', ''img-src '' @ sq ''self'' @ '' data:'',
         ''style-src '' @ sq ''self'' @ '' '' @ sq ''unsafe-inline'', ''script-src '' @ sq ''self'', ''connect-src '' @ sq ''self'',
         ''frame-ancestors '' @ sq ''none'', ''base-uri '' @ sq ''self'', ''form-action '' @ sq ''self''] ''; '')]
     @ rsHeaders rs\<rparr>"

definition run_route :: "route \<Rightarrow> handler" where
  "run_route rt r a =
     (let r' = r\<lparr>rqVars := the (match_segs (rtPattern rt) (rqPath r))\<rparr>
      in if rtGuarded rt then authenticated (rtHandler rt) r' a else rtHandler rt r' a)"

definition serve :: "outside \<Rightarrow> backup_io \<Rightarrow> handler" where
  "serve X io r a =
     (case find (matches r) (public_routes X @ admin_routes X io) of
        Some rt \<Rightarrow> (case run_route rt r a of (rs, a') \<Rightarrow> (securityHeaders rs, a'))
      | None \<Rightarrow>
          (securityHeaders (if rqMethod r = ''GET'' \<or> rqMethod r = ''HEAD'' then asset (rqPath r)
                            else HTTPError ''Method Not Allowed'' 405), a))"

end
