(* ===== verification/Float64.thy ===== *)
theory Float64
  imports Complex_Main "HOL-Library.Log_Nat"
begin

text \<open>
  Go's \<open>float64\<close> for the percentages the agent reports: a positive number is a rational, and every
  conversion, quotient and product is rounded to 53 significant bits, half to even. The values here stay
  between \<open>2 ^ -63\<close> and \<open>2 ^ 70\<close>, so neither overflow nor subnormal numbers occur.
\<close>

definition pow2 :: "int \<Rightarrow> rat" where
  "pow2 k = (if 0 \<le> k then 2 ^ nat k else 1 / 2 ^ nat (- k))"

definition round_even :: "rat \<Rightarrow> int" where
  "round_even x =
     (let f = \<lfloor>x\<rfloor>; d = x - of_int f
      in if d < 1 / 2 then f else if d > 1 / 2 then f + 1 else if even f then f else f + 1)"

text \<open>The scaling that brings a positive number into the range of a 53-bit significand, estimated from the
  bit lengths of numerator and denominator and corrected by one.\<close>

definition scale :: "rat \<Rightarrow> int" where
  "scale x =
     (case quotient_of x of (a, b) \<Rightarrow>
        let k = 52 - (int (floorlog 2 (nat a)) - int (floorlog 2 (nat b)))
        in if x * pow2 k < 2 ^ 52 then k + 1 else k)"

definition fl :: "rat \<Rightarrow> rat" where
  "fl x = (if x \<le> 0 then 0 else of_int (round_even (x * pow2 (scale x))) / pow2 (scale x))"

section \<open>Rounding\<close>

lemma pow2_pos [simp]: "0 < pow2 k" "0 \<le> pow2 k" "pow2 k \<noteq> 0"
  by (simp_all add: pow2_def)

lemma pow2_Suc: "pow2 (k + 1) = 2 * pow2 k"
proof (cases "0 \<le> k")
  case True
  then have "nat (k + 1) = Suc (nat k)" by simp
  with True show ?thesis by (simp add: pow2_def)
next
  case False
  then have "nat (- k) = Suc (nat (- (k + 1)))" by simp
  with False show ?thesis by (cases "k = - 1") (simp_all add: pow2_def)
qed

lemma pow2_0 [simp]: "pow2 0 = 1"
  by (simp add: pow2_def)

lemma pow2_mono: "j \<le> k \<Longrightarrow> pow2 j \<le> pow2 k"
proof (induction k rule: int_ge_induct)
  case (step i)
  then show ?case using pow2_pos(1) [of i] unfolding pow2_Suc by linarith
qed simp

lemma pow2_add_nat: "pow2 (j + int n) = pow2 j * 2 ^ n"
proof (induction n)
  case (Suc n)
  have "pow2 (j + int (Suc n)) = pow2 ((j + int n) + 1)" by (simp add: algebra_simps)
  with Suc show ?case by (simp only: pow2_Suc) simp
qed simp

lemma pow2_add: "pow2 (j + k) = pow2 j * pow2 k"
proof (cases "0 \<le> k")
  case True
  with pow2_add_nat [of j "nat k"] show ?thesis by (simp add: pow2_def [of k])
next
  case False
  with pow2_add_nat [of "j + k" "nat (- k)"] have "pow2 j = pow2 (j + k) * 2 ^ nat (- k)" by simp
  with False show ?thesis by (simp add: pow2_def [of k])
qed

lemma pow2_nat: "pow2 (int n) = 2 ^ n"
  using pow2_add_nat [of 0 n] by simp

lemma round_even_mono: "x \<le> y \<Longrightarrow> round_even x \<le> round_even y"
proof -
  assume le: "x \<le> y"
  show ?thesis
  proof (cases "\<lfloor>x\<rfloor> = \<lfloor>y\<rfloor>")
    case True
    with le show ?thesis by (auto simp: round_even_def Let_def)
  next
    case False
    with floor_mono [OF le] have "\<lfloor>x\<rfloor> + 1 \<le> \<lfloor>y\<rfloor>" by simp
    moreover have "round_even x \<le> \<lfloor>x\<rfloor> + 1" "\<lfloor>y\<rfloor> \<le> round_even y" by (simp_all add: round_even_def Let_def)
    ultimately show ?thesis by simp
  qed
qed

lemma round_even_int: "round_even (of_int n) = n"
  by (simp add: round_even_def)

lemma round_even_le: "x \<le> of_int n \<Longrightarrow> round_even x \<le> n"
  using round_even_mono [of x "of_int n"] by (simp add: round_even_int)

lemma round_even_ge: "of_int n \<le> x \<Longrightarrow> n \<le> round_even x"
  using round_even_mono [of "of_int n" x] by (simp add: round_even_int)

lemma bitlen_bounds: "0 < a \<Longrightarrow> pow2 (int (floorlog 2 (nat a)) - 1) \<le> of_int a \<and> of_int a < pow2 (int (floorlog 2 (nat a)))"
proof -
  assume a: "0 < a"
  define n where "n = floorlog 2 (nat a)"
  have n: "0 < n" using a by (simp add: n_def floorlog_def)
  have "2 ^ (n - 1) \<le> nat a" "nat a < 2 ^ n"
    using floorlog_bounds [of "nat a" 2] a by (simp_all add: n_def)
  then have "int (2 ^ (n - 1)) \<le> int (nat a)" "int (nat a) < int (2 ^ n)" by (simp_all only: of_nat_le_iff of_nat_less_iff)
  then have "(2::int) ^ (n - 1) \<le> a" "a < 2 ^ n" using a by simp_all
  then have "(2::rat) ^ (n - 1) \<le> of_int a" "of_int a < (2::rat) ^ n"
    by (metis of_int_le_iff of_int_numeral of_int_power, metis of_int_less_iff of_int_numeral of_int_power)
  moreover have "pow2 (int n - 1) = 2 ^ (n - 1)" using n pow2_nat [of "n - 1"] by (simp add: of_nat_diff)
  ultimately show ?thesis by (simp add: n_def [symmetric] pow2_nat)
qed

lemma scale_range:
  assumes "0 < x"
  shows "2 ^ 52 \<le> x * pow2 (scale x) \<and> x * pow2 (scale x) < 2 ^ 53"
proof -
  obtain a b where q: "quotient_of x = (a, b)" by fastforce
  have b: "0 < b" using quotient_of_denom_pos [OF q] .
  have x: "x = of_int a / of_int b" using quotient_of_div [OF q] .
  with assms b have a: "0 < a" by (simp add: zero_less_divide_iff)
  define la lb where "la = int (floorlog 2 (nat a))" "lb = int (floorlog 2 (nat b))"
  have A: "pow2 (la - 1) \<le> of_int a" "of_int a < pow2 la" and B: "pow2 (lb - 1) \<le> of_int b" "of_int b < pow2 lb"
    using bitlen_bounds [OF a] bitlen_bounds [OF b] by (simp_all add: la_lb_def)
  define k where "k = 52 - (la - lb)"
  have bpos: "(0::rat) < of_int b" using b by simp
  have p52: "(2::rat) ^ 52 = pow2 52" "(2::rat) ^ 51 = pow2 51" "(2::rat) ^ 53 = pow2 53" using pow2_nat [of 52] pow2_nat [of 51] pow2_nat [of 53] by simp_all
  have "x * pow2 k < pow2 la / pow2 (lb - 1) * pow2 k"
    unfolding x using a A(2) B(1) by (intro mult_strict_right_mono frac_less) auto
  also have "\<dots> = pow2 53"
  proof -
    have "pow2 la * pow2 k = pow2 53 * pow2 (lb - 1)" unfolding pow2_add [symmetric] by (simp add: k_def)
    then show ?thesis by (simp add: field_simps)
  qed
  finally have hi: "x * pow2 k < 2 ^ 53" by (simp only: p52)
  have "pow2 51 = pow2 (la - 1) / pow2 lb * pow2 k"
  proof -
    have "pow2 (la - 1) * pow2 k = pow2 51 * pow2 lb" unfolding pow2_add [symmetric] by (simp add: k_def)
    then show ?thesis by (simp add: field_simps)
  qed
  also have "\<dots> \<le> x * pow2 k"
    unfolding x using a A(1) B(2) bpos by (intro mult_right_mono frac_le) (auto intro: less_imp_le)
  finally have lo: "2 ^ 51 \<le> x * pow2 k" by (simp only: p52)
  have "scale x = (if x * pow2 k < 2 ^ 52 then k + 1 else k)"
    by (simp add: scale_def q la_lb_def k_def)
  with hi lo show ?thesis by (auto simp: pow2_Suc)
qed

lemma fl_pos_eq: "0 < x \<Longrightarrow> fl x = of_int (round_even (x * pow2 (scale x))) / pow2 (scale x)"
  by (simp add: fl_def)

lemma fl_nonneg: "0 \<le> fl x"
proof (cases "x \<le> 0")
  case False
  then have "(0::int) \<le> round_even (x * pow2 (scale x))" by (intro round_even_ge) (simp add: less_imp_le)
  then show ?thesis by (simp add: fl_def divide_nonneg_pos)
qed (simp add: fl_def)

lemma scale_antimono: "0 < x \<Longrightarrow> x \<le> y \<Longrightarrow> scale y \<le> scale x"
proof (rule ccontr)
  assume x: "0 < x" "x \<le> y" and "\<not> scale y \<le> scale x"
  then have "pow2 (scale x + 1) \<le> pow2 (scale y)" by (intro pow2_mono) simp
  then have "x * (2 * pow2 (scale x)) \<le> y * pow2 (scale y)"
    unfolding pow2_Suc using x by (intro mult_mono) auto
  with scale_range [OF x(1)] scale_range [of y] x show False by simp
qed

lemma fl_mono: "x \<le> y \<Longrightarrow> fl x \<le> fl y"
proof (cases "x \<le> 0")
  case True
  then show ?thesis using fl_nonneg by (simp add: fl_def)
next
  case False
  assume le: "x \<le> y"
  from False have x: "0 < x" and y: "0 < y" using le by auto
  show ?thesis
  proof (cases "scale x = scale y")
    case True
    have "round_even (x * pow2 (scale y)) \<le> round_even (y * pow2 (scale y))"
      using le by (intro round_even_mono) simp
    with x y True show ?thesis by (simp add: fl_pos_eq divide_right_mono less_imp_le)
  next
    case False
    with scale_antimono [OF x le] have "scale y + 1 \<le> scale x" by simp
    then have p: "2 * pow2 (scale y) \<le> pow2 (scale x)" unfolding pow2_Suc [symmetric] by (rule pow2_mono)
    have "round_even (x * pow2 (scale x)) \<le> 2 ^ 53" using scale_range [OF x] by (intro round_even_le) simp
    then have "of_int (round_even (x * pow2 (scale x))) \<le> (2 ^ 53 :: rat)" by (metis of_int_le_iff of_int_numeral of_int_power)
    then have "fl x \<le> 2 ^ 53 / pow2 (scale x)" using x by (simp add: fl_pos_eq divide_right_mono less_imp_le)
    also have "\<dots> \<le> 2 ^ 53 / (2 * pow2 (scale y))" using p by (intro divide_left_mono) auto
    also have "\<dots> = 2 ^ 52 / pow2 (scale y)" by simp
    also have "\<dots> \<le> fl y"
    proof -
      have "2 ^ 52 \<le> round_even (y * pow2 (scale y))" using scale_range [OF y] by (intro round_even_ge) simp
      then have "(2 ^ 52 :: rat) \<le> of_int (round_even (y * pow2 (scale y)))" by (metis of_int_le_iff of_int_numeral of_int_power)
      then show ?thesis using y by (simp add: fl_pos_eq divide_right_mono less_imp_le)
    qed
    finally show ?thesis .
  qed
qed

text \<open>Small integers are exact.\<close>

lemma fl_1: "fl 1 = 1" and fl_100: "fl 100 = 100"
  by code_simp+

end
