(* ===== verification/Bot.thy ===== *)
theory Bot
  imports Api Float64
begin

text \<open>
  The Telegram bot of \<open>src/internal/panel/bot.go\<close>: the commands an authorised chat can run, and the polling
  loop as a fold over the updates it receives. A reply is queued on \<open>replies\<close>. What a command draws from
  outside comes in a \<open>request\<close>, of which only the clock and the random bytes are used.
\<close>

section \<open>Texts\<close>

definition dash :: string where "dash = [CHR 0xE2, CHR 0x80, CHR 0x94]"
definition arrow :: string where "arrow = [CHR 0xE2, CHR 0x86, CHR 0x92]"
definition infinity :: string where "infinity = [CHR 0xE2, CHR 0x88, CHR 0x9E]"
definition nl :: string where "nl = [CHR 0x0A]"

definition botHelp :: string where
  "botHelp = Join [''Xuanwu panel bot commands:'',
     ''/users '' @ dash @ '' list users'',
     ''/nodes '' @ dash @ '' list nodes'',
     ''/adduser <name> [limitGB] [days] '' @ dash @ '' create user'',
     ''/deluser <name>'',
     ''/enable <name> | /disable <name>'',
     ''/traffic <name>'',
     ''/reset <name> '' @ dash @ '' reset traffic counter'',
     ''/sub <name> '' @ dash @ '' show subscription link''] nl"

text \<open>\<open>fmt.Sprintf("%.1f", f)\<close> for a non-negative number.\<close>

definition format1 :: "rat \<Rightarrow> string" where
  "format1 f = (let d = nat (round_even (f * 10)) in dec_digits (d div 10) @ ''.'' @ dec_digits (d mod 10))"

function unit_loop :: "nat \<Rightarrow> rat \<Rightarrow> nat \<times> rat" where
  "unit_loop i f = (if i < 4 \<and> f \<ge> 1024 then unit_loop (i + 1) (f / 1024) else (i, f))"
  by pat_completeness auto
termination
  by (relation "measure (\<lambda>(i, f). 4 - i)") auto

declare unit_loop.simps [simp del]

definition units :: "string list" where
  "units = [''B'', ''KB'', ''MB'', ''GB'', ''TB'']"

definition fmtBytes :: "int64 \<Rightarrow> string" where
  "fmtBytes n =
     (case unit_loop 0 (fl (of_int n)) of
        (i, f) \<Rightarrow> if i = 0 then FormatInt n @ '' B'' else format1 f @ '' '' @ units ! i)"

definition limit_text :: "User \<Rightarrow> string" where
  "limit_text u = (if uDataLimit u > 0 then fmtBytes (uDataLimit u) else infinity)"

section \<open>Reading commands\<close>

definition botListUsers :: "Store \<Rightarrow> string" where
  "botListUsers s =
     (let us = ListUsers s
      in if us = [] then ''no users''
         else concat (map (\<lambda>u. uUsername u @ '' ['' @ (if uEnabled u then ''on'' else ''off'') @ ''] '' @ fmtBytes (uDataUsed u) @ ''/''
                                @ limit_text u @ nl) us))"

definition botListNodes :: "int64 \<Rightarrow> App \<Rightarrow> string" where
  "botListNodes now a =
     (let ns = ListNodes now (store a)
      in if ns = [] then ''no nodes''
         else concat (map (\<lambda>n. nName n @ '' ('' @ nAddress n @ '') '' @ dash @ '' ''
                                @ (if nID n \<in> set (OnlineNodeIDs a) then ''online'' else ''offline'') @ nl) ns))"

definition botTraffic :: "string list \<Rightarrow> Store \<Rightarrow> string" where
  "botTraffic args s =
     (case args of
        [] \<Rightarrow> ''usage: /traffic <name>''
      | name # _ \<Rightarrow>
          (case GetUserByName name s of
             Inl _ \<Rightarrow> ''user not found''
           | Inr u \<Rightarrow> uUsername u @ '': '' @ fmtBytes (uDataUsed u) @ '' / '' @ limit_text u @ '' used''))"

definition botSub :: "string list \<Rightarrow> App \<Rightarrow> string" where
  "botSub args a =
     (case args of
        [] \<Rightarrow> ''usage: /sub <name>''
      | name # _ \<Rightarrow>
          (case GetUserByName name (store a) of
             Inl _ \<Rightarrow> ''user not found''
           | Inr u \<Rightarrow> publicURL a @ ''/sub/'' @ uSubToken u))"

section \<open>Numbers in commands\<close>

text \<open>
  \<open>int64(gb * (1 << 30))\<close> for \<open>strconv.ParseFloat\<close> in decimal notation, with \<open>inf\<close> and \<open>nan\<close>; the
  hexadecimal notation is not covered. A value that does not fit converts to the smallest \<open>int64\<close>, as on
  amd64 (Go leaves it open).
\<close>

definition sign_of :: "string \<Rightarrow> bool \<times> string" where
  "sign_of s = (case s of [] \<Rightarrow> (False, []) | c # cs \<Rightarrow> if c = CHR ''-'' then (True, cs) else if c = CHR ''+'' then (False, cs) else (False, s))"

definition exponent_of :: "string \<Rightarrow> (string \<times> int) option" where
  "exponent_of s =
     (let m = takeWhile (\<lambda>c. c \<noteq> CHR ''e'' \<and> c \<noteq> CHR ''E'') s; r = drop (length m) s
      in case r of
           [] \<Rightarrow> Some (m, 0)
         | _ # x \<Rightarrow> (case sign_of x of (neg, ds) \<Rightarrow>
             if ds \<noteq> [] \<and> list_all is_dec ds then Some (m, if neg then - int (dec_value ds) else int (dec_value ds)) else None))"

definition decimal :: "string \<Rightarrow> rat option" where
  "decimal s =
     (case exponent_of s of
        None \<Rightarrow> None
      | Some (m, e) \<Rightarrow>
          (case Cut m (CHR ''.'') of (a, b, _) \<Rightarrow>
             if (a @ b) \<noteq> [] \<and> list_all is_dec (a @ b)
             then Some (of_nat (dec_value (a @ b)) * (if e \<ge> int (length b) then 10 ^ nat (e - int (length b)) else 1 / 10 ^ nat (int (length b) - e)))
             else None))"

definition max_float :: rat where
  "max_float = (2 ^ 53 - 1) * 2 ^ 971"

definition to_limit :: "bool \<Rightarrow> rat \<Rightarrow> int64" where
  "to_limit neg f = (let v = \<lfloor>f * 2 ^ 30\<rfloor>; w = (if neg then - v else v) in if in_int64 w then w else min_int64)"

definition gb_limit :: "string \<Rightarrow> int64 option" where
  "gb_limit s =
     (case sign_of s of (neg, t) \<Rightarrow>
        if ToLower t = ''inf'' \<or> ToLower t = ''infinity'' then Some min_int64
        else if ToLower s = ''nan'' then Some min_int64
        else (case decimal t of
                None \<Rightarrow> None
              | Some x \<Rightarrow> if fl x > max_float then None else Some (to_limit neg (fl x))))"

text \<open>\<open>time.Now().Add(time.Duration(days) * 24 * time.Hour).Unix()\<close>: durations are nanoseconds in an \<open>int64\<close>.\<close>

definition expiry :: "int64 \<Rightarrow> int \<Rightarrow> int64" where
  "expiry nano days = (nano + wrap64 (wrap64 (days * 24) * 3600000000000)) div 1000000000"

section \<open>Writing commands\<close>

text \<open>A reply is a text, \<open>error: \<close> with the text of an error, or none because the handler panicked.\<close>

datatype reply = Text string | Failed error_text | Panic

definition botAddUser :: "request \<Rightarrow> string list \<Rightarrow> App \<Rightarrow> reply \<times> App" where
  "botAddUser r args a =
     (case args of
        [] \<Rightarrow> (Text ''usage: /adduser <name> [limitGB] [days]'', a)
      | name # rest \<Rightarrow>
          (case validateUsername name of
             Some e \<Rightarrow> (Failed (ValidateErr e), a)
           | None \<Rightarrow>
               (case GetUserByName name (store a) of
                  Inr _ \<Rightarrow> (Text ''user already exists'', a)
                | Inl _ \<Rightarrow>
                    let limit = (case rest of [] \<Rightarrow> 0 | g # _ \<Rightarrow> (case gb_limit g of None \<Rightarrow> 0 | Some l \<Rightarrow> l));
                        expire = (case rest of
                                    _ # d # _ \<Rightarrow> (case Atoi d of None \<Rightarrow> 0 | Some n \<Rightarrow> if n > 0 then expiry (rqNano r) n else 0)
                                  | _ \<Rightarrow> 0);
                        u = \<lparr>uID = 0, uUsername = name, uUUID = newUUID (bytes_of (rqRand r 0 16)), uSubToken = randToken (rqRand r 1 18),
                             uDataLimit = limit, uDataUsed = 0, uExpireAt = expire, uEnabled = True, uCreatedAt = 0, uNodeIDs = [],
                             uPortalPasswordHash = '''', uHasPortalPassword = False, uResetDay = 0, uLastReset = 0,
                             uSessionEpoch = 0, uMustChangePW = False, uDeviceCount = 0, uEtaDays = 0, uNote = ''''\<rparr>
                    in (case CreateUser (Now r) u (store a) of
                          Inl e \<Rightarrow> (Failed (StoreErr e), a)
                        | Inr (i, s) \<Rightarrow>
                            let a1 = a\<lparr>store := s\<rparr>;
                                ids = map nID (ListNodes (Now r) s);
                                a2 = (if ids = [] then a1 else syncNodes (Now r) ids (with_store (SetUserNodes i ids) a1))
                            in (Text (''added '' @ name @ nl @ ''sub: '' @ publicURL a @ ''/sub/'' @ uSubToken u), a2)))))"

datatype action = Del | Enable | Disable | Reset

definition action_word :: "action \<Rightarrow> string" where
  "action_word ac = (case ac of Del \<Rightarrow> ''del'' | Enable \<Rightarrow> ''enable'' | Disable \<Rightarrow> ''disable'' | Reset \<Rightarrow> ''reset'')"

definition botMutateUser :: "int64 \<Rightarrow> string list \<Rightarrow> action \<Rightarrow> App \<Rightarrow> reply \<times> App" where
  "botMutateUser now args ac a =
     (case args of
        [] \<Rightarrow> (Text (''usage: /'' @ action_word ac @ '' <name>''), a)
      | name # _ \<Rightarrow>
          (case GetUserByName name (store a) of
             Inl _ \<Rightarrow> (Text ''user not found'', a)
           | Inr v \<Rightarrow>
               (case GetUser (uID v) (store a) of
                  Inl _ \<Rightarrow> (Panic, a)
                | Inr u \<Rightarrow>
                    let a1 = (case ac of
                                Del \<Rightarrow> with_store (DeleteUser (uID u)) a
                              | Enable \<Rightarrow> with_store (UpdateUser (u\<lparr>uEnabled := True\<rparr>)) a
                              | Disable \<Rightarrow> with_store (UpdateUser (u\<lparr>uEnabled := False\<rparr>)) a
                              | Reset \<Rightarrow> with_store (ResetUserTraffic (uID u)) a)
                    in (Text (action_word ac @ '' ok: '' @ name), syncNodes now (uNodeIDs u) a1))))"

section \<open>Dispatch\<close>

definition botExec :: "request \<Rightarrow> string \<Rightarrow> string list \<Rightarrow> App \<Rightarrow> reply \<times> App" where
  "botExec r cmd args a =
     (if cmd = ''start'' \<or> cmd = ''help'' then (Text botHelp, a)
      else if cmd = ''users'' then (Text (botListUsers (store a)), a)
      else if cmd = ''nodes'' then (Text (botListNodes (Now r) a), a)
      else if cmd = ''adduser'' then botAddUser r args a
      else if cmd = ''deluser'' then botMutateUser (Now r) args Del a
      else if cmd = ''enable'' then botMutateUser (Now r) args Enable a
      else if cmd = ''disable'' then botMutateUser (Now r) args Disable a
      else if cmd = ''reset'' then botMutateUser (Now r) args Reset a
      else if cmd = ''traffic'' then (Text (botTraffic args (store a)), a)
      else if cmd = ''sub'' then (Text (botSub args a), a)
      else (Text ''unknown command; /help'', a))"

definition command_of :: "string \<Rightarrow> string" where
  "command_of w = takeWhile (\<lambda>c. c \<noteq> CHR ''@'') (ToLower (if HasPrefix w ''/'' then drop 1 w else w))"

text \<open>The texts sent, with the chat each goes to.\<close>

type_synonym replies = "(int64 \<times> reply) list"

definition botHandle :: "request \<Rightarrow> int64 \<Rightarrow> string \<Rightarrow> replies \<times> App \<Rightarrow> replies \<times> App" where
  "botHandle r chatID text st =
     (case st of (sent, a) \<Rightarrow>
        if \<not> botAuthorized chatID a
        then (sent @ [(chatID, Text (''Unauthorized. Your chat id is '' @ FormatInt chatID @ ''; add it in the panel (Security '' @ arrow @ '' Telegram).''))], a)
        else (case Fields text of
                [] \<Rightarrow> (sent, a)
              | w # args \<Rightarrow> (case botExec r (command_of w) args a of (t, a') \<Rightarrow> (sent @ [(chatID, t)], a'))))"

record tgUpdate =
  UpdateID :: int64
  Message :: "(string \<times> int64) option"

text \<open>One answer of \<open>getUpdates\<close> with what each command draws; the state is the offset of the next poll.\<close>

definition bot_update :: "request \<times> tgUpdate \<Rightarrow> int64 \<times> replies \<times> App \<Rightarrow> int64 \<times> replies \<times> App" where
  "bot_update ru st =
     (case ru of (r, u) \<Rightarrow>
        (case st of (offset, st') \<Rightarrow>
           (wrap64 (UpdateID u + 1),
            case Message u of None \<Rightarrow> st' | Some (text, chat) \<Rightarrow> if text = '''' then st' else botHandle r chat text st')))"

definition poll :: "(request \<times> tgUpdate) list option \<Rightarrow> int64 \<times> replies \<times> App \<Rightarrow> int64 \<times> replies \<times> App" where
  "poll answer st = (case answer of None \<Rightarrow> st | Some us \<Rightarrow> fold bot_update us st)"

end
