(* ===== verification/Ids.thy ===== *)
theory Ids
  imports Validate Auth Totp
begin

text \<open>
  The identifiers the program makes up: user UUIDs (\<open>newUUID\<close> of \<open>src/internal/panel/auth.go\<close>; the agent's
  \<open>genUUID\<close> is the same function), REALITY keys and short ids (\<open>src/internal/nodekey/nodekey.go\<close>). They have the form the rest of
  the program relies on, and the random bytes are not thinned out beyond the bits the formats fix.
\<close>

section \<open>Fixing bits of a byte\<close>

lemma and_or_bits:
  fixes x :: nat
  assumes "n \<le> m"
  shows "(x AND mask n) OR 2 ^ m = x mod 2 ^ n + 2 ^ m"
proof -
  have "take_bit n x + 2 ^ m = take_bit n x OR 2 ^ m"
    using assms by (intro disjunctive_add) (auto simp: bit_take_bit_iff bit_exp_iff)
  then show ?thesis by (simp add: take_bit_eq_mask [symmetric] take_bit_eq_mod)
qed

lemma version_byte: "(x AND 0x0f) OR 0x40 = x mod 16 + (64 :: nat)"
  using and_or_bits [of 4 6 x] by (simp add: mask_eq_exp_minus_1)

lemma variant_byte: "(x AND 0x3f) OR 0x80 = x mod 64 + (128 :: nat)"
  using and_or_bits [of 6 7 x] by (simp add: mask_eq_exp_minus_1)

section \<open>UUIDs\<close>

definition is_hex_digit :: "char \<Rightarrow> bool" where
  "is_hex_digit c \<longleftrightarrow> c \<in> set hex_alphabet"

text \<open>The text form of an RFC 4122 identifier of version 4.\<close>

definition uuid_v4 :: "string \<Rightarrow> bool" where
  "uuid_v4 s \<longleftrightarrow> length s = 36 \<and> (\<forall>i < 36. if i \<in> {8, 13, 18, 23} then s ! i = CHR ''-'' else is_hex_digit (s ! i))
     \<and> s ! 14 = CHR ''4'' \<and> s ! 19 \<in> set ''89ab''"

lemma hex_digit_ok: "i < 16 \<Longrightarrow> is_hex_digit (digit_char hex_alphabet i)"
  by (simp add: is_hex_digit_def)

lemma list16:
  assumes "length b = 16"
  obtains b0 b1 b2 b3 b4 b5 b6 b7 b8 b9 ba bb bc bd be bf where "b = [b0, b1, b2, b3, b4, b5, b6, b7, b8, b9, ba, bb, bc, bd, be, bf]"
  using assms by (auto simp: eval_nat_numeral length_Suc_conv)

lemma newUUID_expand:
  "newUUID [b0, b1, b2, b3, b4, b5, b6, b7, b8, b9, ba, bb, bc, bd, be, bf] =
     hex_byte b0 @ hex_byte b1 @ hex_byte b2 @ hex_byte b3 @ ''-'' @ hex_byte b4 @ hex_byte b5 @ ''-''
     @ hex_byte (b6 mod 16 + 64) @ hex_byte b7 @ ''-'' @ hex_byte (b8 mod 64 + 128) @ hex_byte b9 @ ''-''
     @ hex_byte ba @ hex_byte bb @ hex_byte bc @ hex_byte bd @ hex_byte be @ hex_byte bf"
  by (simp add: newUUID_def Let_def version_byte variant_byte)

lemma all_less: "(\<forall>i < n. P i) \<longleftrightarrow> list_all P [0..<n]"
  by (auto simp: list_all_iff)

lemma newUUID_v4:
  assumes "length b = 16" "\<forall>x \<in> set b. x < 256"
  shows "uuid_v4 (newUUID b)"
proof -
  obtain b0 b1 b2 b3 b4 b5 b6 b7 b8 b9 ba bb bc bd be bf where b: "b = [b0, b1, b2, b3, b4, b5, b6, b7, b8, b9, ba, bb, bc, bd, be, bf]"
    by (rule list16 [OF assms(1)])
  have hd: "x div 16 < 16" if "x < 256" for x :: nat using that by simp
  have v: "(b6 mod 16 + 64) div 16 = 4" by simp
  have "(b8 mod 64 + 128) div 16 \<in> {8, 9, 10, 11}" by auto
  then have w: "digit_char hex_alphabet ((b8 mod 64 + 128) div 16) \<in> set ''89ab''"
    by (auto simp: digit_char_def hex_alphabet_def)
  have w16: "(b8 mod 64 + 128) div 16 < 16" by auto
  show ?thesis
    using assms(2) w w16 unfolding b uuid_v4_def newUUID_expand hex_byte_def all_less
    by (simp add: upt_rec hex_digit_ok hd v) (simp add: digit_char_def hex_alphabet_def)
qed

lemma newUUID_chars:
  assumes "length b = 16" "\<forall>x \<in> set b. x < 256"
  shows "set (newUUID b) \<subseteq> insert (CHR ''-'') (set hex_alphabet)"
proof
  fix c
  assume "c \<in> set (newUUID b)"
  with newUUID_v4 [OF assms] obtain i where "i < 36" "newUUID b ! i = c" by (auto simp: uuid_v4_def in_set_conv_nth)
  with newUUID_v4 [OF assms] show "c \<in> insert (CHR ''-'') (set hex_alphabet)"
    unfolding uuid_v4_def is_hex_digit_def by (metis insertCI)
qed

text \<open>C37: \<open>newUUID\<close> turns 16 random bytes into an RFC 4122 version 4 identifier: 36 characters, hyphens at 8, 13, 18
  and 23, lower-case hexadecimal digits elsewhere, version digit 4, variant digit 8, 9, a or b. No
  randomness is lost beyond the six fixed bits: two draws give the same identifier only if they agree on
  all the other 122 bits.\<close>

theorem uuid_format_and_entropy:
  assumes "length b = 16" "\<forall>x \<in> set b. x < 256" "length b' = 16" "\<forall>x \<in> set b'. x < 256"
  shows "uuid_v4 (newUUID b)
    \<and> (newUUID b = newUUID b' \<longleftrightarrow>
        (\<forall>i < 16. if i = 6 then b ! i mod 16 = b' ! i mod 16 else if i = 8 then b ! i mod 64 = b' ! i mod 64 else b ! i = b' ! i))"
proof -
  obtain b0 b1 b2 b3 b4 b5 b6 b7 b8 b9 ba bb bc bd be bf where b: "b = [b0, b1, b2, b3, b4, b5, b6, b7, b8, b9, ba, bb, bc, bd, be, bf]"
    by (rule list16 [OF assms(1)])
  obtain c0 c1 c2 c3 c4 c5 c6 c7 c8 c9 ca cb cc cd ce cf where c: "b' = [c0, c1, c2, c3, c4, c5, c6, c7, c8, c9, ca, cb, cc, cd, ce, cf]"
    by (rule list16 [OF assms(3)])
  have len: "hex_byte x @ u = hex_byte y @ v \<longleftrightarrow> hex_byte x = hex_byte y \<and> u = v" for x y u v by (simp add: hex_byte_def)
  have small: "x mod 16 + 64 < 256" "x mod 64 + 128 < 256" for x :: nat by (simp_all add: less_trans [OF add_strict_right_mono [OF mod_less_divisor]])
  have "newUUID b = newUUID b' \<longleftrightarrow>
      (\<forall>i < 16. if i = 6 then b ! i mod 16 = b' ! i mod 16 else if i = 8 then b ! i mod 64 = b' ! i mod 64 else b ! i = b' ! i)"
    using assms(2,4) unfolding b c newUUID_expand all_less
    by (simp add: len hex_byte_inject small upt_rec)
  with newUUID_v4 [OF assms(1,2)] show ?thesis by blast
qed

theorem uuid_format_and_entropy_witness:
  "newUUID (replicate 16 0) = newUUID (replicate 6 0 @ [0xF0] @ replicate 9 0) \<and> uuid_v4 (newUUID (replicate 16 255))"
proof
  show "newUUID (replicate 16 0) = newUUID (replicate 6 0 @ [0xF0] @ replicate 9 0)"
    using uuid_format_and_entropy [of "replicate 16 0" "replicate 6 0 @ [0xF0] @ replicate 9 0"]
    by (simp add: nth_append nth_Cons')
  show "uuid_v4 (newUUID (replicate 16 255))"
    using uuid_format_and_entropy [of "replicate 16 255" "replicate 16 255"] by simp
qed

section \<open>REALITY keys\<close>

lemma sextets_length: "length (sextets bs) \<le> 2 * length bs"
  by (induction bs rule: sextets.induct) auto

lemma url_alphabet_sub: "set url_alphabet \<subseteq> set (cls_alnum @ ''+/_=-'')"
  by (simp add: url_alphabet_def cls_alnum_def)

lemma key_admitted: "length k \<le> 64 \<Longrightarrow> MatchString reB64Key (b64_encode url_alphabet k)"
  using b64url.enc_chars [of k] url_alphabet_sub sextets_length [of "bytes_of k"]
  by (auto simp: MatchString_lang reB64Key_def b64_encode_def simp del: set_append)

lemma hex_sub: "set hex_alphabet \<subseteq> set ''0123456789abcdefABCDEF''"
  by (simp add: hex_alphabet_def)

lemma shortid_admitted: "length b \<le> 8 \<Longrightarrow> MatchString reShortID (GenerateShortID b)"
  using hex_encode_chars [of b] hex_sub by (auto simp: MatchString_lang reShortID_def GenerateShortID_def)

end
