(* ===== verification/Hub_Inv.thy ===== *)
theory Hub_Inv
  imports Hub Store_Inv "HOL-Library.Multiset"
begin

text \<open>
  The invariants of the running panel: the hub's connection table, and the signature cache that decides
  whether a node needs a new configuration. \<open>panel_step\<close> is one atomic piece of work of the panel;
  a request handler is a sequence of them.
\<close>

section \<open>Signatures identify user sets\<close>

definition client_line :: "Client \<Rightarrow> string" where
  "client_line c = cEmail c @ '':'' @ cUUID c"

definition clients_text :: "Client list \<Rightarrow> string" where
  "clients_text cl = ''['' @ Join (sort (map client_line cl)) '' '' @ '']''"

definition clients_sig :: "Client list \<Rightarrow> string" where
  "clients_sig cl = hex_encode (sha256 (clients_text cl))"

definition client_wf :: "Client \<Rightarrow> bool" where
  "client_wf c \<longleftrightarrow> CHR '' '' \<notin> set (cEmail c) \<and> CHR '':'' \<notin> set (cEmail c) \<and> CHR '' '' \<notin> set (cUUID c)"

lemma activeSignature_clients: "activeSignature now us = clients_sig (active_clients now us)"
  by (simp add: activeSignature_def clients_sig_def clients_text_def active_clients_def client_line_def comp_def Let_def)

lemma Join_sort_inject:
  assumes "\<forall>x \<in> set xs \<union> set ys. CHR '' '' \<notin> set x \<and> x \<noteq> ''''" "Join xs '' '' = Join ys '' ''"
  shows "xs = ys"
proof (cases "xs = [] \<or> ys = []")
  case True
  have "Join zs '' '' = '''' \<longleftrightarrow> zs = []" if "\<forall>z \<in> set zs. z \<noteq> ''''" for zs
    using that by (cases zs; cases "tl zs") (auto simp: Join_Cons)
  then have "xs = [] \<longleftrightarrow> Join xs '' '' = ''''" "ys = [] \<longleftrightarrow> Join ys '' '' = ''''" using assms(1) by blast+
  then show ?thesis using True assms(2) by auto
next
  case False
  have sp: "Split (Join zs '' '') '' '' = zs" if "zs \<noteq> []" "\<forall>z \<in> set zs. CHR '' '' \<notin> set z" for zs
    using that by (rule Split_Join)
  have "\<forall>z \<in> set xs. CHR '' '' \<notin> set z" "\<forall>z \<in> set ys. CHR '' '' \<notin> set z" using assms(1) by simp_all
  then have "Split (Join xs '' '') '' '' = xs" "Split (Join ys '' '') '' '' = ys" using sp False by simp_all
  with assms(2) show ?thesis by metis
qed

definition line_client :: "string \<Rightarrow> Client" where
  "line_client l = (case Cut l (CHR '':'') of (e, i, _) \<Rightarrow> \<lparr>cUUID = i, cEmail = e\<rparr>)"

lemma line_client_line: "client_wf c \<Longrightarrow> line_client (client_line c) = c"
proof -
  assume "client_wf c"
  then have e: "CHR '':'' \<notin> set (cEmail c)" by (simp add: client_wf_def)
  then have "takeWhile ((\<noteq>) (CHR '':'')) (client_line c) = cEmail c"
    "dropWhile ((\<noteq>) (CHR '':'')) (client_line c) = CHR '':'' # cUUID c"
    by (auto simp: client_line_def takeWhile_append dropWhile_append)
  then show ?thesis by (simp add: line_client_def Cut_def client_line_def)
qed

text \<open>Unless SHA-256 collides on the two texts, equal signatures mean the same clients.\<close>

lemma clients_sig_inject:
  assumes "clients_sig A = clients_sig B"
    and "sha256 (clients_text A) = sha256 (clients_text B) \<longrightarrow> clients_text A = clients_text B"
    and "\<forall>c \<in> set A \<union> set B. client_wf c"
  shows "mset A = mset B"
proof -
  have "clients_text A = clients_text B" using assms(1,2) by (simp add: clients_sig_def)
  then have "Join (sort (map client_line A)) '' '' = Join (sort (map client_line B)) '' ''"
    by (simp add: clients_text_def)
  then have "sort (map client_line A) = sort (map client_line B)"
    using assms(3) by (intro Join_sort_inject) (auto simp: client_line_def client_wf_def)
  then have "mset (map client_line A) = mset (map client_line B)" by (metis mset_sort)
  then have "image_mset line_client (mset (map client_line A)) = image_mset line_client (mset (map client_line B))" by simp
  moreover have "map line_client (map client_line C) = C" if "\<forall>c \<in> set C. client_wf c" for C
    using that by (induction C) (simp_all add: line_client_line)
  ultimately show ?thesis using assms(3) by (metis UnI1 UnI2 mset_map)
qed

section \<open>The connection table\<close>

definition hub_ok :: "App \<Rightarrow> bool" where
  "hub_ok a \<longleftrightarrow> gomap_wf (conns a) \<and>
     (\<forall>n c. map_of (conns a) n = Some c \<longrightarrow> c < length (objs a) \<and> ncNode (objs a ! c) = n \<and> \<not> ncClosed (objs a ! c)) \<and>
     (\<forall>c < length (objs a). \<not> ncClosed (objs a ! c) \<longrightarrow> map_of (conns a) (ncNode (objs a ! c)) = Some c) \<and>
     (\<forall>c < length (objs a). length (ncSend (objs a ! c)) \<le> sendCap)"

lemma hub_okD:
  assumes "hub_ok a" "map_of (conns a) n = Some c"
  shows "c < length (objs a)" "ncNode (objs a ! c) = n" "\<not> ncClosed (objs a ! c)"
  using assms unfolding hub_ok_def by metis+

text \<open>Everything a connection has been told, oldest first.\<close>

definition stream :: "nat \<Rightarrow> App \<Rightarrow> Msg list" where
  "stream c a = ncOut (objs a ! c) @ ncSend (objs a ! c)"

definition last_config :: "Msg list \<Rightarrow> Msg option" where
  "last_config ms = find (\<lambda>m. msgType m = TypeConfig) (rev ms)"

definition carries :: "Msg \<Rightarrow> string \<Rightarrow> bool" where
  "carries m sig \<longleftrightarrow> (\<exists>p cl. msgConfig m = Some (Build p cl) \<and> clients_sig cl = sig \<and> (\<forall>x \<in> set cl. client_wf x))"

definition served :: "nat \<Rightarrow> string \<Rightarrow> App \<Rightarrow> bool" where
  "served c sig a \<longleftrightarrow> (\<exists>m. last_config (stream c a) = Some m \<and> carries m sig)"

text \<open>A recorded signature is the one of the last configuration the node's connection was given.\<close>

definition cache_ok_but :: "int64 option \<Rightarrow> App \<Rightarrow> bool" where
  "cache_ok_but x a \<longleftrightarrow> (\<forall>n sig c. x \<noteq> Some n \<longrightarrow> map_of (activeCache a) n = Some sig \<longrightarrow> map_of (conns a) n = Some c \<longrightarrow> served c sig a)"

abbreviation cache_ok :: "App \<Rightarrow> bool" where
  "cache_ok a \<equiv> cache_ok_but None a"

definition users_valid :: "Store \<Rightarrow> bool" where
  "users_valid s \<longleftrightarrow> (\<forall>r \<in> set (users s). client_wf \<lparr>cUUID = urUUID r, cEmail = urUsername r\<rparr>)"

definition panel_ok :: "App \<Rightarrow> bool" where
  "panel_ok a \<longleftrightarrow> store_ok (store a) \<and> users_valid (store a) \<and> hub_ok a \<and> cache_ok a"

lemma last_config_snoc: "last_config (ms @ [m]) = (if msgType m = TypeConfig then Some m else last_config ms)"
  by (simp add: last_config_def)

subsection \<open>Sending\<close>

lemma trySend_cases:
  assumes "c < length (objs a)"
  shows "trySend c m a = (False, a) \<and> (ncClosed (objs a ! c) \<or> length (ncSend (objs a ! c)) \<ge> sendCap) \<or>
    (\<exists>a'. trySend c m a = (True, a') \<and> \<not> ncClosed (objs a ! c) \<and> length (ncSend (objs a ! c)) < sendCap \<and>
       a' = a\<lparr>objs := (objs a)[c := (objs a ! c)\<lparr>ncSend := ncSend (objs a ! c) @ [m]\<rparr>]\<rparr>)"
  by (auto simp: trySend_def)

lemma hub_ok_put:
  assumes "hub_ok a" "c < length (objs a)"
    and "ncNode x = ncNode (objs a ! c)" "ncClosed x = ncClosed (objs a ! c)" "length (ncSend x) \<le> sendCap"
  shows "hub_ok (a\<lparr>objs := (objs a)[c := x]\<rparr>)"
  using assms unfolding hub_ok_def by (auto simp: nth_list_update)

lemma hub_ok_trySend: "hub_ok a \<Longrightarrow> c < length (objs a) \<Longrightarrow> hub_ok (snd (trySend c m a))"
  using hub_ok_put [of a c] by (auto simp: trySend_def)

lemma stream_trySend:
  assumes "c < length (objs a)" "trySend c m a = (True, a')"
  shows "stream c a' = stream c a @ [m]" "c' \<noteq> c \<Longrightarrow> stream c' a' = stream c' a"
  using assms by (auto simp: trySend_def stream_def split: if_splits)

lemma frames_trySend [simp]:
  "conns (snd (trySend c m a)) = conns a" "activeCache (snd (trySend c m a)) = activeCache a"
  "length (objs (snd (trySend c m a))) = length (objs a)"
  by (simp_all add: trySend_def)

lemma served_cong: "stream c a = stream c a' \<Longrightarrow> served c sig a = served c sig a'"
  by (simp add: served_def)

text \<open>A message that is no configuration does not disturb the cache.\<close>

lemma cache_ok_trySend:
  assumes "c < length (objs a)" "msgType m \<noteq> TypeConfig" "cache_ok_but x a"
  shows "cache_ok_but x (snd (trySend c m a))"
proof -
  have "served c' sig (snd (trySend c m a)) = served c' sig a" for c' sig
  proof (cases "trySend c m a")
    case (Pair b a')
    show ?thesis
    proof (cases b)
      case True
      with Pair stream_trySend [OF assms(1), of m a'] assms(2) show ?thesis
        by (cases "c' = c") (auto simp: served_def last_config_snoc)
    next
      case False
      with Pair show ?thesis by (auto simp: trySend_def split: if_splits)
    qed
  qed
  with assms(3) show ?thesis by (simp add: cache_ok_but_def)
qed

subsection \<open>Pushing a configuration\<close>

lemma active_clients_wf:
  assumes "users_valid s"
  shows "\<forall>x \<in> set (active_clients now (UsersForNode n s)). client_wf x"
  using assms by (auto simp: active_clients_def UsersForNode_def users_valid_def scanUser_def)

lemma config_msg_carries:
  assumes "users_valid s"
  shows "carries (config_msg node (buildXrayConfig now node (UsersForNode n s))) (activeSignature now (UsersForNode n s))"
  using active_clients_wf [OF assms, of now n]
  by (auto simp: carries_def config_msg_def buildXrayConfig_def activeSignature_clients)

lemma PushConfig_cases:
  assumes "hub_ok a" "PushConfig now n a = (b, a')"
  obtains (refused) "\<not> b" "a' = a"
  | (sent) c node where "b" "map_of (conns a) n = Some c" "GetNode now n (store a) = Inr node" "c < length (objs a)"
      "trySend c (config_msg node (buildXrayConfig now node (UsersForNode n (store a)))) a = (True, a')"
  using assms by (fastforce simp: PushConfig_def hub_ok_def trySend_def split: option.splits sum.splits if_splits)

lemma hub_ok_PushConfig: "hub_ok a \<Longrightarrow> hub_ok (snd (PushConfig now n a))"
  using hub_ok_trySend by (fastforce simp: PushConfig_def hub_ok_def split: option.splits sum.splits)

lemma frames_PushConfig [simp]:
  "conns (snd (PushConfig now n a)) = conns a" "activeCache (snd (PushConfig now n a)) = activeCache a"
  "length (objs (snd (PushConfig now n a))) = length (objs a)"
  by (auto simp: PushConfig_def split: option.splits sum.splits)

lemma msgType_config_msg [simp]: "msgType (config_msg node j) = TypeConfig"
  by (simp add: config_msg_def empty_msg_def)

text \<open>A push that was queued serves the current user set and leaves other nodes alone.\<close>

lemma PushConfig_serves:
  assumes ok: "hub_ok a" "users_valid (store a)" and p: "PushConfig now n a = (True, a')" and c: "map_of (conns a) n = Some c"
  shows "served c (activeSignature now (UsersForNode n (store a))) a'"
    "\<And>m c' sig. m \<noteq> n \<Longrightarrow> map_of (conns a) m = Some c' \<Longrightarrow> served c' sig a' = served c' sig a"
proof -
  from ok(1) p obtain node where t: "c < length (objs a)"
    "trySend c (config_msg node (buildXrayConfig now node (UsersForNode n (store a)))) a = (True, a')"
    using c by (cases rule: PushConfig_cases) auto
  note st = stream_trySend [OF t]
  show "served c (activeSignature now (UsersForNode n (store a))) a'"
    using config_msg_carries [OF ok(2)] by (simp add: served_def st(1) last_config_snoc)
  fix m c' sig
  assume m: "m \<noteq> n" "map_of (conns a) m = Some c'"
  have "c' \<noteq> c" using hub_okD(2) [OF ok(1) m(2)] hub_okD(2) [OF ok(1) c] m(1) by metis
  then show "served c' sig a' = served c' sig a" by (intro served_cong st(2))
qed

lemma served_upd_cache [simp]: "served c sig (a\<lparr>activeCache := ch\<rparr>) = served c sig a"
  by (simp add: served_def stream_def)

lemma hub_ok_upd [simp]:
  "hub_ok (a\<lparr>activeCache := ch\<rparr>) = hub_ok a" "hub_ok (a\<lparr>store := s\<rparr>) = hub_ok a"
  by (simp_all add: hub_ok_def)

lemma cache_ok_upd [simp]: "cache_ok_but x (a\<lparr>store := s\<rparr>) = cache_ok_but x a"
  by (simp add: cache_ok_but_def served_def stream_def)

lemma cache_ok_pushed:
  assumes "hub_ok a" "users_valid (store a)" "cache_ok_but (Some n) a" "PushConfig now n a = (True, a')"
  shows "cache_ok (a'\<lparr>activeCache := gomap_set n (activeSignature now (UsersForNode n (store a))) (activeCache a')\<rparr>)"
proof -
  have eqs: "conns a' = conns a" "activeCache a' = activeCache a"
    using frames_PushConfig [of now n a] assms(4) by simp_all
  obtain c where c: "map_of (conns a) n = Some c"
    using assms(4) by (auto simp: PushConfig_def split: option.splits)
  note srv = PushConfig_serves [OF assms(1,2,4) c]
  show ?thesis unfolding cache_ok_but_def
  proof (intro allI impI)
    fix m sig c'
    assume m: "map_of (activeCache (a'\<lparr>activeCache := gomap_set n (activeSignature now (UsersForNode n (store a))) (activeCache a')\<rparr>)) m = Some sig"
      "map_of (conns (a'\<lparr>activeCache := gomap_set n (activeSignature now (UsersForNode n (store a))) (activeCache a')\<rparr>)) m = Some c'"
    show "served c' sig (a'\<lparr>activeCache := gomap_set n (activeSignature now (UsersForNode n (store a))) (activeCache a')\<rparr>)"
    proof (cases "m = n")
      case True
      with m c srv(1) show ?thesis by (simp add: eqs)
    next
      case False
      with m have "map_of (activeCache a) m = Some sig" "map_of (conns a) m = Some c'" by (simp_all add: eqs)
      moreover from this have "served c' sig a" using assms(3) False by (auto simp: cache_ok_but_def)
      ultimately show ?thesis using srv(2) [OF False] by simp
    qed
  qed
qed

lemma cache_ok_weaken: "cache_ok a \<Longrightarrow> cache_ok_but x a"
  by (simp add: cache_ok_but_def)

lemma cache_ok_drop: "cache_ok_but (Some n) a \<Longrightarrow> cache_ok (a\<lparr>activeCache := gomap_delete n (activeCache a)\<rparr>)"
  by (auto simp: cache_ok_but_def split: if_splits)

lemma PushConfig_refused: "PushConfig now n a = (False, a') \<Longrightarrow> a' = a"
  by (auto simp: PushConfig_def trySend_def split: option.splits sum.splits if_splits)

lemma panel_ok_syncNode:
  assumes "panel_ok a"
  shows "panel_ok (syncNode now n a)"
proof (cases "map_of (activeCache a) n = Some (activeSignature now (UsersForNode n (store a)))")
  case True
  with assms show ?thesis by (simp add: syncNode_def Let_def)
next
  case False
  have ok: "hub_ok a" "users_valid (store a)" "store_ok (store a)" "cache_ok a" using assms by (simp_all add: panel_ok_def)
  obtain b a' where p: "PushConfig now n a = (b, a')" by (cases "PushConfig now n a")
  have h: "hub_ok a'" "store a' = store a"
    using hub_ok_PushConfig [OF ok(1), of now n] store_PushConfig [of now n a] p by simp_all
  show ?thesis
  proof (cases b)
    case True
    with cache_ok_pushed [OF ok(1,2) cache_ok_weaken [OF ok(4)]] p False ok h show ?thesis
      by (simp add: syncNode_def panel_ok_def)
  next
    case False': False
    with False p PushConfig_refused assms show ?thesis by (auto simp: syncNode_def Let_def)
  qed
qed

lemma store_forceSyncNode [simp]: "store (forceSyncNode now n a) = store a"
  using store_PushConfig [of now n a] by (cases "PushConfig now n a") (auto simp: forceSyncNode_def Let_def)

text \<open>\<open>forceSyncNode\<close> repairs the entry of its node.\<close>

lemma forceSyncNode_ok:
  assumes "hub_ok a" "users_valid (store a)" "cache_ok_but (Some n) a"
  shows "hub_ok (forceSyncNode now n a)" "cache_ok (forceSyncNode now n a)"
proof -
  obtain b a' where p: "PushConfig now n a = (b, a')" by (cases "PushConfig now n a")
  show "hub_ok (forceSyncNode now n a)"
    using hub_ok_PushConfig [OF assms(1), of now n] p by (simp add: forceSyncNode_def Let_def)
  show "cache_ok (forceSyncNode now n a)"
    using cache_ok_pushed [OF assms, of now a'] cache_ok_drop [OF assms(3)] PushConfig_refused [of now n a a'] p
    by (cases b) (simp_all add: forceSyncNode_def)
qed

lemma panel_ok_forceSyncNode: "panel_ok a \<Longrightarrow> panel_ok (forceSyncNode now n a)"
  using forceSyncNode_ok [of a n now] by (simp add: panel_ok_def cache_ok_weaken)

subsection \<open>Connecting and disconnecting\<close>

abbreviation fresh_conn :: "int64 \<Rightarrow> nodeConn" where
  "fresh_conn n \<equiv> \<lparr>ncNode = n, ncSend = [], ncOut = [], ncClosed = False\<rparr>"

definition connect :: "int64 \<Rightarrow> App \<Rightarrow> App" where
  "connect n a = register (length (objs a)) (a\<lparr>objs := objs a @ [fresh_conn n]\<rparr>)"

lemma objs_connect:
  "objs (connect n a) = (case map_of (conns a) n of None \<Rightarrow> objs a | Some old \<Rightarrow> (objs a)[old := (objs a ! old)\<lparr>ncClosed := True\<rparr>]) @ [fresh_conn n]"
  if "hub_ok a"
  using hub_okD(1) [OF that, of n]
  by (auto simp: connect_def register_def close_conn_def Let_def nth_append list_update_append split: option.splits)

lemma conns_connect: "conns (connect n a) = gomap_set n (length (objs a)) (conns a)"
  by (auto simp: connect_def register_def close_conn_def Let_def split: option.splits)

lemma hub_ok_connect:
  assumes "hub_ok a"
  shows "hub_ok (connect n a)"
  unfolding hub_ok_def
proof (intro conjI allI impI)
  note sel = objs_connect [OF assms, of n] conns_connect [of n a]
  have len: "length (objs (connect n a)) = Suc (length (objs a))" by (simp add: sel split: option.splits)
  have nth: "objs (connect n a) ! c =
      (if c = length (objs a) then fresh_conn n
       else if map_of (conns a) n = Some c then (objs a ! c)\<lparr>ncClosed := True\<rparr> else objs a ! c)"
    if "c < Suc (length (objs a))" for c
    using that hub_okD(1) [OF assms, of n] by (auto simp: sel nth_append nth_list_update split: option.splits)
  have wf: "gomap_wf (conns a)" using assms by (simp add: hub_ok_def)
  then show "gomap_wf (conns (connect n a))" by (simp add: conns_connect gomap_wf_set)
  { fix m c
    assume "map_of (conns (connect n a)) m = Some c"
    then have c: "m = n \<and> c = length (objs a) \<or> m \<noteq> n \<and> map_of (conns a) m = Some c" by (auto simp: sel split: if_splits)
    then have old: "m \<noteq> n \<Longrightarrow> map_of (conns a) n \<noteq> Some c"
      using hub_okD(2) [OF assms, of m c] hub_okD(2) [OF assms, of n c] by metis
    show "c < length (objs (connect n a))" using c hub_okD(1) [OF assms, of m c] by (auto simp: len)
    then show "ncNode (objs (connect n a) ! c) = m" "\<not> ncClosed (objs (connect n a) ! c)"
      using c old hub_okD [OF assms, of m c] by (auto simp: nth len) }
  { fix c
    assume c: "c < length (objs (connect n a))" "\<not> ncClosed (objs (connect n a) ! c)"
    show "map_of (conns (connect n a)) (ncNode (objs (connect n a) ! c)) = Some c"
    proof (cases "c = length (objs a)")
      case True
      then show ?thesis by (simp add: nth conns_connect)
    next
      case False
      with c have l: "c < length (objs a)" and n: "map_of (conns a) n \<noteq> Some c" "\<not> ncClosed (objs a ! c)"
        and eq: "objs (connect n a) ! c = objs a ! c" by (auto simp: nth len split: if_splits)
      with assms have m: "map_of (conns a) (ncNode (objs a ! c)) = Some c" unfolding hub_ok_def by blast
      with n have "ncNode (objs a ! c) \<noteq> n" by metis
      with m show ?thesis by (simp add: eq conns_connect)
    qed }
  { fix c
    assume c: "c < length (objs (connect n a))"
    have "length (ncSend (objs a ! c)) \<le> sendCap" if "c < length (objs a)" using assms that by (simp add: hub_ok_def)
    then show "length (ncSend (objs (connect n a) ! c)) \<le> sendCap" using c by (auto simp: nth len less_Suc_eq) }
qed

lemma served_connect:
  assumes "hub_ok a" "c < length (objs a)"
  shows "served c sig (connect n a) = served c sig a"
  using assms hub_okD(1) [OF assms(1), of n]
  by (intro served_cong) (auto simp: stream_def objs_connect nth_append nth_list_update split: option.splits)

lemma cache_connect: "activeCache (connect n a) = activeCache a"
  by (auto simp: connect_def register_def close_conn_def Let_def split: option.splits)

lemma cache_ok_connect:
  assumes "hub_ok a" "cache_ok a"
  shows "cache_ok_but (Some n) (connect n a)"
  using assms(2) hub_okD(1) [OF assms(1)]
  by (auto simp: cache_ok_but_def conns_connect cache_connect served_connect [OF assms(1)])

lemma hub_ok_cong:
  "conns a' = conns a \<Longrightarrow> objs a' = objs a \<Longrightarrow> hub_ok a' = hub_ok a"
  by (simp add: hub_ok_def)

lemma cache_ok_cong:
  "conns a' = conns a \<Longrightarrow> objs a' = objs a \<Longrightarrow> activeCache a' = activeCache a \<Longrightarrow> cache_ok_but x a' = cache_ok_but x a"
  by (simp add: cache_ok_but_def served_def stream_def)

text \<open>Notices touch neither the hub nor the store.\<close>

lemma notifyAdmins_frame [simp]:
  "conns (notifyAdmins t a) = conns a" "objs (notifyAdmins t a) = objs a" "activeCache (notifyAdmins t a) = activeCache a"
  "store (notifyAdmins t a) = store a"
  by (simp_all add: notifyAdmins_def split: prod.splits)

lemma noticeOnline_frame [simp]:
  "conns (noticeOnline n t a) = conns a" "objs (noticeOnline n t a) = objs a" "activeCache (noticeOnline n t a) = activeCache a"
  "store (noticeOnline n t a) = store a"
  by (simp_all add: noticeOnline_def Let_def)

lemma store_connect [simp]: "store (connect n a) = store a"
  by (auto simp: connect_def register_def close_conn_def Let_def split: option.splits)

lemma users_valid_node_ops [simp]:
  "users_valid (TouchNode now n s) = users_valid s" "users_valid (SetNodeAgentVersion n v s) = users_valid s"
  "users_valid (SetNodeTrafficSeq n q s) = users_valid s"
  by (simp_all add: users_valid_def TouchNode_def SetNodeAgentVersion_def SetNodeTrafficSeq_def)

lemma handleWS_eq:
  "handleWS now reg a =
     (if msgType reg \<noteq> TypeRegister then None
      else (case GetNodeByToken now (msgToken reg) (store a) of
              Inl _ \<Rightarrow> None
            | Inr node \<Rightarrow> Some (length (objs a), forceSyncNode now (nID node) (noticeOnline (nID node) (nName node)
                (with_store (SetNodeAgentVersion (nID node) (msgVersion reg)) (with_store (TouchNode now (nID node)) (connect (nID node) a)))))))"
  by (simp add: handleWS_def Let_def connect_def split: sum.splits)

lemma panel_ok_handleWS:
  assumes "panel_ok a" "handleWS now reg a = Some (c, a')"
  shows "panel_ok a'"
proof -
  obtain node where node: "msgType reg = TypeRegister" "GetNodeByToken now (msgToken reg) (store a) = Inr node"
    using assms(2) by (auto simp: handleWS_eq split: if_splits sum.splits)
  let ?b = "noticeOnline (nID node) (nName node)
      (with_store (SetNodeAgentVersion (nID node) (msgVersion reg)) (with_store (TouchNode now (nID node)) (connect (nID node) a)))"
  have ok: "hub_ok a" "cache_ok a" "store_ok (store a)" "users_valid (store a)" using assms(1) by (simp_all add: panel_ok_def)
  have "hub_ok ?b" using hub_ok_connect [OF ok(1)] by (subst hub_ok_cong [of _ "connect (nID node) a"]) simp_all
  moreover have "cache_ok_but (Some (nID node)) ?b"
    using cache_ok_connect [OF ok(1,2)] by (subst cache_ok_cong [of _ "connect (nID node) a"]) simp_all
  moreover have "store_ok (store ?b)" "users_valid (store ?b)"
    using store_step_ok [OF store_step.set_version store_step_ok [OF store_step.touch_node ok(3)]] ok(4) by simp_all
  ultimately show ?thesis
    using forceSyncNode_ok [of ?b "nID node" now] assms(2) node by (auto simp: handleWS_eq panel_ok_def)
qed

lemma panel_ok_unregister:
  assumes "panel_ok a" "c < length (objs a)"
  shows "panel_ok (unregister now c a)"
proof -
  let ?n = "ncNode (objs a ! c)" and ?a' = "unregister now c a"
  let ?rem = "map_of (conns a) ?n = Some c"
  have ok: "hub_ok a" "cache_ok a" using assms(1) by (simp_all add: panel_ok_def)
  have sel: "objs ?a' = (objs a)[c := (objs a ! c)\<lparr>ncClosed := True\<rparr>]" "activeCache ?a' = activeCache a" "store ?a' = store a"
    "conns ?a' = (if ?rem then gomap_delete ?n (conns a) else conns a)"
    by (auto simp: unregister_def close_conn_def scheduleOfflineNotice_def Let_def)
  have other: "c' \<noteq> c \<and> map_of (conns a) m = Some c'" if m: "map_of (conns ?a') m = Some c'" for m c'
  proof -
    have c': "map_of (conns a) m = Some c'" "?rem \<longrightarrow> m \<noteq> ?n" using m by (auto simp: sel split: if_splits)
    have "m = ?n \<and> ?rem" if "c' = c" using hub_okD(2) [OF ok(1) c'(1)] c'(1) unfolding that by (intro conjI) (rule sym, assumption, simp)
    with c' show ?thesis by fast
  qed
  have hub: "hub_ok ?a'" unfolding hub_ok_def
  proof (intro conjI allI impI)
    have "gomap_wf (conns a)" using ok(1) unfolding hub_ok_def by (rule conjunct1)
    then show "gomap_wf (conns ?a')" by (simp add: sel(4) gomap_wf_delete)
    fix m c' assume "map_of (conns ?a') m = Some c'"
    from other [OF this] hub_okD [OF ok(1), of m c']
    show "c' < length (objs ?a')" "ncNode (objs ?a' ! c') = m" "\<not> ncClosed (objs ?a' ! c')" by (simp_all add: sel)
  next
    fix c' assume c': "c' < length (objs ?a')" "\<not> ncClosed (objs ?a' ! c')"
    then have "c' \<noteq> c" "c' < length (objs a)" "\<not> ncClosed (objs a ! c')" by (cases "c' = c"; simp add: sel)+
    moreover from this ok(1) have m: "map_of (conns a) (ncNode (objs a ! c')) = Some c'" unfolding hub_ok_def by blast
    ultimately show "map_of (conns ?a') (ncNode (objs ?a' ! c')) = Some c'" by (auto simp: sel)
  next
    fix c' assume "c' < length (objs ?a')"
    then show "length (ncSend (objs ?a' ! c')) \<le> sendCap"
      using ok(1) assms(2) by (cases "c' = c") (simp_all add: sel hub_ok_def)
  qed
  have "served c' sig ?a' = served c' sig a" for c' sig
    using assms(2) by (intro served_cong) (simp add: stream_def sel nth_list_update)
  with ok(2) other have "cache_ok ?a'" by (simp add: cache_ok_but_def sel(2))
  with hub assms(1) show ?thesis by (simp add: panel_ok_def sel)
qed

lemma panel_ok_write_one:
  assumes "panel_ok a" "c < length (objs a)"
  shows "panel_ok (write_one c a)"
proof (cases "ncSend (objs a ! c)")
  case (Cons m q)
  have ok: "hub_ok a" "cache_ok a" using assms(1) by (simp_all add: panel_ok_def)
  let ?x = "(objs a ! c)\<lparr>ncSend := q, ncOut := ncOut (objs a ! c) @ [m]\<rparr>"
  let ?b = "a\<lparr>objs := (objs a)[c := ?x]\<rparr>"
  have "length (ncSend (objs a ! c)) \<le> sendCap" using ok(1) assms(2) by (simp add: hub_ok_def)
  then have "hub_ok ?b" using ok(1) assms(2) Cons by (intro hub_ok_put) simp_all
  moreover have "served c' sig ?b = served c' sig a" for c' sig
    using assms(2) Cons by (intro served_cong) (auto simp: stream_def nth_list_update)
  then have "cache_ok ?b" using ok(2) by (simp add: cache_ok_but_def)
  ultimately show ?thesis using assms(1) Cons by (simp add: write_one_def panel_ok_def)
qed (use assms in \<open>simp add: write_one_def\<close>)

subsection \<open>Frames from an agent\<close>

lemma users_valid_AddTraffic [simp]: "users_valid (AddTraffic now u n up down s) = users_valid s"
  by (auto simp: users_valid_def AddTraffic_def Let_def ball_sql_update)

lemma users_valid_UpsertDevice [simp]: "users_valid (UpsertDevice u n ip inb cn seen s) = users_valid s"
  by (simp add: users_valid_def UpsertDevice_def)

lemma fold_keeps: "(\<And>x s. P s \<Longrightarrow> P (f x s)) \<Longrightarrow> P s \<Longrightarrow> P (fold f xs s)"
  by (induction xs arbitrary: s) auto

lemma ingest_store_ok:
  assumes "store_ok s" "users_valid s"
  shows "store_ok (fst (fold (ingest_item now n al) items (s, x, y)))" "users_valid (fst (fold (ingest_item now n al) items (s, x, y)))"
proof -
  have "store_ok (fst r) \<and> users_valid (fst r)" if "r = fold (ingest_item now n al) items (s, x, y)" for r
    unfolding that
    by (rule fold_keeps) (auto simp: ingest_item_def assms store_ok_AddTraffic split: option.splits)
  then show "store_ok (fst (fold (ingest_item now n al) items (s, x, y)))"
    "users_valid (fst (fold (ingest_item now n al) items (s, x, y)))" by blast+
qed

lemma panel_ok_store: "panel_ok a \<Longrightarrow> store_ok s \<Longrightarrow> users_valid s \<Longrightarrow> panel_ok (a\<lparr>store := s\<rparr>)"
  by (simp add: panel_ok_def)

lemma panel_ok_cong:
  "store a' = store a \<Longrightarrow> conns a' = conns a \<Longrightarrow> objs a' = objs a \<Longrightarrow> activeCache a' = activeCache a \<Longrightarrow> panel_ok a' = panel_ok a"
  using hub_ok_cong [of a' a] cache_ok_cong [of a' a None] by (simp add: panel_ok_def)

lemma recordRate_frame [simp]:
  "conns (recordRate now n up down a) = conns a" "objs (recordRate now n up down a) = objs a"
  "activeCache (recordRate now n up down a) = activeCache a"
  by (simp_all add: recordRate_def Let_def split: option.splits)

lemma panel_ok_ingestTraffic:
  assumes "panel_ok a"
  shows "panel_ok (ingestTraffic now n seq items a)"
proof -
  let ?s = "fst (fold (ingest_item now n (allowed_users (UsersForNode n (store a)))) items (store a, 0, 0))"
  have s: "store_ok ?s" "users_valid ?s" using assms ingest_store_ok by (simp_all add: panel_ok_def)
  have "panel_ok (recordRate now n x y (a\<lparr>store := ?s\<rparr>))" for x y
    using panel_ok_store [OF assms s] by (subst panel_ok_cong [of _ "a\<lparr>store := ?s\<rparr>"]) simp_all
  then have "panel_ok (with_store (SetNodeTrafficSeq n seq) (recordRate now n x y (a\<lparr>store := ?s\<rparr>)))"
    "panel_ok (recordRate now n x y (a\<lparr>store := ?s\<rparr>))" for x y
    using s by (auto intro!: panel_ok_store simp: store_ok_SetNodeTrafficSeq)
  then show ?thesis
    using assms by (auto simp: ingestTraffic_def Let_def case_prod_beta panel_ok_syncNode split: sum.splits)
qed

lemma objs_syncNode [simp]: "length (objs (syncNode now n a)) = length (objs a)"
  using frames_PushConfig(3) [of now n a] by (cases "PushConfig now n a") (auto simp: syncNode_def Let_def)

lemma objs_ingestTraffic [simp]: "length (objs (ingestTraffic now n seq items a)) = length (objs a)"
  by (auto simp: ingestTraffic_def Let_def case_prod_beta split: sum.splits)

lemma panel_ok_ingestDevices:
  assumes "panel_ok a"
  shows "panel_ok (ingestDevices now n items a)"
proof -
  let ?s = "fold (ingest_device now n (allowed_users (UsersForNode n (store a)))) items (store a)"
  have "store_ok ?s \<and> users_valid ?s"
    using assms by (intro fold_keeps [where P = "\<lambda>s. store_ok s \<and> users_valid s"]) (auto simp: ingest_device_def panel_ok_def Let_def store_ok_UpsertDevice split: option.splits)
  with assms show ?thesis by (simp add: ingestDevices_def panel_ok_store)
qed

lemma panel_ok_handleMsg:
  assumes "panel_ok a" "c < length (objs a)"
  shows "panel_ok (handleMsg now c m a)"
proof -
  let ?n = "ncNode (objs a ! c)" and ?i = "ingestTraffic now (ncNode (objs a ! c)) (msgSeq m) (msgItems m) a"
  let ?ack = "(empty_msg TypeAck)\<lparr>msgSeq := msgSeq m\<rparr>"
  have "panel_ok (with_store (TouchNode now ?n) a)"
    using assms store_step_ok [OF store_step.touch_node, of "store a" now ?n] by (intro panel_ok_store) (simp_all add: panel_ok_def)
  moreover from this have "panel_ok (setNodeMetrics ?n mt (with_store (TouchNode now ?n) a))" for mt
    by (subst panel_ok_cong [of _ "with_store (TouchNode now ?n) a"]) (simp_all add: setNodeMetrics_def)
  moreover have "panel_ok (snd (trySend c ?ack ?i))"
    using panel_ok_ingestTraffic [OF assms(1)] assms(2) hub_ok_trySend [of ?i c ?ack] cache_ok_trySend [of c ?i ?ack None]
    by (simp add: panel_ok_def empty_msg_def msg_type_defs)
  ultimately show ?thesis
    using panel_ok_ingestDevices [OF assms(1)] assms(1) by (auto simp: handleMsg_def Let_def split: option.splits)
qed

section \<open>The running panel\<close>

text \<open>
  One atomic piece of work: a node connects, sends a frame or goes away, the write loop moves a message
  to the socket, a store operation commits (the handlers only write validated user names and UUIDs), a
  node is synchronised, or some part of the state that the hub does not read changes.
\<close>

inductive panel_step :: "App \<Rightarrow> App \<Rightarrow> bool" where
  connected: "handleWS now reg a = Some (c, a') \<Longrightarrow> panel_step a a'"
| frame: "c < length (objs a) \<Longrightarrow> panel_step a (handleMsg now c m a)"
| disconnected: "c < length (objs a) \<Longrightarrow> panel_step a (unregister now c a)"
| written: "c < length (objs a) \<Longrightarrow> panel_step a (write_one c a)"
| stored: "store_step (store a) s' \<Longrightarrow> users_valid s' \<Longrightarrow> panel_step a (a\<lparr>store := s'\<rparr>)"
| synced: "panel_step a (syncNode now n a)"
| forced: "panel_step a (forceSyncNode now n a)"
| elsewhere: "store a' = store a \<Longrightarrow> conns a' = conns a \<Longrightarrow> objs a' = objs a \<Longrightarrow> activeCache a' = activeCache a \<Longrightarrow> panel_step a a'"

abbreviation panel_steps :: "App \<Rightarrow> App \<Rightarrow> bool" where
  "panel_steps \<equiv> panel_step\<^sup>*\<^sup>*"

lemma panel_step_ok: "panel_step a a' \<Longrightarrow> panel_ok a \<Longrightarrow> panel_ok a'"
proof (induction rule: panel_step.induct)
  case (stored a s')
  then show ?case by (intro panel_ok_store) (auto simp: panel_ok_def intro: store_step_ok)
next
  case (elsewhere a' a)
  then show ?case using panel_ok_cong by blast
qed (auto intro: panel_ok_handleWS panel_ok_handleMsg panel_ok_unregister panel_ok_write_one panel_ok_syncNode panel_ok_forceSyncNode)

lemma panel_steps_ok: "panel_steps a a' \<Longrightarrow> panel_ok a \<Longrightarrow> panel_ok a'"
  by (induction rule: rtranclp_induct) (auto intro: panel_step_ok)

lemma panel_steps_stored: "store_step (store a) s' \<Longrightarrow> users_valid s' \<Longrightarrow> panel_steps a (a\<lparr>store := s'\<rparr>)"
  by (rule r_into_rtranclp, rule panel_step.stored)

lemma panel_steps_fold: "(\<And>x a. panel_steps a (f x a)) \<Longrightarrow> panel_steps a (fold f xs a)"
  by (induction xs arbitrary: a) (auto intro: rtranclp_trans)

lemma panel_steps_syncNodes: "panel_steps a (syncNodes now nids a)"
  unfolding syncNodes_def by (rule panel_steps_fold) (auto intro: panel_step.synced)

lemma check_user_frame:
  "store (fold (check_user now) us a) = store a \<and> conns (fold (check_user now) us a) = conns a \<and>
   objs (fold (check_user now) us a) = objs a \<and> activeCache (fold (check_user now) us a) = activeCache a"
  by (rule fold_keeps [where P = "\<lambda>b. store b = store a \<and> conns b = conns a \<and> objs b = objs a \<and> activeCache b = activeCache a"])
    (auto simp: check_user_def Let_def)

lemma panel_steps_enforcement: "panel_steps a (enforcement_tick now a)"
proof -
  have "panel_step b (checkUserTransitions now b)" for b
    using check_user_frame [of now "ListUsers (store b)" b]
    by (intro panel_step.elsewhere) (simp_all add: checkUserTransitions_def)
  then show ?thesis unfolding enforcement_tick_def by (rule rtranclp.rtrancl_into_rtrancl [OF panel_steps_syncNodes])
qed

lemma users_valid_row:
  assumes "users_valid s" "\<And>r. urUsername (f r) = urUsername r" "\<And>r. urUUID (f r) = urUUID r"
  shows "users_valid (upd_user u f s)"
  using assms by (auto simp: users_valid_def upd_user_def ball_sql_update)

lemma users_valid_ResetUserTraffic [simp]: "users_valid (ResetUserTraffic u s) = users_valid s"
  by (auto simp: users_valid_def ResetUserTraffic_def ball_sql_update)

lemma users_valid_SetUserLastReset: "users_valid s \<Longrightarrow> users_valid (SetUserLastReset u t s)"
  unfolding SetUserLastReset_def by (rule users_valid_row) simp_all

lemma panel_steps_reset_user: "users_valid (store a) \<Longrightarrow> panel_steps a (reset_user now u a)"
proof (cases "monthlyResetDue now (uResetDay u) (uLastReset u) = None")
  case False
  assume v: "users_valid (store a)"
  let ?b = "with_store (ResetUserTraffic (uID u)) a"
  have 1: "panel_steps a ?b" using v by (intro panel_steps_stored) (auto intro: store_step.reset_traffic)
  have 2: "panel_steps ?b (with_store (SetUserLastReset (uID u) now) ?b)"
    using v by (intro panel_steps_stored users_valid_SetUserLastReset) (auto intro: store_step.set_last_reset)
  from rtranclp_trans [OF rtranclp_trans [OF 1 2] panel_steps_syncNodes, of now "uNodeIDs u"] False
  show ?thesis by (simp add: reset_user_def)
qed (simp add: reset_user_def)

lemma store_syncNodes [simp]: "store (syncNodes now nids a) = store a"
  unfolding syncNodes_def by (rule fold_keeps [where P = "\<lambda>b. store b = store a"]) simp_all

lemma users_valid_reset_user: "users_valid (store a) \<Longrightarrow> users_valid (store (reset_user now u a))"
  by (simp add: reset_user_def users_valid_SetUserLastReset)

lemma panel_steps_autoReset:
  assumes "users_valid (store a)"
  shows "panel_steps a (autoReset_tick now a)"
proof -
  have "panel_steps b (fold (reset_user now) us b)" if "users_valid (store b)" for us b
    using that
  proof (induction us arbitrary: b)
    case (Cons u us)
    then show ?case using panel_steps_reset_user [of b now u] users_valid_reset_user [of b now u]
      by (auto intro: rtranclp_trans)
  qed simp
  with assms show ?thesis by (simp add: autoReset_tick_def)
qed

lemma users_valid_PurgeDevices [simp]: "users_valid (snd (PurgeDevices c s)) = users_valid s"
  by (simp add: users_valid_def PurgeDevices_def)

lemma panel_steps_purge: "users_valid (store a) \<Longrightarrow> panel_steps a (purge_tick now a)"
  unfolding purge_tick_def by (intro panel_steps_stored) (auto intro: store_step.purge_devices)

lemma panel_steps_offlineNotice: "panel_steps a (offlineNotice now n a)"
proof -
  have "panel_step a (offlineNotice now n a)"
    by (intro panel_step.elsewhere) (auto simp: offlineNotice_def split: sum.splits)
  then show ?thesis by (rule r_into_rtranclp)
qed

text \<open>A panel that has started on a sound store file, and everything it can become.\<close>

inductive panel_reach :: "App \<Rightarrow> bool" where
  booted: "store_ok s \<Longrightarrow> users_valid s \<Longrightarrow> boot X derive nn an tn salt e c s = Some a \<Longrightarrow> panel_reach a"
| stepped: "panel_reach a \<Longrightarrow> panel_step a a' \<Longrightarrow> panel_reach a'"

lemma users_valid_encryptExisting [simp]: "users_valid (encryptExisting nn an tn s) = users_valid s"
  by (simp add: users_valid_def encryptExisting_def split: option.splits)

lemma users_EnsureAdmin: "EnsureAdmin u h s = Inr s' \<Longrightarrow> users s' = users s"
  by (auto simp: EnsureAdmin_def insert_admin_def split: sum.splits store_error.splits if_splits)

lemma boot_ok:
  assumes "store_ok s" "users_valid s" "boot X derive nn an tn salt e c s = Some a"
  shows "panel_ok a"
proof -
  let ?s1 = "encryptExisting nn an tn (s\<lparr>crypt := newCrypter derive (JWTSecret c)\<rparr>)"
  have "store_ok (s\<lparr>crypt := k\<rparr>)" "users_valid (s\<lparr>crypt := k\<rparr>)" for k
    using assms(1,2) by (simp_all add: store_ok_defs users_valid_def)
  then have s1: "store_ok ?s1" "users_valid ?s1" by (simp_all add: store_ok_encryptExisting)
  obtain h s' where "EnsureAdmin (AdminUser c) h ?s1 = Inr s'" "store a = s'" "conns a = []" "objs a = []" "activeCache a = []"
    using assms(3) by (auto simp: boot_def Let_def restartBot_def setTelegram_def split: if_splits option.splits sum.splits)
  with s1 users_EnsureAdmin [of "AdminUser c" h ?s1 s'] store_ok_EnsureAdmin [of ?s1 "AdminUser c" h s']
  show ?thesis by (simp add: panel_ok_def hub_ok_def cache_ok_but_def users_valid_def)
qed

lemma panel_reach_ok: "panel_reach a \<Longrightarrow> panel_ok a"
  by (induction rule: panel_reach.induct) (auto intro: boot_ok panel_step_ok)

section \<open>What a synchronisation achieves\<close>

definition sha_collision :: "string \<Rightarrow> string \<Rightarrow> bool" where
  "sha_collision x y \<longleftrightarrow> x \<noteq> y \<and> sha256 x = sha256 y"

text \<open>
  The last configuration a connection was given provisions exactly these clients, or the panel was
  misled by a SHA-256 collision between the texts of two client lists.
\<close>

definition serves_clients :: "nat \<Rightarrow> Client list \<Rightarrow> App \<Rightarrow> bool" where
  "serves_clients c cl a \<longleftrightarrow>
     (\<exists>m p cl'. last_config (stream c a) = Some m \<and> msgConfig m = Some (Build p cl') \<and>
        (mset cl' = mset cl \<or> sha_collision (clients_text cl') (clients_text cl)))"

lemma served_clients:
  assumes "served c (clients_sig cl) a" "\<forall>x \<in> set cl. client_wf x"
  shows "serves_clients c cl a"
proof -
  obtain m p cl' where m: "last_config (stream c a) = Some m" "msgConfig m = Some (Build p cl')"
    "clients_sig cl' = clients_sig cl" "\<forall>x \<in> set cl'. client_wf x"
    using assms(1) by (auto simp: served_def carries_def)
  have "sha_collision (clients_text cl') (clients_text cl) \<or> mset cl' = mset cl"
    using clients_sig_inject [OF m(3)] assms(2) m(4) by (auto simp: sha_collision_def)
  with m show ?thesis by (auto simp: serves_clients_def)
qed

lemma PushConfig_room:
  assumes "hub_ok a" "map_of (conns a) n = Some c" "GetNode now n (store a) = Inr node" "length (ncSend (objs a ! c)) < sendCap"
  obtains a' where "PushConfig now n a = (True, a')"
  using assms hub_okD(3) [OF assms(1,2)] by (auto simp: PushConfig_def trySend_def)

lemma syncNode_serves:
  assumes ok: "panel_ok a" and c: "map_of (conns a) n = Some c" "GetNode now n (store a) = Inr node"
    and room: "length (ncSend (objs a ! c)) < sendCap"
  shows "served c (activeSignature now (UsersForNode n (store a))) (syncNode now n a)"
proof (cases "map_of (activeCache a) n = Some (activeSignature now (UsersForNode n (store a)))")
  case True
  with ok c show ?thesis by (auto simp: syncNode_def Let_def panel_ok_def cache_ok_but_def)
next
  case False
  have h: "hub_ok a" "users_valid (store a)" using ok by (simp_all add: panel_ok_def)
  obtain a' where p: "PushConfig now n a = (True, a')" by (rule PushConfig_room [OF h(1) c room])
  from PushConfig_serves(1) [OF h p c(1)] p False show ?thesis by (simp add: syncNode_def)
qed

lemma syncNode_clients:
  assumes "panel_ok a" "map_of (conns a) n = Some c" "GetNode now n (store a) = Inr node" "length (ncSend (objs a ! c)) < sendCap"
  shows "serves_clients c (active_clients now (UsersForNode n (store a))) (syncNode now n a)"
  using syncNode_serves [OF assms] active_clients_wf [of "store a" now n] assms(1)
  by (intro served_clients) (simp_all add: activeSignature_clients panel_ok_def)

lemma users_active_clients:
  "x \<in> set (active_clients now (UsersForNode n s)) \<longleftrightarrow>
   (\<exists>r \<in> set (users s). (urID r, n) \<in> set (user_nodes s) \<and> active (scanUser r) now \<and> x = \<lparr>cUUID = urUUID r, cEmail = urUsername r\<rparr>)"
  by (auto simp: active_clients_def UsersForNode_def image_iff)

section \<open>Synchronising many nodes\<close>

lemma conns_syncNode [simp]: "conns (syncNode now n a) = conns a"
  using frames_PushConfig(1) [of now n a] by (cases "PushConfig now n a") (auto simp: syncNode_def Let_def)

lemma syncNode_other:
  assumes "hub_ok a" "map_of (conns a) n = Some c" "m \<noteq> n"
  shows "objs (syncNode now m a) ! c = objs a ! c"
proof -
  obtain b a' where p: "PushConfig now m a = (b, a')" by (cases "PushConfig now m a")
  have "objs a' ! c = objs a ! c"
    using assms(1) p
  proof (cases rule: PushConfig_cases)
    case (sent c' node)
    have "c' \<noteq> c" using hub_okD(2) [OF assms(1) sent(2)] hub_okD(2) [OF assms(1,2)] assms(3) by metis
    with sent show ?thesis by (auto simp: trySend_def split: if_splits)
  qed simp
  with p show ?thesis by (auto simp: syncNode_def Let_def)
qed

lemma syncNodes_other:
  assumes "panel_ok a" "map_of (conns a) n = Some c" "n \<notin> set ms"
  shows "objs (syncNodes now ms a) ! c = objs a ! c"
  using assms
proof (induction ms arbitrary: a)
  case (Cons m ms)
  have "objs (syncNodes now ms (syncNode now m a)) ! c = objs (syncNode now m a) ! c"
    using Cons.prems by (intro Cons.IH) (auto intro: panel_ok_syncNode)
  also have "\<dots> = objs a ! c" using Cons.prems by (intro syncNode_other) (auto simp: panel_ok_def)
  finally show ?case by (simp add: syncNodes_def)
qed (simp add: syncNodes_def)

lemma syncNodes_serves:
  assumes "panel_ok a" "n \<in> set ms" "distinct ms" "map_of (conns a) n = Some c" "GetNode now n (store a) = Inr node"
    and "length (ncSend (objs a ! c)) < sendCap"
  shows "served c (activeSignature now (UsersForNode n (store a))) (syncNodes now ms a)"
  using assms
proof (induction ms arbitrary: a)
  case (Cons m ms)
  have ok: "panel_ok (syncNode now m a)" using Cons.prems(1) by (rule panel_ok_syncNode)
  show ?case
  proof (cases "m = n")
    case True
    have "objs (syncNodes now ms (syncNode now m a)) ! c = objs (syncNode now m a) ! c"
      using ok Cons.prems(3,4) True by (intro syncNodes_other) auto
    with syncNode_serves [OF Cons.prems(1,4,5,6)] True show ?thesis by (simp add: served_def stream_def syncNodes_def)
  next
    case False
    have "objs (syncNode now m a) ! c = objs a ! c"
      using Cons.prems(1,4) False by (intro syncNode_other) (auto simp: panel_ok_def)
    with Cons.IH [OF ok] Cons.prems False show ?thesis by (simp add: syncNodes_def)
  qed
qed simp

lemma served_checkUserTransitions [simp]: "served c sig (checkUserTransitions now a) = served c sig a"
  using check_user_frame [of now "ListUsers (store a)" a] by (simp add: served_def stream_def checkUserTransitions_def)

lemma serves_if_served:
  assumes "served c (activeSignature now (UsersForNode n s)) a" "users_valid s"
  shows "serves_clients c (active_clients now (UsersForNode n s)) a"
  using assms active_clients_wf [OF assms(2)] by (intro served_clients) (simp_all add: activeSignature_clients)

section \<open>A running example\<close>

definition demo_externs :: externs where
  "demo_externs = \<lparr>bcGenerate = (\<lambda>salt pw. Some (salt @ pw)), bcCompare = (\<lambda>h pw. suffix pw h), unicodeClass = (\<lambda>_. ROther)\<rparr>"

definition demo_aead :: aead where
  "demo_aead = \<lparr>NonceSize = 1, Seal = (\<lambda>nonce pt. pt), Open = (\<lambda>nonce ct. Some ct)\<rparr>"

definition demo_config :: Config where
  "demo_config = (ConfigFromEnv (\<lambda>k. ''''))\<lparr>JWTSecret := ''0123456789abcdef'', AllowWeakPass := True\<rparr>"

definition demo_boot :: "App option" where
  "demo_boot = boot demo_externs (\<lambda>_. demo_aead) (\<lambda>_. ''n'') (\<lambda>_. ''n'') ''n'' '''' (\<lambda>_. '''') demo_config demo_store"

definition demo_register :: Msg where
  "demo_register = (empty_msg TypeRegister)\<lparr>msgToken := ''tok'', msgVersion := ''v1''\<rparr>"

lemma demo_boot_state: "case demo_boot of None \<Rightarrow> False | Some a \<Rightarrow>
   conns a = [] \<and> objs a = [] \<and> activeCache a = [] \<and>
   nodes (store a) = [demo_node] \<and> users (store a) = [demo_user] \<and> user_nodes (store a) = [(1, 1)]"
  by (simp add: demo_boot_def boot_def validateSecrets_def validateUsername_iff demo_config_def ConfigFromEnv_def env_def
      cls_alnum_def hashPassword_def demo_externs_def EnsureAdmin_def query_row_def insert_admin_def encryptExisting_def
      newCrypter_def demo_store_def OpenStore_def restartBot_def setTelegram_def Let_def reencrypt_def demo_node_def)

lemma frames_forceSyncNode [simp]:
  "conns (forceSyncNode now n a) = conns a" "length (objs (forceSyncNode now n a)) = length (objs a)"
  using frames_PushConfig [of now n a] by (cases "PushConfig now n a"; auto simp: forceSyncNode_def Let_def)+

lemma trySend_queue: "length (ncSend (objs (snd (trySend c m a)) ! c')) \<le> Suc (length (ncSend (objs a ! c')))"
  by (cases "c < length (objs a)") (auto simp: trySend_def nth_list_update list_update_beyond)

lemma forceSyncNode_queue: "length (ncSend (objs (forceSyncNode now n a) ! c)) \<le> Suc (length (ncSend (objs a ! c)))"
proof -
  have "length (ncSend (objs (snd (PushConfig now n a)) ! c)) \<le> Suc (length (ncSend (objs a ! c)))"
    using trySend_queue by (auto simp: PushConfig_def split: option.splits sum.splits)
  then show ?thesis by (cases "PushConfig now n a") (auto simp: forceSyncNode_def Let_def)
qed

text \<open>The example panel with its node connected.\<close>

lemma demo_connecting:
  obtains a0 a where "demo_boot = Some a0" "handleWS 0 demo_register a0 = Some (0, a)" "panel_reach a"
    "map_of (conns a) 1 = Some 0" "length (ncSend (objs a ! 0)) < sendCap"
    "GetNode 0 1 (store a) = Inr (scanNode 0 (store a) (demo_node\<lparr>nrAgentVersion := ''v1''\<rparr>))"
    "users (store a) = [demo_user]" "user_nodes (store a) = [(1, 1)]"
proof -
  obtain a0 where a0: "demo_boot = Some a0" "conns a0 = []" "objs a0 = []"
    "nodes (store a0) = [demo_node]" "users (store a0) = [demo_user]" "user_nodes (store a0) = [(1, 1)]"
    using demo_boot_state by (auto split: option.splits)
  have "users_valid demo_store" by (simp add: users_valid_def demo_defs client_wf_def)
  then have r0: "panel_reach a0" using panel_reach.booted [OF demo_store_ok] a0(1) unfolding demo_boot_def by blast
  let ?b = "noticeOnline 1 ''n1'' (with_store (SetNodeAgentVersion 1 ''v1'') (with_store (TouchNode 0 1) (connect 1 a0)))"
  let ?a = "forceSyncNode 0 1 ?b"
  have "GetNodeByToken 0 ''tok'' (store a0) = Inr (scanNode 0 (store a0) demo_node)"
    by (simp add: GetNodeByToken_def query_row_def a0(4) demo_node_def)
  then have ws: "handleWS 0 demo_register a0 = Some (0, ?a)"
    by (simp add: handleWS_eq demo_register_def empty_msg_def a0(3) scanNode_def demo_node_def)
  from ws have r: "panel_reach ?a" using panel_reach.stepped [OF r0] panel_step.connected by blast
  have ok: "hub_ok a0" using panel_reach_ok [OF r0] by (simp add: panel_ok_def)
  have c: "map_of (conns ?a) 1 = Some 0" by (simp add: conns_connect a0(2,3))
  have "ncSend (objs ?b ! 0) = []" by (simp add: objs_connect [OF ok] a0(2,3))
  then have q: "length (ncSend (objs ?a ! 0)) < sendCap"
    using forceSyncNode_queue [of 0 1 ?b 0] by (simp add: sendCap_def)
  have "store ?a = SetNodeAgentVersion 1 ''v1'' (TouchNode 0 1 (store a0))" by simp
  then have "GetNode 0 1 (store ?a) = Inr (scanNode 0 (store ?a) (demo_node\<lparr>nrAgentVersion := ''v1''\<rparr>))"
    "users (store ?a) = [demo_user]" "user_nodes (store ?a) = [(1, 1)]"
    by (simp_all add: GetNode_def query_row_def node_row_ops a0(4-6) demo_node_def)
  with that a0(1) ws r c q show thesis by blast
qed

lemma demo_connected:
  obtains a where "panel_reach a" "map_of (conns a) 1 = Some 0" "length (ncSend (objs a ! 0)) < sendCap"
    "GetNode 0 1 (store a) = Inr (scanNode 0 (store a) (demo_node\<lparr>nrAgentVersion := ''v1''\<rparr>))"
    "users (store a) = [demo_user]" "user_nodes (store a) = [(1, 1)]"
  by (rule demo_connecting)

section \<open>Properties\<close>

text \<open>C2: Provisioning is correct and self-healing. In every state the panel can reach, however connections, frames, handlers and
  dropped messages interleaved before, synchronising a connected node whose write queue has room leaves the node with
  exactly the clients it should serve: the last configuration queued or written to its connection provisions the UUIDs and names of the
  assigned users that are enabled, unexpired and under quota (unless SHA-256 collides). Nothing stale survives, although the panel skips
  the push when its cached signature says the node is up to date. A synchronisation is one step here; \<open>Interleave\<close> shows what two
  that cross can do.\<close>

theorem sync_provisions_active_users:
  assumes "panel_reach a" "map_of (conns a) n = Some c" "GetNode now n (store a) = Inr node"
    and "length (ncSend (objs a ! c)) < sendCap"
  shows "serves_clients c (active_clients now (UsersForNode n (store a))) (syncNode now n a)"
  using assms by (intro syncNode_clients panel_reach_ok)

theorem sync_provisions_active_users_witness:
  "\<exists>a. panel_reach a \<and> map_of (conns a) 1 = Some 0 \<and>
     serves_clients 0 (active_clients 0 (UsersForNode 1 (store a))) (syncNode 0 1 a) \<and>
     active_clients 0 (UsersForNode 1 (store a)) = [\<lparr>cUUID = ''123e4567-e89b-42d3-a456-426614174000'', cEmail = ''al''\<rparr>]"
proof -
  obtain a where a: "panel_reach a" "map_of (conns a) 1 = Some 0" "length (ncSend (objs a ! 0)) < sendCap"
    "GetNode 0 1 (store a) = Inr (scanNode 0 (store a) (demo_node\<lparr>nrAgentVersion := ''v1''\<rparr>))"
    "users (store a) = [demo_user]" "user_nodes (store a) = [(1, 1)]"
    by (rule demo_connected)
  have "active_clients 0 (UsersForNode 1 (store a)) = [\<lparr>cUUID = ''123e4567-e89b-42d3-a456-426614174000'', cEmail = ''al''\<rparr>]"
    by (simp add: active_clients_def UsersForNode_def a(5,6) active_def) (simp add: demo_user_def)
  with sync_provisions_active_users [OF a(1,2,4,3)] a(1,2) show ?thesis by blast
qed

text \<open>C26: A node has at most one live connection and nothing piles up for it: in every state the panel can reach, two open
  connections of the same node are the same one (a reconnect closes the old socket), the hub's table lists exactly the open
  connections, and no write queue exceeds its capacity.\<close>

theorem hub_single_connection:
  assumes "panel_reach a" "c < length (objs a)"
  shows "(\<not> ncClosed (objs a ! c) \<longleftrightarrow> map_of (conns a) (ncNode (objs a ! c)) = Some c) \<and> length (ncSend (objs a ! c)) \<le> sendCap"
proof -
  have ok: "hub_ok a" using panel_reach_ok [OF assms(1)] by (simp add: panel_ok_def)
  have "length (ncSend (objs a ! c)) \<le> sendCap" using ok assms(2) by (simp add: hub_ok_def)
  moreover have "\<not> ncClosed (objs a ! c) \<Longrightarrow> map_of (conns a) (ncNode (objs a ! c)) = Some c"
    using ok assms(2) unfolding hub_ok_def by blast
  ultimately show ?thesis using hub_okD(3) [OF ok] by blast
qed

theorem hub_single_connection_witness:
  "\<exists>a. panel_reach a \<and> \<not> ncClosed (objs a ! 0) \<and> length (ncSend (objs a ! 0)) \<le> sendCap"
proof -
  obtain a where a: "panel_reach a" "map_of (conns a) 1 = Some 0" by (rule demo_connected)
  have ok: "hub_ok a" using panel_reach_ok [OF a(1)] by (simp add: panel_ok_def)
  with hub_single_connection [OF a(1) hub_okD(1) [OF ok a(2)]] hub_okD(2) [OF ok a(2)] a show ?thesis by auto
qed

text \<open>C27: A forced synchronisation (on connect, and after a node's keys or domain changed) either hands the node exactly the
  configuration that the stored node settings and the active users give now, or forgets the cached signature, so that the
  next synchronisation pushes again.\<close>

theorem force_sync_current_or_retried:
  assumes "panel_reach a"
  shows "(\<exists>c node. map_of (conns a) n = Some c \<and> GetNode now n (store a) = Inr node \<and>
      last_config (stream c (forceSyncNode now n a)) =
        Some (config_msg node (buildXrayConfig now node (UsersForNode n (store a))))) \<or>
    map_of (activeCache (forceSyncNode now n a)) n = None"
proof -
  have ok: "hub_ok a" using panel_reach_ok [OF assms] by (simp add: panel_ok_def)
  obtain b a' where p: "PushConfig now n a = (b, a')" by (cases "PushConfig now n a")
  from ok p show ?thesis
  proof (cases rule: PushConfig_cases)
    case refused
    with p show ?thesis by (simp add: forceSyncNode_def)
  next
    case (sent c node)
    with p show ?thesis
      by (simp add: forceSyncNode_def stream_def) (simp add: stream_trySend(1) last_config_snoc flip: stream_def)
  qed
qed

theorem force_sync_current_or_retried_witness:
  "\<exists>a. panel_reach a \<and> ((\<exists>c node. map_of (conns a) 1 = Some c \<and> GetNode 0 1 (store a) = Inr node \<and>
      last_config (stream c (forceSyncNode 0 1 a)) =
        Some (config_msg node (buildXrayConfig 0 node (UsersForNode 1 (store a))))) \<or>
    map_of (activeCache (forceSyncNode 0 1 a)) 1 = None)"
proof -
  obtain a where a: "panel_reach a" by (rule demo_connected)
  from force_sync_current_or_retried [OF a, of 1 0] a show ?thesis by blast
qed

text \<open>C16: Time-based enforcement. One round of the 30-second enforcement loop, in any reachable state, leaves every connected node
  known to the store and with room in its write queue with exactly the users that are active at that moment: whoever expired, ran
  out of quota or was disabled is gone from the node's last configuration, whoever became active again is in it. Rounds
  and handlers follow each other here; \<open>Interleave\<close> has the ones that cross.\<close>

theorem enforcement_reconciles_all_nodes:
  assumes "panel_reach a" "map_of (conns a) n = Some c" "GetNode now n (store a) = Inr node"
    and "length (ncSend (objs a ! c)) < sendCap"
  shows "serves_clients c (active_clients now (UsersForNode n (store a))) (enforcement_tick now a)"
proof -
  have ok: "panel_ok a" by (rule panel_reach_ok) fact
  have "n \<in> set (OnlineNodeIDs a)" "distinct (OnlineNodeIDs a)"
    using assms(2) ok by (auto simp: OnlineNodeIDs_def panel_ok_def hub_ok_def intro: map_of_SomeD rev_image_eqI)
  with ok assms(2-4) have "served c (activeSignature now (UsersForNode n (store a))) (enforcement_tick now a)"
    unfolding enforcement_tick_def served_checkUserTransitions by (intro syncNodes_serves)
  then show ?thesis using ok by (intro serves_if_served) (simp_all add: panel_ok_def)
qed

theorem enforcement_reconciles_all_nodes_witness:
  "\<exists>a. panel_reach a \<and> serves_clients 0 (active_clients 0 (UsersForNode 1 (store a))) (enforcement_tick 0 a)"
proof -
  obtain a where a: "panel_reach a" "map_of (conns a) 1 = Some 0" "length (ncSend (objs a ! 0)) < sendCap"
    "GetNode 0 1 (store a) = Inr (scanNode 0 (store a) (demo_node\<lparr>nrAgentVersion := ''v1''\<rparr>))"
    by (rule demo_connected)
  from enforcement_reconciles_all_nodes [OF a(1,2,4,3)] a(1) show ?thesis by blast
qed



end
