(* ===== verification/Api_Steps.thy ===== *)
theory Api_Steps
  imports Routes Bot Ids Hub_Inv
begin

text \<open>
  What the operator interfaces may do to the panel, as a step relation: the store operations with the
  conditions the code puts on them, synchronisation, and changes of state that provisioning does not
  read. Every route and every bot command is shown to be a sequence of such steps; invariants then need
  to be checked for the steps only.
\<close>

section \<open>The steps\<close>

definition uuid_made :: "string \<Rightarrow> bool" where
  "uuid_made u \<longleftrightarrow> (\<exists>b. length b = 16 \<and> u = newUUID (bytes_of b))"

definition user_input_ok :: "User \<Rightarrow> bool" where
  "user_input_ok u \<longleftrightarrow> validateUsername (uUsername u) = None \<and> uuid_made (uUUID u) \<and> 0 \<le> uResetDay u \<and> uResetDay u \<le> 28"

text \<open>The one secret setting, the Telegram token, is only written through \<open>SetSecretSetting\<close>.\<close>

inductive api_store :: "Store \<Rightarrow> Store \<Rightarrow> bool" where
  create_user: "CreateUser now u s = Inr (i, s') \<Longrightarrow> user_input_ok u \<Longrightarrow> api_store s s'"
| update_user: "GetUser (uID u) s = Inr u0 \<Longrightarrow> uResetDay u = uResetDay u0 \<or> 0 \<le> uResetDay u \<and> uResetDay u \<le> 28 \<Longrightarrow>
     api_store s (UpdateUser u s)"
| delete_user: "api_store s (DeleteUser i s)"
| set_user_nodes: "api_store s (SetUserNodes i ns s)"
| reset_traffic: "api_store s (ResetUserTraffic i s)"
| set_sub: "SetUserSubToken i tok s = Inr s' \<Longrightarrow> api_store s s'"
| set_uuid: "uuid_made u \<Longrightarrow> api_store s (SetUserUUID i u s)"
| set_portal_pw: "api_store s (SetUserPortalPassword i h mc s)"
| change_portal_pw: "api_store s (ChangeUserPortalPassword i h s)"
| bump_user: "api_store s (BumpUserSessionEpoch i s)"
| create_node: "CreateNode now nonce n s = Inr (i, s') \<Longrightarrow> validateNode n = None \<Longrightarrow> api_store s s'"
| update_node: "validateNode n = None \<Longrightarrow> api_store s (UpdateNode nonce n s)"
| delete_node: "api_store s (DeleteNode i s)"
| create_admin: "CreateAdmin name h s = Inr s' \<Longrightarrow> validateUsername name = None \<Longrightarrow> api_store s s'"
| delete_admin: "1 < CountAdmins s \<Longrightarrow> api_store s (DeleteAdmin name s)"
| set_admin_pw: "api_store s (SetAdminPassword name h s)"
| bump_admin: "api_store s (BumpAdminSessionEpoch name s)"
| set_totp: "api_store s (SetAdminTOTP nonce name sec en s)"
| set_setting: "k \<noteq> ''telegram_token'' \<Longrightarrow> api_store s (SetSetting k v s)"
| set_secret: "api_store s (SetSecretSetting nonce k v s)"
| add_audit: "api_store s (AddAudit now actor ac detail s)"

inductive api_step :: "App \<Rightarrow> App \<Rightarrow> bool" where
  stored: "api_store (store a) s \<Longrightarrow> api_step a (a\<lparr>store := s\<rparr>)"
| sync: "api_step a (syncNode now n a)"
| force_sync: "api_step a (forceSyncNode now n a)"
| other: "store a' = store a \<Longrightarrow> conns a' = conns a \<Longrightarrow> objs a' = objs a \<Longrightarrow> activeCache a' = activeCache a \<Longrightarrow> api_step a a'"

abbreviation api_stores :: "Store \<Rightarrow> Store \<Rightarrow> bool" where
  "api_stores \<equiv> api_store\<^sup>*\<^sup>*"

abbreviation api_steps :: "App \<Rightarrow> App \<Rightarrow> bool" where
  "api_steps \<equiv> api_step\<^sup>*\<^sup>*"

text \<open>Composition from the last operation backwards.\<close>

lemma api_step_after: "api_step b c \<Longrightarrow> api_steps a b \<Longrightarrow> api_steps a c"
  by (rule rtranclp.rtrancl_into_rtrancl)

lemma api_store_after: "api_store b c \<Longrightarrow> api_stores a b \<Longrightarrow> api_stores a c"
  by (rule rtranclp.rtrancl_into_rtrancl)

lemma stores_steps: "api_stores (store a) s \<Longrightarrow> api_steps a (a\<lparr>store := s\<rparr>)"
proof (induction rule: rtranclp_induct)
  case (step s s')
  have "api_step (a\<lparr>store := s\<rparr>) (a\<lparr>store := s\<rparr>\<lparr>store := s'\<rparr>)" using step.hyps(2) by (intro stored) simp
  with step.IH show ?case by simp
qed simp

lemma stores_after: "api_steps a b \<Longrightarrow> api_stores (store b) s \<Longrightarrow> api_steps a (b\<lparr>store := s\<rparr>)"
  using stores_steps [of b s] by simp

lemma other_after:
  assumes "api_steps a b" "store c = store b" "conns c = conns b" "objs c = objs b" "activeCache c = activeCache b"
  shows "api_steps a c"
  by (rule api_step_after [OF other]) (use assms in simp_all)

lemma audit_after: "api_steps a b \<Longrightarrow> api_steps a (audit r x d b)"
  unfolding audit_def Let_def by (rule stores_after) (simp_all add: api_store_after [OF add_audit])

lemma sync_after: "api_steps a b \<Longrightarrow> api_steps a (syncNodes now ns b)"
  unfolding syncNodes_def by (induction ns arbitrary: b) (auto intro: api_step_after [OF sync])

lemmas store_ops_after =
  delete_user set_user_nodes reset_traffic set_portal_pw change_portal_pw bump_user
  delete_node set_admin_pw bump_admin set_totp set_setting set_secret add_audit

lemmas steps_after = store_ops_after [THEN api_store_after] audit_after sync_after api_step_after [OF force_sync]
  stores_steps rtranclp.rtrancl_refl

section \<open>Handlers are sequences of steps\<close>

definition rand_ok :: "request \<Rightarrow> bool" where
  "rand_ok r \<longleftrightarrow> (\<forall>i n. length (rqRand r i n) = n)"

lemma uuid_made_rand [simp]: "rand_ok r \<Longrightarrow> uuid_made (newUUID (bytes_of (rqRand r i 16)))"
  by (auto simp: uuid_made_def rand_ok_def)

lemma rand_ok_vars [simp]: "rand_ok (r\<lparr>rqVars := v\<rparr>) = rand_ok r"
  by (simp add: rand_ok_def)

lemma CreateUser_stores: "CreateUser now u s = Inr (i, s') \<Longrightarrow> user_input_ok u \<Longrightarrow> api_stores s s'"
  by (blast intro: create_user)

lemma steps_CreateUser: "rand_ok r \<Longrightarrow> api_steps a (snd (handleCreateUser r a))"
  unfolding handleCreateUser_def Let_def
  by (auto simp: user_input_ok_def split: prod.splits option.splits sum.splits intro!: steps_after dest!: CreateUser_stores)

lemma GetUser_uID: "GetUser i s = Inr u \<Longrightarrow> uID u = i"
  by (auto simp: GetUser_def query_row_def dest: find_key_eq split: option.splits)

lemma UpdateUser_stores:
  assumes "GetUser i s = Inr u0" "uID u = uID u0" "uResetDay u = uResetDay u0 \<or> 0 \<le> uResetDay u \<and> uResetDay u \<le> 28"
  shows "api_stores s (UpdateUser u s)"
  using assms GetUser_uID [OF assms(1)] by (intro r_into_rtranclp update_user [of u s u0]) simp_all

lemma steps_UpdateUser: "api_steps a (snd (handleUpdateUser r a))"
proof (cases "pathID r")
  case (Some i)
  show ?thesis
  proof (cases "GetUser i (store a)")
    case (Inr u0)
    obtain ok b where d: "decode update_user_struct (rqBody r) update_user_zero = (ok, b)"
      by (cases "decode update_user_struct (rqBody r) update_user_zero")
    show ?thesis
    proof (cases "ok \<and> \<not> (ubResetDay b \<noteq> None \<and> (the (ubResetDay b) < 0 \<or> the (ubResetDay b) > 28))")
      case True
      then have "or_old (ubResetDay b) (uResetDay u0) = uResetDay u0
          \<or> 0 \<le> or_old (ubResetDay b) (uResetDay u0) \<and> or_old (ubResetDay b) (uResetDay u0) \<le> 28"
        by (cases "ubResetDay b") (auto simp: or_old_def)
      with True show ?thesis
        unfolding handleUpdateUser_def Let_def
        by (simp add: Some Inr d) (intro sync_after stores_steps UpdateUser_stores [OF Inr]; simp)
    qed (auto simp: handleUpdateUser_def Some Inr d)
  qed (simp add: handleUpdateUser_def Some)
qed (simp add: handleUpdateUser_def)

lemma steps_users [intro]:
  "api_steps a (snd (handleDeleteUser r a))" "api_steps a (snd (handleSetUserNodes r a))"
  "api_steps a (snd (handleResetUserTraffic r a))" "api_steps a (snd (handleSetPortalPassword X r a))"
  by (auto simp: handleDeleteUser_def handleSetUserNodes_def handleResetUserTraffic_def handleSetPortalPassword_def Let_def
      split: prod.splits option.splits sum.splits intro!: steps_after)

lemma SetUserSubToken_stores: "SetUserSubToken i t s = Inr s' \<Longrightarrow> api_stores s s'"
  by (blast intro: set_sub)

lemma CreateNode_stores: "CreateNode now nonce n s = Inr (i, s') \<Longrightarrow> validateNode n = None \<Longrightarrow> api_stores s s'"
  by (blast intro: create_node)

lemma CreateAdmin_stores: "CreateAdmin name h s = Inr s' \<Longrightarrow> validateUsername name = None \<Longrightarrow> api_stores s s'"
  by (blast intro: create_admin)

lemma steps_rotate [intro]: "api_steps a (snd (handleRotateSub r a))" "rand_ok r \<Longrightarrow> api_steps a (snd (handleRotateUUID r a))"
  by (auto simp: handleRotateSub_def handleRotateUUID_def Let_def split: option.splits sum.splits
      intro!: steps_after api_store_after [OF set_uuid] dest!: SetUserSubToken_stores)

lemma validateNode_token [simp]: "validateNode (n\<lparr>nToken := t\<rparr>) = validateNode n"
  by (cases n) (simp only: validateNode_def Node.simps)

lemma steps_nodes [intro]:
  "api_steps a (snd (handleCreateNode r a))" "api_steps a (snd (handleUpdateNode r a))" "api_steps a (snd (handleDeleteNode r a))"
  by (auto simp: handleCreateNode_def handleUpdateNode_def handleDeleteNode_def Let_def
      split: prod.splits option.splits sum.splits intro!: steps_after api_store_after [OF update_node] dest!: CreateNode_stores)

lemma steps_admins [intro]:
  "api_steps a (snd (handleCreateAdmin X r a))" "api_steps a (snd (handleDeleteAdmin r a))"
  "api_steps a (snd (handleChangeAdminPassword X r a))" "api_steps a (snd (handleLogoutAll r a))"
  by (auto simp: handleCreateAdmin_def handleDeleteAdmin_def handleChangeAdminPassword_def handleLogoutAll_def Let_def
      split: prod.splits option.splits sum.splits intro!: steps_after api_store_after [OF delete_admin] dest!: CreateAdmin_stores)

lemma steps_totp [intro]:
  "api_steps a (snd (handle2FASetup r a))" "api_steps a (snd (handle2FAVerify r a))" "api_steps a (snd (handle2FADisable r a))"
  by (auto simp: handle2FASetup_def handle2FAVerify_def handle2FADisable_def Let_def
      split: prod.splits option.splits intro!: steps_after)

section \<open>Login, portal and settings\<close>

lemma throttled_frame:
  assumes "throttled nano ip us a = (b, a')"
  shows "store a' = store a" "conns a' = conns a" "objs a' = objs a" "activeCache a' = activeCache a" "cfg a' = cfg a" "live a' = live a"
  using assms by (auto simp: throttled_def split: prod.splits if_splits)

lemma limiter_frame [simp]:
  "store (with_limiter f a) = store a" "conns (with_limiter f a) = conns a" "objs (with_limiter f a) = objs a"
  "activeCache (with_limiter f a) = activeCache a" "cfg (with_limiter f a) = cfg a" "live (with_limiter f a) = live a"
  by (simp_all add: with_limiter_def)

lemma throttled_after: "throttled nano ip us a = (b, a') \<Longrightarrow> api_steps a a'"
  by (rule other_after [OF rtranclp.rtrancl_refl]) (simp_all add: throttled_frame)

lemma limiter_after: "api_steps a b \<Longrightarrow> api_steps a (with_limiter f b)"
  by (rule other_after) simp_all

text \<open>Branch by branch: what a handler returns is a sequence of steps if every branch is.\<close>

lemma branch:
  "(c \<Longrightarrow> api_steps a (snd x)) \<Longrightarrow> (\<not> c \<Longrightarrow> api_steps a (snd y)) \<Longrightarrow> api_steps a (snd (if c then x else y))"
  "(\<And>u v. p = (u, v) \<Longrightarrow> api_steps a (snd (f u v))) \<Longrightarrow> api_steps a (snd (case p of (u, v) \<Rightarrow> f u v))"
  "(b \<Longrightarrow> api_steps a (snd x)) \<Longrightarrow> (\<not> b \<Longrightarrow> api_steps a (snd y)) \<Longrightarrow> api_steps a (snd (case b of True \<Rightarrow> x | False \<Rightarrow> y))"
  "(\<And>e. q = Inl e \<Longrightarrow> api_steps a (snd (g e))) \<Longrightarrow> (\<And>w. q = Inr w \<Longrightarrow> api_steps a (snd (h w))) \<Longrightarrow>
     api_steps a (snd (case q of Inl e \<Rightarrow> g e | Inr w \<Rightarrow> h w))"
  "(o' = None \<Longrightarrow> api_steps a (snd x)) \<Longrightarrow> (\<And>w. o' = Some w \<Longrightarrow> api_steps a (snd (h w))) \<Longrightarrow>
     api_steps a (snd (case o' of None \<Rightarrow> x | Some w \<Rightarrow> h w))"
  "api_steps a b' \<Longrightarrow> api_steps a (snd (rs, b'))"
  by (simp_all split: prod.splits bool.splits sum.splits option.splits)

lemma audit_store_after: "api_steps a b \<Longrightarrow> api_steps a (with_store (AddAudit now x y z) b)"
  by (rule stores_after) (simp_all add: api_store_after [OF add_audit])

lemma login_steps [intro]: "api_steps a (snd (handleLogin X r a))" "api_steps a (snd (handlePortalLogin X r a))"
  unfolding handleLogin_def handlePortalLogin_def Let_def count_failure_def clear_failures_def
  by (intro branch limiter_after audit_store_after rtranclp.rtrancl_refl; erule throttled_after)+

lemma portal_steps [intro]: "api_steps a (snd (handlePortalChangePassword X r a))"
  by (auto simp: handlePortalChangePassword_def Let_def split: prod.splits option.splits sum.splits intro!: steps_after)

lemma live_after: "api_steps a b \<Longrightarrow> api_steps a (with_live f b)"
  by (rule other_after) (simp_all add: with_live_def)

lemma settings_after:
  assumes "api_steps a b"
  shows "api_steps a (set_url v b)" "api_steps a (set_mode v b)" "api_steps a (set_keep n b)" "api_steps a (set_template v b)"
  using assms by (auto simp: set_url_def set_mode_def set_keep_def set_template_def split: option.splits
      intro!: stores_after live_after api_store_after [OF set_setting])

lemma settings_steps [intro]: "api_steps a (snd (handlePutSettings r a))"
  unfolding handlePutSettings_def handleGetSettings_def Let_def
  by (auto split: prod.splits intro!: audit_after settings_after)

lemma telegram_after: "api_steps a b \<Longrightarrow> api_steps a (restartBot (setTelegram t ids b))"
  by (rule other_after) (simp_all add: restartBot_def setTelegram_def)

lemma notify_steps [intro]: "api_steps a (snd (handleNotifySettings r a))" "api_steps a (snd (handleNotifyTest r a))"
proof -
  show "api_steps a (snd (handleNotifySettings r a))"
    unfolding handleNotifySettings_def handleNotifyStatus_def Let_def
    by (intro branch audit_after telegram_after stores_after api_store_after [OF set_setting] rtranclp.rtrancl_refl)
      (simp_all add: stores_steps api_store_after [OF set_secret])
  show "api_steps a (snd (handleNotifyTest r a))"
    unfolding handleNotifyTest_def
    by (intro branch rtranclp.rtrancl_refl, rule other_after [OF rtranclp.rtrancl_refl]) simp_all
qed

section \<open>Routes\<close>

lemma read_only [simp]:
  "snd (handleMe X r a) = a" "snd (handleLogout r a) = a" "snd (handleListNodes r a) = a" "snd (handleNodeInstall r a) = a"
  "snd (handleListUsers r a) = a" "snd (handleUserDevices r a) = a" "snd (handleUserTrafficHistory r a) = a"
  "snd (handleStats r a) = a" "snd (handleNodeTrafficHistory r a) = a" "snd (handleUserTrafficNodes r a) = a"
  "snd (handleUserSubInfo r a) = a" "snd (handleListAdmins r a) = a" "snd (handleListAudit r a) = a"
  "snd (handleRealityKeys X r a) = a" "snd (handle2FAStatus r a) = a" "snd (handle2FAQR X r a) = a"
  "snd (handleGetSettings r a) = a" "snd (handleNotifyStatus r a) = a" "snd (handleBackup io r a) = a"
  "snd (healthz r a) = a" "snd (handleSub r a) = a" "snd (handleSubClash X r a) = a" "snd (handleSubSingbox r a) = a"
  "snd (handlePortalPage r a) = a" "snd (handlePortalLogout r a) = a" "snd (handlePortalMe r a) = a" "snd (handlePortalQR X r a) = a"
  by (simp_all add: handleMe_def handleLogout_def handleListNodes_def handleNodeInstall_def handleListUsers_def handleUserDevices_def
      handleUserTrafficHistory_def handleStats_def handleNodeTrafficHistory_def handleUserTrafficNodes_def handleUserSubInfo_def
      handleListAdmins_def handleListAudit_def handleRealityKeys_def handle2FAStatus_def handle2FAQR_def handleGetSettings_def
      handleNotifyStatus_def handleBackup_def healthz_def handleSub_def handleSubClash_def handleSubSingbox_def handlePortalPage_def
      handlePortalLogout_def handlePortalMe_def handlePortalQR_def Let_def split: option.split sum.split prod.split backup_io.split)

lemma handlers_steps:
  assumes "rand_ok r"
  shows "list_all (\<lambda>rt. api_steps a (snd (rtHandler rt r a))) (public_routes X @ admin_routes X io)"
  unfolding public_routes_def admin_routes_def
  using assms by (simp add: public_def guarded_def steps_CreateUser steps_UpdateUser steps_users steps_rotate steps_nodes steps_admins
      steps_totp login_steps portal_steps settings_steps notify_steps)

lemma route_steps:
  assumes "rand_ok r" "rt \<in> set (public_routes X @ admin_routes X io)"
  shows "api_steps a (snd (run_route rt r a))"
proof -
  have "api_steps a (snd (rtHandler rt (r\<lparr>rqVars := v\<rparr>) a))" for v
    using handlers_steps [of "r\<lparr>rqVars := v\<rparr>" a X io] assms by (simp add: list_all_iff del: set_append)
  then show ?thesis by (simp add: run_route_def authenticated_def Let_def)
qed

lemma snd_serve:
  "snd (serve X io r a) =
     (case find (matches r) (public_routes X @ admin_routes X io) of None \<Rightarrow> a | Some rt \<Rightarrow> snd (run_route rt r a))"
  by (simp add: serve_def split: option.split prod.split)

lemma serve_steps: "rand_ok r \<Longrightarrow> api_steps a (snd (serve X io r a))"
  unfolding snd_serve using route_steps by (auto dest: find_key_eq split: option.split)

section \<open>Bot commands\<close>

lemma bot_add_steps: "rand_ok r \<Longrightarrow> api_steps a (snd (botAddUser r args a))"
  unfolding botAddUser_def Let_def
  by (auto simp: user_input_ok_def split: list.split option.splits sum.splits intro!: steps_after dest!: CreateUser_stores)

lemma bot_mutate_steps: "api_steps a (snd (botMutateUser now args ac a))"
  unfolding botMutateUser_def Let_def
  by (auto split: list.split sum.splits action.splits intro!: steps_after UpdateUser_stores)

lemma bot_exec_steps: "rand_ok r \<Longrightarrow> api_steps a (snd (botExec r cmd args a))"
  unfolding botExec_def by (intro branch bot_add_steps bot_mutate_steps rtranclp.rtrancl_refl) assumption+

end
