(* ===== verification/Panel_Inv.thy ===== *)
theory Panel_Inv
  imports Api_Steps Reports
begin

text \<open>
  The invariant of the whole panel: everything that can happen to it after start-up (requests, bot
  commands, frames and connections of nodes, background loops) keeps the store consistent, the stored
  users and nodes valid, the caches truthful, and at least one admin.
\<close>

section \<open>Valid data\<close>

definition user_row_ok :: "user_row \<Rightarrow> bool" where
  "user_row_ok r \<longleftrightarrow> validateUsername (urUsername r) = None \<and> uuid_v4 (urUUID r) \<and> 0 \<le> urResetDay r \<and> urResetDay r \<le> 28"

definition host_or_empty :: "string \<Rightarrow> bool" where
  "host_or_empty h \<longleftrightarrow> h = '''' \<or> validHostname h"

definition node_row_ok :: "node_row \<Rightarrow> bool" where
  "node_row_ok n \<longleftrightarrow> host_or_empty (nrAddress n) \<and> host_or_empty (nrTLSDomain n) \<and> host_or_empty (nrRealityServerName n)
     \<and> MatchString reShortID (nrRealityShortID n) \<and> MatchString reB64Key (nrRealityPublicKey n)"

definition data_ok :: "Store \<Rightarrow> bool" where
  "data_ok s \<longleftrightarrow> (\<forall>r \<in> set (users s). user_row_ok r) \<and> (\<forall>n \<in> set (nodes s). node_row_ok n)"

definition admins_named :: "Store \<Rightarrow> bool" where
  "admins_named s \<longleftrightarrow> (\<forall>r \<in> set (admins s). validateUsername (arUsername r) = None)"

definition sys_ok :: "Store \<Rightarrow> bool" where
  "sys_ok s \<longleftrightarrow> store_ok s \<and> data_ok s \<and> admins_named s \<and> admins s \<noteq> []"

lemma uuid_made_v4: "uuid_made u \<Longrightarrow> uuid_v4 u"
  by (auto simp: uuid_made_def intro: newUUID_v4)

lemma uuid_no_space: "uuid_v4 u \<Longrightarrow> CHR '' '' \<notin> set u"
proof
  assume u: "uuid_v4 u" and "CHR '' '' \<in> set u"
  then obtain i where "i < 36" "u ! i = CHR '' ''" by (auto simp: uuid_v4_def in_set_conv_nth)
  with u have "is_hex_digit (CHR '' '') \<or> CHR '' '' = CHR ''-''" unfolding uuid_v4_def by metis
  then show False by (simp add: is_hex_digit_def hex_alphabet_def)
qed

lemma data_ok_users_valid: "data_ok s \<Longrightarrow> users_valid s"
  using username_safe uuid_no_space by (auto simp: data_ok_def users_valid_def client_wf_def user_row_ok_def)

lemma validateNode_hosts:
  assumes "validateNode n = None"
  shows "host_or_empty (nAddress n)" "host_or_empty (nTLSDomain n)" "host_or_empty (nRealityServerName n)"
    "MatchString reShortID (nRealityShortID n)" "MatchString reB64Key (nRealityPublicKey n)" "MatchString reB64Key (nRealityPrivateKey n)"
proof -
  have "\<exists>D. validateNode n =
     (if nAddress n \<noteq> '''' \<and> \<not> validHostname (nAddress n) then Some ErrAddress
      else if nTLSDomain n \<noteq> '''' \<and> \<not> validHostname (nTLSDomain n) then Some ErrTLSDomain
      else if nRealityServerName n \<noteq> '''' \<and> \<not> validHostname (nRealityServerName n) then Some ErrServerName
      else if D \<noteq> None then D
      else if \<not> MatchString reShortID (nRealityShortID n) then Some ErrShortID
      else if \<not> MatchString reB64Key (nRealityPrivateKey n) \<or> \<not> MatchString reB64Key (nRealityPublicKey n) then Some ErrKeys
      else None)"
    unfolding validateNode_def Let_def by (rule exI) (rule refl)
  then obtain D where v: "validateNode n =
     (if nAddress n \<noteq> '''' \<and> \<not> validHostname (nAddress n) then Some ErrAddress
      else if nTLSDomain n \<noteq> '''' \<and> \<not> validHostname (nTLSDomain n) then Some ErrTLSDomain
      else if nRealityServerName n \<noteq> '''' \<and> \<not> validHostname (nRealityServerName n) then Some ErrServerName
      else if D \<noteq> None then D
      else if \<not> MatchString reShortID (nRealityShortID n) then Some ErrShortID
      else if \<not> MatchString reB64Key (nRealityPrivateKey n) \<or> \<not> MatchString reB64Key (nRealityPublicKey n) then Some ErrKeys
      else None)" ..
  show "host_or_empty (nAddress n)" "host_or_empty (nTLSDomain n)" "host_or_empty (nRealityServerName n)"
    "MatchString reShortID (nRealityShortID n)" "MatchString reB64Key (nRealityPublicKey n)" "MatchString reB64Key (nRealityPrivateKey n)"
    using assms unfolding v host_or_empty_def by (auto split: if_splits)
qed

section \<open>Operator steps\<close>

lemma ball_update: "(\<And>r. r \<in> set t \<Longrightarrow> P r \<Longrightarrow> P (f r)) \<Longrightarrow> \<forall>r \<in> set t. P r \<Longrightarrow> \<forall>r \<in> set (sql_update p f t). P r"
  by (simp add: ball_sql_update)

lemma data_ok_upd_user: "data_ok s \<Longrightarrow> (\<And>r. r \<in> set (users s) \<Longrightarrow> user_row_ok r \<Longrightarrow> user_row_ok (f r)) \<Longrightarrow> data_ok (upd_user i f s)"
  by (simp add: data_ok_def upd_user_def ball_sql_update)

lemma data_ok_frame [simp]:
  "data_ok (s\<lparr>admins := x1\<rparr>) = data_ok s" "data_ok (s\<lparr>settings := x2\<rparr>) = data_ok s" "data_ok (s\<lparr>user_nodes := x3\<rparr>) = data_ok s"
  "data_ok (s\<lparr>node_traffic := x4\<rparr>) = data_ok s" "data_ok (s\<lparr>user_devices := x5\<rparr>) = data_ok s"
  "data_ok (s\<lparr>traffic_daily := x6\<rparr>) = data_ok s" "data_ok (s\<lparr>node_traffic_daily := x7\<rparr>) = data_ok s"
  "data_ok (s\<lparr>audit_log := x8\<rparr>) = data_ok s" "data_ok (s\<lparr>seqAdmins := x9\<rparr>) = data_ok s" "data_ok (s\<lparr>seqAudit := x10\<rparr>) = data_ok s"
  "data_ok (s\<lparr>crypt := x11\<rparr>) = data_ok s" "data_ok (s\<lparr>seqUsers := x12\<rparr>) = data_ok s" "data_ok (s\<lparr>seqNodes := x13\<rparr>) = data_ok s"
  by (simp_all add: data_ok_def)

lemma GetUser_row:
  assumes "GetUser i s = Inr u"
  obtains r where "r \<in> set (users s)" "urID r = i" "u = (scanUser r)\<lparr>uNodeIDs := userNodeIDs i s\<rparr>"
  using assms by (auto simp: GetUser_def query_row_def dest: find_key_eq split: option.splits)

lemma api_store_data:
  assumes "api_store s s'" "data_ok s"
  shows "data_ok s'"
  using assms
proof (induction rule: api_store.induct)
  case (create_user now u s i s')
  then show ?case by (auto simp: CreateUser_def data_ok_def user_row_ok_def user_input_ok_def uuid_made_v4 split: if_splits)
next
  case (update_user u s u0)
  obtain r where r: "r \<in> set (users s)" "urID r = uID u" "uResetDay u0 = urResetDay r"
    by (rule GetUser_row [OF update_user.hyps(1)]) (simp add: scanUser_def)
  then have "0 \<le> uResetDay u" "uResetDay u \<le> 28"
    using update_user.hyps(2) update_user.prems by (auto simp: data_ok_def user_row_ok_def)
  with update_user.prems show ?case
    unfolding UpdateUser_def by (intro data_ok_upd_user) (simp_all add: user_row_ok_def)
next
  case (create_node now nonce n s i s')
  then show ?case using validateNode_hosts [of n] by (auto simp: CreateNode_def data_ok_def node_row_ok_def split: if_splits)
next
  case (update_node n s nonce)
  then show ?case using validateNode_hosts [of n] by (simp add: UpdateNode_def data_ok_def ball_sql_update node_row_ok_def)
next
  case (set_sub i tok s s')
  then show ?case by (auto simp: SetUserSubToken_def split: if_splits intro: data_ok_upd_user simp: user_row_ok_def)
next
  case (set_uuid u s i)
  then show ?case unfolding SetUserUUID_def by (intro data_ok_upd_user) (simp_all add: user_row_ok_def uuid_made_v4)
next
  case (create_admin name h s s')
  then show ?case by (auto simp: CreateAdmin_def insert_admin_def split: if_splits)
qed (auto simp: DeleteUser_def SetUserNodes_def ResetUserTraffic_def DeleteNode_def DeleteAdmin_def AddAudit_def SetSetting_def
    SetSecretSetting_def admin_row_ops user_row_ops data_ok_def ball_sql_update user_row_ok_def upd_user_def)

lemma api_store_step: "api_store s s' \<Longrightarrow> store_step s s'"
  by (induction rule: api_store.induct) (auto intro: store_step.intros)

lemma DeleteAdmin_rest:
  assumes "admins_ok s" "1 < CountAdmins s"
  shows "admins (DeleteAdmin name s) \<noteq> []"
proof
  assume "admins (DeleteAdmin name s) = []"
  then have "\<forall>r \<in> set (admins s). arUsername r = name" by (simp add: DeleteAdmin_def sql_delete_def filter_empty_conv)
  then have "set (map arUsername (admins s)) \<subseteq> {name}" by auto
  then have "card (set (map arUsername (admins s))) \<le> 1" using card_mono [of "{name}"] by fastforce
  moreover have "distinct (map arUsername (admins s))" using assms(1) by (simp add: admins_ok_def)
  ultimately show False using assms(2) distinct_card [of "map arUsername (admins s)"] by (simp add: CountAdmins_def)
qed

lemma api_store_admins:
  assumes "api_store s s'" "admins_ok s" "admins s \<noteq> []"
  shows "admins s' \<noteq> []"
  using assms
  by (induction rule: api_store.induct)
    (auto simp: DeleteAdmin_rest CreateUser_def CreateNode_def CreateAdmin_def insert_admin_def SetUserSubToken_def upd_user_def
      DeleteUser_def SetUserNodes_def ResetUserTraffic_def DeleteNode_def AddAudit_def SetSetting_def SetSecretSetting_def
      admin_row_ops user_row_ops node_row_ops sql_update_def split: if_splits)

lemma api_store_named: "api_store s s' \<Longrightarrow> admins_named s \<Longrightarrow> admins_named s'"
  by (induction rule: api_store.induct)
    (auto simp: admins_named_def DeleteAdmin_def CreateUser_def CreateNode_def CreateAdmin_def insert_admin_def SetUserSubToken_def upd_user_def
      DeleteUser_def SetUserNodes_def ResetUserTraffic_def DeleteNode_def AddAudit_def SetSetting_def SetSecretSetting_def
      admin_row_ops user_row_ops node_row_ops ball_sql_update split: if_splits)

lemma api_store_sys: "api_store s s' \<Longrightarrow> sys_ok s \<Longrightarrow> sys_ok s'"
  using api_store_data api_store_admins api_store_named store_step_ok [OF api_store_step] by (auto simp: sys_ok_def store_ok_def)

lemma sys_ok_panel_stored: "api_store (store a) s \<Longrightarrow> sys_ok (store a) \<Longrightarrow> panel_step a (a\<lparr>store := s\<rparr>)"
  using api_store_sys [of "store a" s] by (intro panel_step.stored api_store_step data_ok_users_valid) (auto simp: sys_ok_def)

definition full_ok :: "App \<Rightarrow> bool" where
  "full_ok a \<longleftrightarrow> panel_ok a \<and> sys_ok (store a)"

lemma api_step_ok: "api_step a b \<Longrightarrow> full_ok a \<Longrightarrow> full_ok b"
proof (induction rule: api_step.induct)
  case (stored a s)
  then show ?case
    using panel_step_ok [OF sys_ok_panel_stored [OF stored.hyps]] api_store_sys [OF stored.hyps] by (simp add: full_ok_def)
next
  case (other a' a)
  then show ?case using panel_ok_cong [of a a'] by (simp add: full_ok_def)
qed (simp_all add: full_ok_def panel_ok_syncNode panel_ok_forceSyncNode)

lemma api_steps_ok: "api_steps a b \<Longrightarrow> full_ok a \<Longrightarrow> full_ok b"
  by (induction rule: rtranclp_induct) (auto intro: api_step_ok)

section \<open>Node steps\<close>

inductive agent_store :: "Store \<Rightarrow> Store \<Rightarrow> bool" where
  set_seq: "agent_store s (SetNodeTrafficSeq n q s)"
| upsert_device: "agent_store s (UpsertDevice u n ip inb c seen s)"
| purge: "agent_store s (snd (PurgeDevices cutoff s))"
| set_version: "agent_store s (SetNodeAgentVersion n ver s)"
| touch: "agent_store s (TouchNode now n s)"
| add_traffic: "agent_store s (AddTraffic now u n up down s)"
| reset_user_traffic: "agent_store s (ResetUserTraffic u s)"
| set_last_reset: "agent_store s (SetUserLastReset u ts s)"

abbreviation agent_stores :: "Store \<Rightarrow> Store \<Rightarrow> bool" where
  "agent_stores \<equiv> agent_store\<^sup>*\<^sup>*"

lemma agent_store_sys: "agent_store s s' \<Longrightarrow> sys_ok s \<Longrightarrow> sys_ok s'"
proof -
  assume step: "agent_store s s'" and ok: "sys_ok s"
  have "store_step s s'" using step by (induction rule: agent_store.induct) (auto intro: store_step.intros)
  then have "store_ok s'" using ok store_step_ok by (auto simp: sys_ok_def)
  moreover have "data_ok s' \<and> admins_named s' \<and> admins s' \<noteq> []"
    using step ok by (induction rule: agent_store.induct)
      (auto simp: sys_ok_def SetNodeTrafficSeq_def UpsertDevice_def PurgeDevices_def SetNodeAgentVersion_def TouchNode_def AddTraffic_def
        ResetUserTraffic_def SetUserLastReset_def upd_user_def data_ok_def ball_sql_update user_row_ok_def node_row_ok_def admins_named_def Let_def)
  ultimately show ?thesis by (simp add: sys_ok_def)
qed

lemma agent_after: "agent_store b c \<Longrightarrow> agent_stores a b \<Longrightarrow> agent_stores a c"
  by (rule rtranclp.rtrancl_into_rtrancl)

lemmas agent_ops_after = agent_store.intros [THEN agent_after] rtranclp.rtrancl_refl

lemma ingest_agent: "agent_stores s s0 \<Longrightarrow> agent_stores s (fst (fold (ingest_item now n al) items (s0, u, d)))"
proof (rule fold_keeps [where P = "\<lambda>st. agent_stores s (fst st)"])
  show "agent_stores s (fst (ingest_item now n al it st))" if "agent_stores s (fst st)" for it st
    using that by (cases st) (auto simp: ingest_item_def split: option.splits intro: agent_ops_after)
qed simp

lemma ingestTraffic_agent: "agent_stores (store a) (store (ingestTraffic now n q items a))"
proof -
  let ?f = "fold (ingest_item now n (allowed_users (UsersForNode n (store a)))) items (store a, 0, 0)"
  have "agent_stores (store a) (fst ?f)" by (rule ingest_agent) simp
  then show ?thesis
    by (cases ?f) (auto simp: ingestTraffic_def Let_def split: sum.splits intro: agent_ops_after)
qed

lemma ingestDevices_agent: "agent_stores (store a) (store (ingestDevices now n items a))"
proof -
  have "agent_stores s (fold (ingest_device now n al) items s0)" if "agent_stores s s0" for s s0 al
    by (rule fold_keeps [where P = "agent_stores s", OF _ that])
      (auto simp: ingest_device_def Let_def split: option.splits intro: agent_ops_after)
  then show ?thesis by (simp add: ingestDevices_def)
qed

lemma handleMsg_agent: "agent_stores (store a) (store (handleMsg now c m a))"
  using ingestTraffic_agent ingestDevices_agent
  by (auto simp: handleMsg_def Let_def setNodeMetrics_def split: option.splits intro: agent_ops_after)

lemma handleWS_agent: "handleWS now reg a = Some (c, a') \<Longrightarrow> agent_stores (store a) (store a')"
  by (auto simp: handleWS_def Let_def register_def close_conn_def split: if_splits sum.splits option.splits intro!: agent_ops_after)

lemma reset_user_agent: "agent_stores s (store a) \<Longrightarrow> agent_stores s (store (reset_user now u a))"
  by (auto simp: reset_user_def intro: agent_ops_after)

lemma autoReset_agent: "agent_stores (store a) (store (autoReset_tick now a))"
proof -
  have "agent_stores s (store (fold (reset_user now) us b))" if "agent_stores s (store b)" for s us b
    by (rule fold_keeps [where P = "\<lambda>b. agent_stores s (store b)", OF reset_user_agent that])
  then show ?thesis by (simp add: autoReset_tick_def)
qed

section \<open>Everything that can happen\<close>

inductive run_step :: "App \<Rightarrow> App \<Rightarrow> bool" where
  request: "rand_ok r \<Longrightarrow> run_step a (snd (serve X io r a))"
| told: "rand_ok r \<Longrightarrow> run_step a (snd (botHandle r chat text (sent, a)))"
| connected: "handleWS now reg a = Some (c, a') \<Longrightarrow> run_step a a'"
| frame: "c < length (objs a) \<Longrightarrow> run_step a (handleMsg now c m a)"
| disconnected: "c < length (objs a) \<Longrightarrow> run_step a (unregister now c a)"
| written: "c < length (objs a) \<Longrightarrow> run_step a (write_one c a)"
| enforced: "run_step a (enforcement_tick now a)"
| resets: "run_step a (autoReset_tick now a)"
| purged: "run_step a (purge_tick now a)"
| noticed: "run_step a (offlineNotice now n a)"

inductive running :: "App \<Rightarrow> bool" where
  booted: "store_ok s \<Longrightarrow> data_ok s \<Longrightarrow> admins_named s \<Longrightarrow> boot X derive nn an tn salt e c s = Some a \<Longrightarrow> running a"
| stepped: "running a \<Longrightarrow> run_step a a' \<Longrightarrow> running a'"

lemma botHandle_steps: "rand_ok r \<Longrightarrow> api_steps a (snd (botHandle r chat text (sent, a)))"
proof (cases "Fields text")
  case (Cons w args)
  assume "rand_ok r"
  then have "api_steps a (snd (botExec r (command_of w) args a))" by (rule bot_exec_steps)
  with Cons show ?thesis by (cases "botExec r (command_of w) args a") (auto simp: botHandle_def)
qed (simp add: botHandle_def)

lemma store_unregister [simp]: "store (unregister now c a) = store a"
  by (simp add: unregister_def Let_def close_conn_def scheduleOfflineNotice_def)

lemma store_write_one [simp]: "store (write_one c a) = store a"
  by (simp add: write_one_def split: list.split)

lemma store_enforcement [simp]: "store (enforcement_tick now a) = store a"
  using check_user_frame by (simp add: enforcement_tick_def checkUserTransitions_def)

lemma store_offlineNotice [simp]: "store (offlineNotice now n a) = store a"
  by (simp add: offlineNotice_def split: option.split sum.split)

text \<open>What every statement of the interfaces and of the agents' frames keeps of the database, everything that happens keeps.\<close>

locale store_invariant =
  fixes I :: "Store \<Rightarrow> bool"
  assumes api: "api_store s s' \<Longrightarrow> I s \<Longrightarrow> I s'"
    and agent: "agent_store s s' \<Longrightarrow> I s \<Longrightarrow> I s'"
begin

lemma agents: "agent_stores s s' \<Longrightarrow> I s \<Longrightarrow> I s'"
  by (induction rule: rtranclp_induct) (auto intro: agent)

lemma steps: "api_steps a b \<Longrightarrow> I (store a) \<Longrightarrow> I (store b)"
proof (induction rule: rtranclp_induct)
  case (step b c)
  from step.hyps(2) step.IH [OF step.prems] show ?case
    by (induction rule: api_step.induct) (simp_all add: api)
qed

lemma run: "run_step a b \<Longrightarrow> I (store a) \<Longrightarrow> I (store b)"
proof (induction rule: run_step.induct)
  case (request r X io a)
  then show ?case using steps serve_steps by blast
next
  case (told r chat tx sent a)
  then show ?case using steps botHandle_steps by blast
next
  case (connected now reg a c a')
  then show ?case using agents handleWS_agent by blast
next
  case (frame c a now m)
  then show ?case using agents handleMsg_agent by blast
next
  case (resets a now)
  then show ?case using agents autoReset_agent by blast
next
  case (purged a now)
  have "agent_stores (store a) (store (purge_tick now a))" by (auto simp: purge_tick_def intro: agent_ops_after)
  with purged show ?case by (rule agents [rotated])
qed simp_all

text \<open>So a start that establishes it, establishes it for good.\<close>

lemma always:
  assumes "running a" "\<And>s X derive nn an tn salt e c a. store_ok s \<Longrightarrow> data_ok s \<Longrightarrow> boot X derive nn an tn salt e c s = Some a \<Longrightarrow> I (store a)"
  shows "I (store a)"
  using assms(1) by (induction rule: running.induct) (auto intro: assms(2) run)

end

interpretation sys: store_invariant sys_ok
  by unfold_locales (auto intro: api_store_sys agent_store_sys)

lemma full_ok_panel: "full_ok a \<Longrightarrow> panel_steps a b \<Longrightarrow> agent_stores (store a) (store b) \<Longrightarrow> full_ok b"
  using panel_steps_ok sys.agents by (auto simp: full_ok_def)

lemma full_ok_step: "full_ok a \<Longrightarrow> panel_step a b \<Longrightarrow> agent_stores (store a) (store b) \<Longrightarrow> full_ok b"
  using full_ok_panel r_into_rtranclp by metis

lemma full_ok_valid: "full_ok a \<Longrightarrow> users_valid (store a)"
  by (simp add: full_ok_def sys_ok_def data_ok_users_valid)

lemma run_step_ok: "run_step a b \<Longrightarrow> full_ok a \<Longrightarrow> full_ok b"
proof (induction rule: run_step.induct)
  case (request r X io a)
  then show ?case using api_steps_ok serve_steps by blast
next
  case (told r chat tx sent a)
  then show ?case using api_steps_ok botHandle_steps by blast
next
  case (connected now reg a c a')
  then show ?case using full_ok_step [OF _ panel_step.connected] handleWS_agent by blast
next
  case (frame c a now m)
  then show ?case using full_ok_step [OF _ panel_step.frame] handleMsg_agent by blast
next
  case (disconnected c a now)
  then show ?case using full_ok_step [OF _ panel_step.disconnected] by simp
next
  case (written c a)
  then show ?case using full_ok_step [OF _ panel_step.written] by simp
next
  case (enforced a now)
  then show ?case using full_ok_panel [OF _ panel_steps_enforcement] by simp
next
  case (resets a now)
  then show ?case using full_ok_panel [OF _ panel_steps_autoReset] full_ok_valid autoReset_agent by blast
next
  case (purged a now)
  have "agent_stores (store a) (store (purge_tick now a))" by (auto simp: purge_tick_def intro: agent_ops_after)
  then show ?case using full_ok_panel [OF _ panel_steps_purge] purged full_ok_valid by blast
next
  case (noticed a now n)
  then show ?case using full_ok_panel [OF _ panel_steps_offlineNotice] by simp
qed

lemma boot_admins:
  assumes "boot X derive nn an tn salt e c s = Some a"
  shows "admins (store a) \<noteq> []"
  using assms by (auto simp: boot_def Let_def restartBot_def setTelegram_def EnsureAdmin_def insert_admin_def query_row_def
      split: if_splits option.splits sum.splits store_error.splits)

lemma EnsureAdmin_data: "EnsureAdmin u h s = Inr s' \<Longrightarrow> data_ok s \<Longrightarrow> data_ok s'"
  by (auto simp: EnsureAdmin_def insert_admin_def split: if_splits sum.splits store_error.splits)

lemma boot_data:
  assumes "data_ok s" "boot X derive nn an tn salt e c s = Some a"
  shows "data_ok (store a)"
proof -
  let ?s1 = "encryptExisting nn an tn (s\<lparr>crypt := newCrypter derive (JWTSecret c)\<rparr>)"
  have "data_ok ?s1" using assms(1) by (auto simp: encryptExisting_def data_ok_def node_row_ok_def split: option.split)
  moreover obtain h where "EnsureAdmin (AdminUser c) h ?s1 = Inr (store a)"
    using assms(2) by (auto simp: boot_def Let_def restartBot_def setTelegram_def split: if_splits option.splits sum.splits)
  ultimately show ?thesis using EnsureAdmin_data by blast
qed

lemma EnsureAdmin_named:
  "EnsureAdmin u h s = Inr s' \<Longrightarrow> validateUsername u = None \<Longrightarrow> admins_named s \<Longrightarrow> admins_named s'"
  by (auto simp: EnsureAdmin_def insert_admin_def admins_named_def split: if_splits sum.splits store_error.splits)

lemma boot_named:
  assumes "admins_named s" "boot X derive nn an tn salt e c s = Some a"
  shows "admins_named (store a)"
proof -
  let ?s1 = "encryptExisting nn an tn (s\<lparr>crypt := newCrypter derive (JWTSecret c)\<rparr>)"
  have "admins_named ?s1" using assms(1) by (auto simp: encryptExisting_def admins_named_def split: option.split)
  moreover obtain h where "EnsureAdmin (AdminUser c) h ?s1 = Inr (store a)" "validateSecrets X c = None"
    using assms(2) by (auto simp: boot_def Let_def restartBot_def setTelegram_def split: if_splits option.splits sum.splits)
  moreover from this(2) have "validateUsername (AdminUser c) = None"
    by (auto simp: validateSecrets_def split: if_splits)
  ultimately show ?thesis using EnsureAdmin_named by blast
qed

lemma running_ok: "running a \<Longrightarrow> full_ok a"
proof (induction rule: running.induct)
  case (booted s X derive nn an tn salt e c a)
  then have "panel_ok a" using boot_ok data_ok_users_valid by blast
  with booted show ?case using boot_admins boot_data boot_named by (auto simp: full_ok_def sys_ok_def panel_ok_def)
qed (rule run_step_ok)

section \<open>A fresh panel\<close>

definition fresh_boot :: "App option" where
  "fresh_boot = boot demo_externs (\<lambda>_. demo_aead) (\<lambda>_. ''n'') (\<lambda>_. ''n'') ''n'' '''' (\<lambda>_. '''') demo_config OpenStore"

lemma OpenStore_ok: "store_ok OpenStore" "data_ok OpenStore" "admins_named OpenStore"
  by (simp_all add: store_ok_defs data_ok_def admins_named_def OpenStore_def)

lemma fresh_state:
  obtains a where "fresh_boot = Some a" "running a" "users (store a) = []" "JWTSecret (cfg a) = ''0123456789abcdef''"
    "admins (store a) = [\<lparr>arID = 1, arUsername = ''admin'', arPasswordHash = ''admin'', arTOTPSecret = '''', arTOTPEnabled = 0, arSessionEpoch = 0\<rparr>]"
    "loginLimiter a = newLimiter 8 300000000000"
proof -
  have "case fresh_boot of None \<Rightarrow> False | Some a \<Rightarrow> users (store a) = [] \<and> JWTSecret (cfg a) = ''0123456789abcdef'' \<and>
      admins (store a) = [\<lparr>arID = 1, arUsername = ''admin'', arPasswordHash = ''admin'', arTOTPSecret = '''', arTOTPEnabled = 0, arSessionEpoch = 0\<rparr>] \<and>
      loginLimiter a = newLimiter 8 300000000000"
    by (simp add: fresh_boot_def boot_def validateSecrets_def validateUsername_iff demo_config_def ConfigFromEnv_def env_def
      cls_alnum_def hashPassword_def demo_externs_def EnsureAdmin_def query_row_def insert_admin_def encryptExisting_def
      newCrypter_def OpenStore_def restartBot_def setTelegram_def Let_def reencrypt_def)
  then obtain a where "fresh_boot = Some a" "users (store a) = []" "JWTSecret (cfg a) = ''0123456789abcdef''"
    "admins (store a) = [\<lparr>arID = 1, arUsername = ''admin'', arPasswordHash = ''admin'', arTOTPSecret = '''', arTOTPEnabled = 0, arSessionEpoch = 0\<rparr>]"
    "loginLimiter a = newLimiter 8 300000000000"
    by (auto split: option.splits)
  moreover from this(1) have "running a" unfolding fresh_boot_def by (rule running.booted [OF OpenStore_ok])
  ultimately show thesis using that by blast
qed

section \<open>Properties\<close>


definition demo_request :: request where
  "demo_request = \<lparr>rqMethod = ''POST'', rqPath = [''api'', ''users''], rqVars = [], rqQuery = [], rqCookies = [],
     rqRemoteAddr = ''10.0.0.1:555'', rqBody = None, rqNano = 60000000000, rqRand = (\<lambda>i n. replicate n (CHR ''r''))\<rparr>"

definition demo_outside :: outside where
  "demo_outside = \<lparr>oExt = demo_externs, oX25519 = (\<lambda>p. Some p), oQR = (\<lambda>t. Some t), oIsPrint = (\<lambda>_. True), oVersion = ''dev''\<rparr>"

lemma demo_rand: "rand_ok demo_request"
  by (simp add: rand_ok_def demo_request_def)


text \<open>C7: the invariant of the running panel. From any consistent database on, through start-up and every interleaving of
  requests, bot commands, node connections, frames, disconnections, write-loop turns and background loops, the
  panel always has an admin, every stored user has a validated unique name, a version 4 UUID and a reset day
  in range, every stored node has validated host names and key material, and the store, the connection table
  and the signature cache satisfy \<open>panel_ok A request is
  one step here; \<open>Interleave\<close> has the two handlers whose steps matter.\<close>.\<close>

theorem running_panel_invariant:
  assumes "running a"
  shows "admins (store a) \<noteq> [] \<and> distinct (map urUsername (users (store a)))
    \<and> (\<forall>u \<in> set (users (store a)). validateUsername (urUsername u) = None \<and> uuid_v4 (urUUID u) \<and> 0 \<le> urResetDay u \<and> urResetDay u \<le> 28)
    \<and> (\<forall>n \<in> set (nodes (store a)). node_row_ok n) \<and> panel_ok a"
  using running_ok [OF assms] by (auto simp: full_ok_def sys_ok_def data_ok_def user_row_ok_def store_ok_def users_ok_def)

theorem running_panel_invariant_witness:
  "\<exists>a. running (snd (serve demo_outside Copied demo_request a)) \<and> panel_ok (snd (serve demo_outside Copied demo_request a))
     \<and> admins (store (snd (serve demo_outside Copied demo_request a))) \<noteq> []"
proof -
  obtain a where "running a" by (rule fresh_state)
  then have "running (snd (serve demo_outside Copied demo_request a))"
    by (rule running.stepped) (rule run_step.request [OF demo_rand])
  with running_panel_invariant show ?thesis by blast
qed

end
