(* ===== verification/Access.thy ===== *)
theory Access
  imports Panel_Inv
begin

text \<open>
  Who can do what through the HTTP interface: what a request without an admin session can change,
  which logins earn a session and for how long, and which operations end one. The session tokens are
  those of \<open>src/internal/panel/auth.go\<close>; the handlers are those of \<open>Api\<close> and \<open>Accounts\<close> behind the
  table of \<open>Routes\<close>.
\<close>

section \<open>Logins\<close>

text \<open>The login the body of a request asks for is granted: it names an admin, neither key is throttled, the password
  matches, and with two-factor authentication on the code is one of the three current ones.\<close>

definition login_granted :: "outside \<Rightarrow> request \<Rightarrow> App \<Rightarrow> Admin \<Rightarrow> bool" where
  "login_granted X r a adm \<longleftrightarrow>
     (case decode login_struct (rqBody r) login_zero of
        (ok, b) \<Rightarrow> ok \<and> \<not> fst (throttled (rqNano r) (''ip:'' @ clientIP r) (''user:'' @ lbUsername b) a)
          \<and> GetAdmin (lbUsername b) (store a) = Inr adm \<and> checkPassword (oExt X) (aPasswordHash adm) (lbPassword b)
          \<and> (aTOTPEnabled adm \<longrightarrow> totpVerify (Now r) (aTOTPSecret adm) (lbCode b)))"

definition portal_login_granted :: "outside \<Rightarrow> request \<Rightarrow> App \<Rightarrow> User \<Rightarrow> bool" where
  "portal_login_granted X r a u \<longleftrightarrow>
     (case decode credentials_struct (rqBody r) login_zero of
        (ok, b) \<Rightarrow> ok \<and> \<not> fst (throttled (rqNano r) (''pip:'' @ clientIP r) (''puser:'' @ lbUsername b) a)
          \<and> GetUserByName (lbUsername b) (store a) = Inr u \<and> uPortalPasswordHash u \<noteq> ''''
          \<and> checkPassword (oExt X) (uPortalPasswordHash u) (lbPassword b))"

definition login_token :: "request \<Rightarrow> App \<Rightarrow> Admin \<Rightarrow> string" where
  "login_token r a adm = signSession (Now r) (JWTSecret (cfg a)) roleAdmin (aUsername adm) (aSessionEpoch adm) 86400"

lemma totpVerify_empty [simp]: "\<not> totpVerify now sec ''''"
  by (simp add: totpVerify_def)

lemma throttled_only_limiter: "\<exists>l. snd (throttled nano ip us a) = a\<lparr>loginLimiter := l\<rparr>"
  by (auto simp: throttled_def split: prod.split)

lemma granted_session:
  assumes "login_granted X r a adm"
  obtains l where
    "snd (handleLogin X r a) = a\<lparr>loginLimiter := l, store := AddAudit (Now r) (aUsername adm) ''login'' (clientIP r) (store a)\<rparr>"
    "map_option ckName (rsCookie (fst (handleLogin X r a))) = Some sessionCookie"
    "map_option ckValue (rsCookie (fst (handleLogin X r a))) = Some (login_token r a adm)"
proof -
  obtain ok b where d: "decode login_struct (rqBody r) login_zero = (ok, b)" by fastforce
  obtain bl a1 where t: "throttled (rqNano r) (''ip:'' @ clientIP r) (''user:'' @ lbUsername b) a = (bl, a1)" by fastforce
  obtain l where a1: "a1 = a\<lparr>loginLimiter := l\<rparr>" using throttled_only_limiter t by (metis snd_conv)
  note t' = t [unfolded append.simps]
  show thesis
    by (rule that [of "reset (''user:'' @ lbUsername b) (reset (''ip:'' @ clientIP r) l)"])
      (use assms in \<open>auto simp: login_granted_def handleLogin_def d t' a1 Let_def login_token_def session_cookie_def clear_failures_def
        with_limiter_def writeJSON_def\<close>)
qed

text \<open>The two outcomes of a login request.\<close>

lemma handleLogin_cases:
  obtains (granted) adm l where "login_granted X r a adm"
    "snd (handleLogin X r a) = a\<lparr>loginLimiter := l, store := AddAudit (Now r) (aUsername adm) ''login'' (clientIP r) (store a)\<rparr>"
    "map_option ckName (rsCookie (fst (handleLogin X r a))) = Some sessionCookie"
    "map_option ckValue (rsCookie (fst (handleLogin X r a))) = Some (login_token r a adm)"
  | (refused) l where "snd (handleLogin X r a) = a\<lparr>loginLimiter := l\<rparr>" "rsCookie (fst (handleLogin X r a)) = None"
proof -
  obtain ok b where d: "decode login_struct (rqBody r) login_zero = (ok, b)" by fastforce
  obtain bl a1 where t: "throttled (rqNano r) (''ip:'' @ clientIP r) (''user:'' @ lbUsername b) a = (bl, a1)" by fastforce
  obtain l where a1: "a1 = a\<lparr>loginLimiter := l\<rparr>" using throttled_only_limiter t by (metis snd_conv)
  note t' = t [unfolded append.simps]
  show thesis
  proof (cases "\<exists>adm. login_granted X r a adm")
    case True
    then obtain adm where g: "login_granted X r a adm" ..
    show thesis by (rule granted_session [OF g]) (rule granted [OF g])
  next
    case False
    show thesis
    proof (cases "\<not> ok")
      case True
      show thesis by (rule refused [of "loginLimiter a"]) (use True in \<open>simp_all add: handleLogin_def d writeErr_def writeJSON_def\<close>)
    next
      case ok: False
      then have "\<exists>l'. snd (handleLogin X r a) = a\<lparr>loginLimiter := l'\<rparr> \<and> rsCookie (fst (handleLogin X r a)) = None"
        using False by (auto simp: login_granted_def handleLogin_def d t' a1 Let_def count_failure_def with_limiter_def writeErr_def
          writeJSON_def errTOTP_def split: bool.split sum.split)
      then show thesis using refused by blast
    qed
  qed
qed

lemma handlePortalLogin_cases:
  obtains (granted) u l where "portal_login_granted X r a u" "snd (handlePortalLogin X r a) = a\<lparr>loginLimiter := l\<rparr>"
    "rsCookie (fst (handlePortalLogin X r a)) = Some (portal_session r (uID u) (uSessionEpoch u) (snd (handlePortalLogin X r a)))"
  | (refused) l where "snd (handlePortalLogin X r a) = a\<lparr>loginLimiter := l\<rparr>" "rsCookie (fst (handlePortalLogin X r a)) = None"
proof -
  obtain ok b where d: "decode credentials_struct (rqBody r) login_zero = (ok, b)" by fastforce
  obtain bl a1 where t: "throttled (rqNano r) (''pip:'' @ clientIP r) (''puser:'' @ lbUsername b) a = (bl, a1)" by fastforce
  obtain l where a1: "a1 = a\<lparr>loginLimiter := l\<rparr>" using throttled_only_limiter t by (metis snd_conv)
  note t' = t [unfolded append.simps]
  show thesis
  proof (cases "\<exists>u. portal_login_granted X r a u")
    case True
    then obtain u where g: "portal_login_granted X r a u" ..
    show thesis
      by (rule granted [OF g, of "reset (''puser:'' @ lbUsername b) (reset (''pip:'' @ clientIP r) l)"])
        (use g in \<open>auto simp: portal_login_granted_def handlePortalLogin_def d t' a1 Let_def clear_failures_def with_limiter_def writeJSON_def\<close>)
  next
    case False
    show thesis
    proof (cases ok)
      case True
      with False have "\<exists>l'. snd (handlePortalLogin X r a) = a\<lparr>loginLimiter := l'\<rparr> \<and> rsCookie (fst (handlePortalLogin X r a)) = None"
        by (auto simp: portal_login_granted_def handlePortalLogin_def d t' a1 Let_def count_failure_def with_limiter_def writeErr_def
          writeJSON_def split: bool.split sum.split)
      then show thesis using refused by blast
    next
      case False
      show thesis by (rule refused [of "loginLimiter a"]) (use False in \<open>simp_all add: handlePortalLogin_def d writeErr_def writeJSON_def\<close>)
    qed
  qed
qed

section \<open>Requests without an admin session\<close>

definition anon_effect :: "outside \<Rightarrow> request \<Rightarrow> App \<Rightarrow> App \<Rightarrow> bool" where
  "anon_effect X r a a' \<longleftrightarrow>
     (\<exists>l s. a' = a\<lparr>loginLimiter := l, store := s\<rparr> \<and>
        (s = store a
         \<or> (\<exists>adm. login_granted X r a adm \<and> s = AddAudit (Now r) (aUsername adm) ''login'' (clientIP r) (store a))
         \<or> (\<exists>u h. user_of r a = Some u \<and> s = ChangeUserPortalPassword (uID u) h (store a))))"

lemma anon_refl [simp]: "anon_effect X r a a"
  unfolding anon_effect_def by (rule exI [of _ "loginLimiter a"], rule exI [of _ "store a"]) simp

lemma anon_limiter: "anon_effect X r a (a\<lparr>loginLimiter := l\<rparr>)"
  unfolding anon_effect_def by (rule exI [of _ l], rule exI [of _ "store a"]) simp

lemma anon_login: "anon_effect X r a (snd (handleLogin X r a))"
proof (cases rule: handleLogin_cases [of X r a])
  case (granted adm l)
  then show ?thesis unfolding anon_effect_def by (intro exI [of _ l] exI conjI) auto
qed (simp add: anon_limiter)

lemma anon_portal_login: "anon_effect X r a (snd (handlePortalLogin X r a))"
  by (cases rule: handlePortalLogin_cases [of X r a]) (simp_all add: anon_limiter)

lemma portal_password_effect:
  "snd (handlePortalChangePassword X r a) = a
   \<or> (\<exists>u h. user_of r a = Some u \<and> snd (handlePortalChangePassword X r a) = a\<lparr>store := ChangeUserPortalPassword (uID u) h (store a)\<rparr>)"
  by (auto simp: handlePortalChangePassword_def Let_def split: option.split prod.split sum.split)

lemma anon_portal_password: "anon_effect X r a (snd (handlePortalChangePassword X r a))"
  using portal_password_effect [of X r a]
proof
  assume "\<exists>u h. user_of r a = Some u \<and> snd (handlePortalChangePassword X r a) = a\<lparr>store := ChangeUserPortalPassword (uID u) h (store a)\<rparr>"
  then show ?thesis unfolding anon_effect_def by (intro exI [of _ "loginLimiter a"]) auto
qed simp

lemma public_effects: "list_all (\<lambda>rt. \<not> rtGuarded rt \<and> anon_effect X r a (snd (rtHandler rt r a))) (public_routes X)"
  unfolding public_routes_def by (simp add: public_def anon_login anon_portal_login anon_portal_password)

lemma admin_guarded: "list_all rtGuarded (admin_routes X io)"
  unfolding admin_routes_def by (simp add: guarded_def)

lemma vars_frame [simp]:
  "Now (r\<lparr>rqVars := v\<rparr>) = Now r" "clientIP (r\<lparr>rqVars := v\<rparr>) = clientIP r" "Cookie k (r\<lparr>rqVars := v\<rparr>) = Cookie k r"
  "admin_of (r\<lparr>rqVars := v\<rparr>) a = admin_of r a" "user_of (r\<lparr>rqVars := v\<rparr>) a = user_of r a"
  by (simp_all add: Now_def clientIP_def Cookie_def admin_of_def user_of_def split: option.split)

lemma granted_vars_frame [simp]:
  "login_granted X (r\<lparr>rqVars := v\<rparr>) a adm = login_granted X r a adm"
  "portal_login_granted X (r\<lparr>rqVars := v\<rparr>) a u = portal_login_granted X r a u"
  "login_token (r\<lparr>rqVars := v\<rparr>) a adm = login_token r a adm"
  by (simp_all add: login_granted_def portal_login_granted_def login_token_def)

lemma anon_vars_frame [simp]: "anon_effect X (r\<lparr>rqVars := v\<rparr>) a a' = anon_effect X r a a'"
  by (simp add: anon_effect_def)

lemma guarded_refuses:
  assumes "admin_of r a = None" "rtGuarded rt"
  shows "run_route rt r a = (HTTPError ''unauthorized'' 401, a)"
  using assms by (simp add: run_route_def authenticated_def requireAuth_iff admin_of_def Cookie_def Now_def)

lemma route_effect:
  assumes "admin_of r a = None" "rt \<in> set (public_routes X @ admin_routes X io)"
  shows "anon_effect X r a (snd (run_route rt r a))"
proof (cases "rtGuarded rt")
  case False
  then have "rt \<in> set (public_routes X)" using assms(2) admin_guarded [of X io] by (auto simp: list_all_iff)
  then have "anon_effect X (r\<lparr>rqVars := v\<rparr>) a (snd (rtHandler rt (r\<lparr>rqVars := v\<rparr>) a))" for v
    using public_effects [of X "r\<lparr>rqVars := v\<rparr>" a] by (simp add: list_all_iff)
  with False show ?thesis by (simp add: run_route_def)
qed (simp add: guarded_refuses assms)

section \<open>Cookies\<close>

lemma response_frame [simp]:
  "rsCookie (writeJSON c v) = None" "rsCookie (writeErr c e) = None" "rsCookie (HTTPError m c) = None" "rsCookie (errTOTP m) = None"
  "rsCookie (asset p) = None" "rsCookie (png X t) = None"
  by (simp_all add: writeJSON_def writeErr_def HTTPError_def errTOTP_def asset_def png_def split: option.split)

lemma no_cookie [simp]:
  "rsCookie (fst (handleMe X r a)) = None" "rsCookie (fst (handleListNodes r a)) = None" "rsCookie (fst (handleNodeInstall r a)) = None"
  "rsCookie (fst (handleListUsers r a)) = None" "rsCookie (fst (handleUserDevices r a)) = None"
  "rsCookie (fst (handleUserTrafficHistory r a)) = None" "rsCookie (fst (handleStats r a)) = None"
  "rsCookie (fst (handleNodeTrafficHistory r a)) = None" "rsCookie (fst (handleUserTrafficNodes r a)) = None"
  "rsCookie (fst (handleUserSubInfo r a)) = None" "rsCookie (fst (handleListAdmins r a)) = None"
  "rsCookie (fst (handleListAudit r a)) = None" "rsCookie (fst (handleRealityKeys X r a)) = None"
  "rsCookie (fst (handle2FAStatus r a)) = None" "rsCookie (fst (handle2FAQR X r a)) = None" "rsCookie (fst (handleGetSettings r a)) = None"
  "rsCookie (fst (handleNotifyStatus r a)) = None" "rsCookie (fst (handleBackup io r a)) = None" "rsCookie (fst (healthz r a)) = None"
  "rsCookie (fst (handleSub r a)) = None" "rsCookie (fst (handleSubClash X r a)) = None" "rsCookie (fst (handleSubSingbox r a)) = None"
  "rsCookie (fst (handlePortalPage r a)) = None" "rsCookie (fst (handlePortalMe r a)) = None" "rsCookie (fst (handlePortalQR X r a)) = None"
  by (simp_all add: handleMe_def handleListNodes_def handleNodeInstall_def handleListUsers_def handleUserDevices_def
      handleUserTrafficHistory_def handleStats_def handleNodeTrafficHistory_def handleUserTrafficNodes_def handleUserSubInfo_def
      handleListAdmins_def handleListAudit_def handleRealityKeys_def handle2FAStatus_def handle2FAQR_def handleGetSettings_def
      handleNotifyStatus_def handleBackup_def healthz_def handleSub_def handleSubClash_def handleSubSingbox_def handlePortalPage_def
      handlePortalMe_def handlePortalQR_def Let_def split: option.split sum.split prod.split backup_io.split)

lemma no_cookie_users [simp]:
  "rsCookie (fst (handleCreateUser r a)) = None" "rsCookie (fst (handleUpdateUser r a)) = None" "rsCookie (fst (handleDeleteUser r a)) = None"
  "rsCookie (fst (handleSetUserNodes r a)) = None" "rsCookie (fst (handleResetUserTraffic r a)) = None"
  "rsCookie (fst (handleSetPortalPassword X r a)) = None" "rsCookie (fst (handleRotateSub r a)) = None" "rsCookie (fst (handleRotateUUID r a)) = None"
  by (simp_all add: handleCreateUser_def handleUpdateUser_def handleDeleteUser_def handleSetUserNodes_def handleResetUserTraffic_def
      handleSetPortalPassword_def handleRotateSub_def handleRotateUUID_def Let_def split: option.split sum.split prod.split)

lemma no_cookie_admin [simp]:
  "rsCookie (fst (handleCreateNode r a)) = None" "rsCookie (fst (handleUpdateNode r a)) = None" "rsCookie (fst (handleDeleteNode r a)) = None"
  "rsCookie (fst (handleCreateAdmin X r a)) = None" "rsCookie (fst (handleDeleteAdmin r a)) = None"
  "rsCookie (fst (handleChangeAdminPassword X r a)) = None" "rsCookie (fst (handle2FASetup r a)) = None"
  "rsCookie (fst (handle2FAVerify r a)) = None" "rsCookie (fst (handle2FADisable r a)) = None"
  "rsCookie (fst (handlePutSettings r a)) = None" "rsCookie (fst (handleNotifySettings r a)) = None" "rsCookie (fst (handleNotifyTest r a)) = None"
  by (simp_all add: handleCreateNode_def handleUpdateNode_def handleDeleteNode_def handleCreateAdmin_def handleDeleteAdmin_def
      handleChangeAdminPassword_def handle2FASetup_def handle2FAVerify_def handle2FADisable_def handlePutSettings_def
      handleGetSettings_def handleNotifySettings_def handleNotifyStatus_def handleNotifyTest_def Let_def
      split: option.split sum.split prod.split)

text \<open>A cookie that carries a token was earned.\<close>

definition earned :: "outside \<Rightarrow> request \<Rightarrow> App \<Rightarrow> cookie \<Rightarrow> bool" where
  "earned X r a c \<longleftrightarrow>
     ckValue c = ''''
     \<or> ckName c = sessionCookie \<and> (\<exists>adm. login_granted X r a adm \<and> ckValue c = login_token r a adm)
     \<or> ckName c = portalCookie \<and> (\<exists>u epoch. (portal_login_granted X r a u \<or> user_of r a = Some u)
         \<and> ckValue c = signSession (Now r) (JWTSecret (cfg a)) roleUser (FormatInt (uID u)) epoch 86400)"

lemma login_earned: "rsCookie (fst (handleLogin X r a)) = Some c \<Longrightarrow> earned X r a c"
  by (cases rule: handleLogin_cases [of X r a]) (auto simp: earned_def)

lemma portal_session_earned:
  "portal_login_granted X r a u \<or> user_of r a = Some u \<Longrightarrow> cfg a' = cfg a \<Longrightarrow> earned X r a (portal_session r (uID u) e a')"
  unfolding earned_def
  by (rule disjI2, rule disjI2, rule conjI, simp add: portal_session_def session_cookie_def, intro exI [of _ u] exI [of _ e])
    (simp add: portal_session_def session_cookie_def)

lemma portal_login_earned: "rsCookie (fst (handlePortalLogin X r a)) = Some c \<Longrightarrow> earned X r a c"
  by (cases rule: handlePortalLogin_cases [of X r a]) (auto intro: portal_session_earned)

lemma portal_password_earned: "rsCookie (fst (handlePortalChangePassword X r a)) = Some c \<Longrightarrow> earned X r a c"
  by (auto simp: handlePortalChangePassword_def Let_def intro!: portal_session_earned
      split: option.splits prod.splits sum.splits if_splits)

lemma expired_earned:
  "rsCookie (fst (handleLogout r a)) = Some c \<Longrightarrow> earned X r a c" "rsCookie (fst (handlePortalLogout r a)) = Some c \<Longrightarrow> earned X r a c"
  "rsCookie (fst (handleLogoutAll r a)) = Some c \<Longrightarrow> earned X r a c"
  by (auto simp: handleLogout_def handlePortalLogout_def handleLogoutAll_def earned_def expired_cookie_def Let_def split: option.splits)

lemma cookies_earned:
  "list_all (\<lambda>rt. \<forall>c. rsCookie (fst (rtHandler rt r a)) = Some c \<longrightarrow> earned X r a c) (public_routes X @ admin_routes X io)"
  unfolding public_routes_def admin_routes_def
  by (simp add: public_def guarded_def login_earned portal_login_earned portal_password_earned expired_earned)

lemma earned_vars_frame [simp]: "earned X (r\<lparr>rqVars := v\<rparr>) a c = earned X r a c"
  by (simp add: earned_def)

lemma serve_cookie_earned:
  assumes "rsCookie (fst (serve X io r a)) = Some c"
  shows "earned X r a c"
proof (cases "find (matches r) (public_routes X @ admin_routes X io)")
  case None
  with assms show ?thesis by (auto simp: serve_def securityHeaders_def split: if_splits)
next
  case (Some rt)
  let ?r = "r\<lparr>rqVars := the (match_segs (rtPattern rt) (rqPath r))\<rparr>"
  from Some have "rt \<in> set (public_routes X @ admin_routes X io)" by (auto dest: find_key_eq)
  moreover have "rsCookie (fst (rtHandler rt ?r a)) = Some c"
    using assms Some by (auto simp: serve_def securityHeaders_def run_route_def authenticated_def Let_def split: prod.splits if_splits)
  ultimately have "earned X ?r a c" using cookies_earned [of ?r a X io] by (auto simp: list_all_iff)
  then show ?thesis by simp
qed

section \<open>Tokens\<close>

lemma roles_no_bar [simp]: "CHR ''|'' \<notin> set roleAdmin" "CHR ''|'' \<notin> set roleUser"
  by (simp_all add: roleAdmin_def roleUser_def)

lemma roles_differ [simp]: "roleUser \<noteq> roleAdmin" "roleAdmin \<noteq> roleUser"
  by (simp_all add: roleAdmin_def roleUser_def)

text \<open>Whatever its lifetime, a token shows the role and the subject it was signed for.\<close>

lemma verify_sign_subject:
  assumes v: "verifySession now secret (signSession t secret role subject epoch ttl) = Some (role', subject', epoch')"
    and bar: "CHR ''|'' \<notin> set role" "CHR ''|'' \<notin> set subject"
  shows "role' = role" "subject' = subject"
proof -
  let ?sig = "hmacHex secret (session_payload role subject epoch (t + ttl))"
  let ?raw = "Join [role, subject, FormatInt epoch, FormatInt (t + ttl), ?sig] ''|''"
  have "b64_decode url_alphabet (signSession t secret role subject epoch ttl) = Some ?raw"
    by (simp only: signSession_def Let_def payload_sig_Join b64url.dec_enc)
  moreover have "Split ?raw ''|'' = [role, subject, FormatInt epoch, FormatInt (t + ttl), ?sig]"
    using bar by (intro Split_bar_5) auto
  ultimately show "role' = role" "subject' = subject"
    using v by (auto simp: verifySession_def simp del: Join.simps split: if_splits option.splits)
qed

lemma portal_token_not_admin:
  "currentAdmin now secret s (Some (signSession t secret roleUser (FormatInt i) epoch ttl)) = None"
  using verify_sign_subject(1) [of now secret t roleUser "FormatInt i" epoch ttl]
  by (auto simp: currentAdmin_def split: option.split)

lemma admin_token_not_portal:
  assumes "CHR ''|'' \<notin> set name"
  shows "portalUser now secret s (Some (signSession t secret roleAdmin name epoch ttl)) = None"
  using verify_sign_subject(1) [of now secret t roleAdmin name epoch ttl] assms
  by (auto simp: portalUser_def split: option.split)

lemma GetAdmin_row:
  assumes "GetAdmin name s = Inr adm"
  obtains r where "r \<in> set (admins s)" "arUsername r = name" "aUsername adm = name" "aSessionEpoch adm = arSessionEpoch r"
  using assms by (auto simp: GetAdmin_def query_row_def dest: find_key_eq split: option.splits)

lemma GetAdmin_name: "GetAdmin name s = Inr adm \<Longrightarrow> aUsername adm = name"
  by (erule GetAdmin_row)

lemma admin_token_valid:
  assumes g: "GetAdmin (aUsername adm) s = Inr adm" and n: "admins_named s" and e: "in_int64 (aSessionEpoch adm)" "in_int64 (t + 86400)"
  shows "currentAdmin now secret s (Some (signSession t secret roleAdmin (aUsername adm) (aSessionEpoch adm) 86400)) =
    (if now < t + 86400 then Some adm else None)"
proof -
  have "CHR ''|'' \<notin> set (aUsername adm)"
    by (rule GetAdmin_row [OF g]) (use n username_safe(1) in \<open>auto simp: admins_named_def\<close>)
  from verify_sign [OF roles_no_bar(1) this e, of now secret] show ?thesis using g by (simp add: currentAdmin_def)
qed

lemma GetAdmin_AddAudit [simp]: "GetAdmin n (AddAudit now x y z s) = GetAdmin n s"
  by (simp add: GetAdmin_def AddAudit_def split: sum.split)

section \<open>Revocation\<close>

text \<open>Time only lets a token expire.\<close>

lemma verify_later: "verifySession now secret v = Some x \<Longrightarrow> verifySession now' secret v = None \<or> verifySession now' secret v = Some x"
  by (auto simp: verifySession_def split: option.splits list.splits if_splits)

lemma admin_revoked:
  assumes c: "currentAdmin now secret s (Some v) = Some adm"
    and s': "\<And>adm'. GetAdmin (aUsername adm) s' = Inr adm' \<Longrightarrow> aSessionEpoch adm' \<noteq> aSessionEpoch adm"
  shows "currentAdmin now' secret s' (Some v) = None"
proof -
  from c obtain name where v: "verifySession now secret v = Some (roleAdmin, name, aSessionEpoch adm)" and g: "GetAdmin name s = Inr adm"
    by (auto simp: currentAdmin_def split: option.splits sum.splits if_splits)
  from GetAdmin_name [OF g] v s' show ?thesis using verify_later [OF v, of now'] by (auto simp: currentAdmin_def split: sum.split)
qed

lemma portal_revoked:
  assumes c: "portalUser now secret s (Some v) = Some u"
    and s': "\<And>u'. GetUser (uID u) s' = Inr u' \<Longrightarrow> uSessionEpoch u' \<noteq> uSessionEpoch u"
  shows "portalUser now' secret s' (Some v) = None"
proof -
  from c obtain sub i where v: "verifySession now secret v = Some (roleUser, sub, uSessionEpoch u)" and i: "ParseInt sub = Some i"
    and g: "GetUser i s = Inr u"
    by (auto simp: portalUser_def split: option.splits sum.splits if_splits)
  from GetUser_uID [OF g] v s' i show ?thesis using verify_later [OF v, of now'] by (auto simp: portalUser_def split: sum.split)
qed

lemma find_bumped:
  assumes "find p t = Some r" "\<And>r. p (f r) = p r"
  shows "find p (sql_update p f t) = Some (f r)"
  using assms find_key_eq [OF assms(1)] by (simp add: find_sql_update)

lemma GetAdmin_bumped:
  assumes "GetAdmin n s = Inr adm"
  shows "GetAdmin n (SetAdminPassword n h s) = Inr (adm\<lparr>aPasswordHash := h, aSessionEpoch := aSessionEpoch adm + 1\<rparr>)"
    "GetAdmin n (BumpAdminSessionEpoch n s) = Inr (adm\<lparr>aSessionEpoch := aSessionEpoch adm + 1\<rparr>)"
  using assms by (auto simp: GetAdmin_def query_row_def SetAdminPassword_def BumpAdminSessionEpoch_def find_bumped split: option.splits)

lemma user_epoch_bumped:
  assumes "GetUser i (upd_user i f s) = Inr u'" "GetUser i s = Inr u"
    and "\<And>r. urID (f r) = urID r" "\<And>r. urSessionEpoch (f r) = urSessionEpoch r + k"
  shows "uSessionEpoch u' = uSessionEpoch u + k"
  using assms find_bumped [of "\<lambda>r. urID r = i" "users s" _ f]
  by (auto simp: GetUser_def query_row_def upd_user_def scanUser_def split: option.splits)

lemma portal_current: "portalUser now secret s (Some v) = Some u \<Longrightarrow> GetUser (uID u) s = Inr u"
  using GetUser_uID by (auto simp: portalUser_def split: option.splits sum.splits if_splits)

lemma admin_current: "currentAdmin now secret s c = Some adm \<Longrightarrow> GetAdmin (aUsername adm) s = Inr adm"
  by (auto simp: currentAdmin_def GetAdmin_name split: option.splits sum.splits if_splits)

lemma GetAdmin_deleted: "GetAdmin n (BumpAdminSessionEpoch n (DeleteAdmin n s)) = Inl ErrNoRows"
  by (simp add: GetAdmin_def query_row_def BumpAdminSessionEpoch_def DeleteAdmin_def find_sql_update find_sql_delete_None)

lemma GetAdmin_created:
  assumes "CreateAdmin n h s = Inr s'"
  obtains adm where "GetAdmin n s' = Inr adm" "aUsername adm = n" "aSessionEpoch adm = 0"
proof -
  from assms have n: "n \<notin> arUsername ` set (admins s)" by (auto simp: CreateAdmin_def insert_admin_def split: if_splits)
  then have "find (\<lambda>r. arUsername r = n) (admins s) = None" by (simp add: find_None_notin)
  with assms n that show thesis by (auto simp: CreateAdmin_def insert_admin_def GetAdmin_def query_row_def find_append)
qed

lemma store_audit [simp]: "GetAdmin n (store (audit r x d a)) = GetAdmin n (store a)"
  by (simp add: audit_def)

section \<open>Properties\<close>


lemma demo_anonymous: "admin_of demo_request a = None"
  by (simp add: admin_of_def demo_request_def Cookie_def currentAdmin_def)

lemma demo_route_guarded:
  "\<exists>rt. find (matches demo_request) (public_routes X @ admin_routes X io) = Some rt \<and> rtGuarded rt"
  by (simp add: public_routes_def admin_routes_def matches_def public_def guarded_def demo_request_def is_var_def)


text \<open>C9: a session is earned and lasts a day. Every non-empty cookie the panel ever sets is either the session cookie of a
  login with the right password, the right code where two-factor authentication is on, and no throttle on the
  address or the name, which authenticates as exactly that admin for 24 hours (as long as the account's epoch
  stands) and never as a portal user; or the portal cookie of a granted portal login or password change, which
  never authenticates as an admin, whatever the database holds.\<close>

theorem sessions_are_earned:
  assumes cookie: "rsCookie (fst (serve X io r a)) = Some c" "ckValue c \<noteq> ''''" and run: "running a"
    and range: "in_int64 (Now r + 86400)" "\<forall>w \<in> set (admins (store a)). in_int64 (arSessionEpoch w)"
  shows "ckName c = sessionCookie \<and>
       (\<exists>adm. login_granted X r a adm \<and> GetAdmin (aUsername adm) (store a) = Inr adm
          \<and> (\<forall>s now. GetAdmin (aUsername adm) s = Inr adm \<and> admins_named s \<longrightarrow>
               currentAdmin now (JWTSecret (cfg a)) s (Some (ckValue c)) = (if now < Now r + 86400 then Some adm else None))
          \<and> (\<forall>s now. portalUser now (JWTSecret (cfg a)) s (Some (ckValue c)) = None))
     \<or> ckName c = portalCookie \<and> (\<exists>u. portal_login_granted X r a u \<or> user_of r a = Some u)
       \<and> (\<forall>s now. currentAdmin now (JWTSecret (cfg a)) s (Some (ckValue c)) = None)"
proof -
  from serve_cookie_earned [OF cookie(1)] cookie(2) consider
      (admin) adm where "ckName c = sessionCookie" "login_granted X r a adm" "ckValue c = login_token r a adm"
    | (portal) u e where "ckName c = portalCookie" "portal_login_granted X r a u \<or> user_of r a = Some u"
        "ckValue c = signSession (Now r) (JWTSecret (cfg a)) roleUser (FormatInt (uID u)) e 86400"
    unfolding earned_def by blast
  then show ?thesis
  proof cases
    case admin
    have named: "admins_named (store a)" using running_ok [OF run] by (simp add: full_ok_def sys_ok_def)
    from admin(2) obtain name where g: "GetAdmin name (store a) = Inr adm" by (auto simp: login_granted_def)
    obtain w where w: "w \<in> set (admins (store a))" "arUsername w = name" "aUsername adm = name" "aSessionEpoch adm = arSessionEpoch w"
      by (rule GetAdmin_row [OF g])
    then have bar: "CHR ''|'' \<notin> set (aUsername adm)" using named username_safe(1) by (auto simp: admins_named_def)
    from w range(2) have e: "in_int64 (aSessionEpoch adm)" by simp
    show ?thesis
    proof (intro disjI1 conjI exI [of _ adm] allI impI)
      fix s now
      assume s: "GetAdmin (aUsername adm) s = Inr adm \<and> admins_named s"
      show "currentAdmin now (JWTSecret (cfg a)) s (Some (ckValue c)) = (if now < Now r + 86400 then Some adm else None)"
        using admin_token_valid [of adm s "Now r" now "JWTSecret (cfg a)"] s e range(1) by (simp add: admin(3) login_token_def)
    next
      fix s now
      show "portalUser now (JWTSecret (cfg a)) s (Some (ckValue c)) = None"
        unfolding admin(3) login_token_def by (rule admin_token_not_portal [OF bar])
    qed (use admin g w in simp_all)
  next
    case portal
    then show ?thesis using portal_token_not_admin by auto
  qed
qed

definition login_request :: request where
  "login_request = demo_request\<lparr>rqPath := [''api'', ''login''],
     rqBody := Some (JObj [(''Username'', JStr ''admin''), (''Password'', JStr ''admin'')])\<rparr>"

lemma token_not_empty: "login_token r a adm \<noteq> ''''"
proof
  assume "login_token r a adm = ''''"
  then have "b64_encode url_alphabet (session_payload roleAdmin (aUsername adm) (aSessionEpoch adm) (Now r + 86400) @ ''|''
      @ hmacHex (JWTSecret (cfg a)) (session_payload roleAdmin (aUsername adm) (aSessionEpoch adm) (Now r + 86400))) = b64_encode url_alphabet ''''"
    by (simp add: login_token_def signSession_def Let_def b64_encode_def)
  then show False by (metis b64url.dec_enc option.inject append_is_Nil_conv list.discI)
qed

lemma login_route: "rsCookie (fst (serve X io login_request a)) = rsCookie (fst (handleLogin X login_request a))"
  by (simp add: serve_def run_route_def public_routes_def matches_def public_def login_request_def demo_request_def is_var_def
      securityHeaders_def split: prod.split)

lemma fresh_login:
  assumes "admins (store a) = [\<lparr>arID = 1, arUsername = ''admin'', arPasswordHash = ''admin'', arTOTPSecret = '''', arTOTPEnabled = 0, arSessionEpoch = 0\<rparr>]"
    "loginLimiter a = newLimiter 8 300000000000"
  shows "\<exists>adm. login_granted demo_outside login_request a adm"
  using assms by (simp add: login_granted_def login_request_def demo_request_def decode_def login_struct_def decode_member_def struct_field_def
    to_string_def login_zero_def throttled_def blocked_def newLimiter_def GetAdmin_def query_row_def checkPassword_def demo_outside_def demo_externs_def)

theorem sessions_are_earned_witness:
  "\<exists>a c adm. running a \<and> rsCookie (fst (serve demo_outside Copied login_request a)) = Some c \<and> ckName c = sessionCookie
     \<and> login_granted demo_outside login_request a adm
     \<and> currentAdmin 1000 (JWTSecret (cfg a)) (store a) (Some (ckValue c)) = Some adm
     \<and> currentAdmin 90000 (JWTSecret (cfg a)) (store a) (Some (ckValue c)) = None"
proof -
  obtain a where a: "running a" "loginLimiter a = newLimiter 8 300000000000"
    "admins (store a) = [\<lparr>arID = 1, arUsername = ''admin'', arPasswordHash = ''admin'', arTOTPSecret = '''', arTOTPEnabled = 0, arSessionEpoch = 0\<rparr>]"
    by (rule fresh_state)
  obtain adm0 where "login_granted demo_outside login_request a adm0" using fresh_login [OF a(3,2)] ..
  then obtain c where c: "rsCookie (fst (serve demo_outside Copied login_request a)) = Some c" "ckValue c \<noteq> ''''" "ckName c = sessionCookie"
    by (rule granted_session) (auto simp: login_route token_not_empty)
  have named: "admins_named (store a)" using running_ok [OF a(1)] by (simp add: full_ok_def sys_ok_def)
  have now: "Now login_request = 60" by (simp add: Now_def login_request_def demo_request_def)
  have "sessionCookie \<noteq> portalCookie" by (simp add: sessionCookie_def portalCookie_def)
  with sessions_are_earned [OF c(1,2) a(1)] c(3) a(3) now obtain adm where "login_granted demo_outside login_request a adm"
    "GetAdmin (aUsername adm) (store a) = Inr adm" "\<And>s now. GetAdmin (aUsername adm) s = Inr adm \<and> admins_named s \<Longrightarrow>
       currentAdmin now (JWTSecret (cfg a)) s (Some (ckValue c)) = (if now < 60 + 86400 then Some adm else None)"
    by (auto simp: in_int64_def int64_defs)
  with named c(1,3) a(1) show ?thesis by (intro exI [of _ a] exI [of _ c] exI [of _ adm]) simp
qed


definition demo_panel :: "App \<Rightarrow> App" where
  "demo_panel a = a\<lparr>store := (store a)\<lparr>users := [demo_user]\<rparr>\<rparr>"

definition demo_token :: "string \<Rightarrow> string \<Rightarrow> string" where
  "demo_token secret name = signSession 0 secret roleAdmin name 0 86400"

definition demo_portal_token :: "string \<Rightarrow> string" where
  "demo_portal_token secret = signSession 0 secret roleUser (FormatInt 1) 0 86400"

lemma demo_admin_session:
  assumes "admins s = w # ws" "arUsername w = name" "arSessionEpoch w = 0" "admins_named s"
  obtains adm where "currentAdmin 1 secret s (Some (demo_token secret name)) = Some adm" "aUsername adm = name" "aSessionEpoch adm = 0"
proof -
  from assms obtain adm where g: "GetAdmin name s = Inr adm" "aUsername adm = name" "aSessionEpoch adm = 0"
    by (auto simp: GetAdmin_def query_row_def)
  with admin_token_valid [of adm s 0 1 secret] assms(4) that show thesis
    by (simp add: demo_token_def in_int64_def int64_defs)
qed

lemma demo_portal_session:
  assumes "users s = [demo_user]"
  shows "\<exists>u. portalUser 1 secret s (Some (demo_portal_token secret)) = Some u"
proof -
  have "verifySession 1 secret (demo_portal_token secret) = Some (roleUser, FormatInt 1, 0)"
    unfolding demo_portal_token_def by (subst verify_sign) (simp_all add: in_int64_def int64_defs)
  then show ?thesis
    using assms by (simp add: portalUser_def GetUser_def query_row_def demo_user_def scanUser_def in_int64_def int64_defs)
qed


text \<open>C38: removing an admin does not end the admin's sessions for good. The epoch is bumped only after the row is gone, so
  nothing remembers it: while the account is missing its tokens are refused, but when an admin of the same name is
  created again, within the lifetime of the token, an old token of the first epoch authenticates as the new account.\<close>

theorem recreated_admin_revives_sessions:
  assumes old: "currentAdmin now (JWTSecret (cfg a)) (store a) (Some v) = Some adm" "aSessionEpoch adm = 0"
    and del: "rsCode (fst (handleDeleteAdmin r1 a)) = 200" "PathValue ''username'' r1 = aUsername adm"
    and cre: "rsCode (fst (handleCreateAdmin X r2 (snd (handleDeleteAdmin r1 a)))) = 201"
      "TrimSpace (lbUsername (snd (decode credentials_struct (rqBody r2) login_zero))) = aUsername adm"
  shows "currentAdmin now (JWTSecret (cfg a)) (store (snd (handleDeleteAdmin r1 a))) (Some v) = None
    \<and> (\<exists>adm'. aUsername adm' = aUsername adm \<and>
         currentAdmin now (JWTSecret (cfg a)) (store (snd (handleCreateAdmin X r2 (snd (handleDeleteAdmin r1 a))))) (Some v) = Some adm')"
proof
  let ?a1 = "snd (handleDeleteAdmin r1 a)"
  have "GetAdmin (aUsername adm) (store ?a1) = Inl ErrNoRows"
    using del by (auto simp: handleDeleteAdmin_def Let_def writeErr_def writeJSON_def GetAdmin_deleted split: if_splits)
  then show "currentAdmin now (JWTSecret (cfg a)) (store ?a1) (Some v) = None"
    by (intro admin_revoked [OF old(1)]) simp
  obtain h s where c: "CreateAdmin (aUsername adm) h (store ?a1) = Inr s"
    and s: "\<And>n. GetAdmin n (store (snd (handleCreateAdmin X r2 ?a1))) = GetAdmin n s"
    using cre by (auto simp: handleCreateAdmin_def Let_def writeErr_def writeJSON_def split: prod.splits option.splits if_splits sum.splits)
  from c obtain adm' where "GetAdmin (aUsername adm) s = Inr adm'" "aUsername adm' = aUsername adm" "aSessionEpoch adm' = 0"
    by (rule GetAdmin_created)
  then show "\<exists>adm'. aUsername adm' = aUsername adm \<and>
      currentAdmin now (JWTSecret (cfg a)) (store (snd (handleCreateAdmin X r2 ?a1))) (Some v) = Some adm'"
    using old by (intro exI [of _ adm']) (auto simp: currentAdmin_def s GetAdmin_name split: option.splits sum.splits if_splits)
qed

definition two_admins :: "App \<Rightarrow> App" where
  "two_admins a = a\<lparr>store := (store a)\<lparr>admins :=
     [\<lparr>arID = 2, arUsername = ''eve'', arPasswordHash = ''x'', arTOTPSecret = '''', arTOTPEnabled = 0, arSessionEpoch = 0\<rparr>,
      \<lparr>arID = 1, arUsername = ''admin'', arPasswordHash = ''admin'', arTOTPSecret = '''', arTOTPEnabled = 0, arSessionEpoch = 0\<rparr>]\<rparr>\<rparr>"

definition delete_request :: request where
  "delete_request = demo_request\<lparr>rqVars := [(''username'', ''eve'')]\<rparr>"

definition create_request :: request where
  "create_request = demo_request\<lparr>rqBody := Some (JObj [(''Username'', JStr ''eve''), (''Password'', JStr ''Passw0rd!'')])\<rparr>"

lemma two_admins_named: "admins_named (store (two_admins a))"
  by (simp add: two_admins_def admins_named_def validateUsername_iff cls_alnum_def)

lemma two_admins_delete:
  "rsCode (fst (handleDeleteAdmin delete_request (two_admins a))) = 200" "PathValue ''username'' delete_request = ''eve''"
  "map arUsername (admins (store (snd (handleDeleteAdmin delete_request (two_admins a))))) = [''admin'']"
  by (simp_all add: handleDeleteAdmin_def delete_request_def PathValue_def CountAdmins_def two_admins_def writeJSON_def audit_def AddAudit_def
      BumpAdminSessionEpoch_def DeleteAdmin_def Let_def)

lemma create_body: "decode credentials_struct (rqBody create_request) login_zero = (True, login_zero\<lparr>lbUsername := ''eve'', lbPassword := ''Passw0rd!''\<rparr>)"
  by (simp add: create_request_def decode_def credentials_struct_def decode_member_def struct_field_def to_string_def login_zero_def)

lemma eve_valid: "TrimSpace ''eve'' = ''eve''" "validateUsername ''eve'' = None" "validatePasswordStrength demo_externs ''Passw0rd!''"
proof -
  show "TrimSpace ''eve'' = ''eve''" by (rule TrimSpace_printable) auto
  show "validateUsername ''eve'' = None" by (simp add: validateUsername_iff cls_alnum_def)
  show "validatePasswordStrength demo_externs ''Passw0rd!''" by code_simp
qed

lemma create_eve:
  assumes "map arUsername (admins (store a)) = [''admin'']"
  shows "rsCode (fst (handleCreateAdmin demo_outside create_request a)) = 201"
proof -
  obtain w where w: "admins (store a) = [w]" "arUsername w = ''admin''" using assms by auto
  then have "GetAdmin ''eve'' (store a) = Inl ErrNoRows" by (simp add: GetAdmin_def query_row_def)
  moreover obtain h where "hashPassword demo_externs (rqRand create_request 0 16) ''Passw0rd!'' = Some h"
    by (simp add: hashPassword_def demo_externs_def)
  moreover obtain s where "CreateAdmin ''eve'' h (store a) = Inr s" using w by (simp add: CreateAdmin_def insert_admin_def)
  ultimately show ?thesis
    by (auto simp: handleCreateAdmin_def create_body eve_valid Let_def demo_outside_def writeJSON_def split: option.split sum.split)
qed

theorem recreated_admin_revives_sessions_witness:
  "\<exists>a v. currentAdmin 1 (JWTSecret (cfg a)) (store a) (Some v) \<noteq> None
     \<and> currentAdmin 1 (JWTSecret (cfg a)) (store (snd (handleDeleteAdmin delete_request a))) (Some v) = None
     \<and> currentAdmin 1 (JWTSecret (cfg a)) (store (snd (handleCreateAdmin demo_outside create_request (snd (handleDeleteAdmin delete_request a))))) (Some v) \<noteq> None"
proof -
  obtain a0 where "running a0" by (rule fresh_state)
  let ?a = "two_admins a0"
  let ?K = "JWTSecret (cfg ?a)"
  let ?v = "demo_token ?K ''eve''"
  obtain adm where adm: "currentAdmin 1 ?K (store ?a) (Some ?v) = Some adm" "aUsername adm = ''eve''" "aSessionEpoch adm = 0"
    by (rule demo_admin_session [where w = "hd (admins (store ?a))" and ws = "tl (admins (store ?a))", OF _ _ _ two_admins_named])
      (simp_all add: two_admins_def)
  have "TrimSpace (lbUsername (snd (decode credentials_struct (rqBody create_request) login_zero))) = ''eve''"
    by (simp add: create_body eve_valid)
  with recreated_admin_revives_sessions [OF adm(1,3) two_admins_delete(1) _ create_eve] two_admins_delete adm(2)
  have "currentAdmin 1 ?K (store (snd (handleDeleteAdmin delete_request ?a))) (Some ?v) = None"
    "\<exists>adm'. currentAdmin 1 ?K (store (snd (handleCreateAdmin demo_outside create_request (snd (handleDeleteAdmin delete_request ?a))))) (Some ?v) = Some adm'"
    by auto
  with adm(1) show ?thesis by (metis option.distinct(1))
qed

end
