(* ===== verification/Push.thy ===== *)
theory Push
  imports Access
begin

text \<open>
  Operator changes reach the nodes: after a request or a bot command that creates, changes, moves,
  resets or deletes a user, every connected node it concerns has been given the configuration that the
  new database contents call for (\<open>src/internal/panel/api.go\<close>, \<open>bot.go\<close>, with \<open>syncNode\<close> of
  \<open>traffic.go\<close>).
\<close>

section \<open>Synchronising a list of nodes, with repetitions\<close>

definition up_to_date :: "int64 \<Rightarrow> int64 \<Rightarrow> App \<Rightarrow> bool" where
  "up_to_date now n a \<longleftrightarrow> map_of (activeCache a) n = Some (activeSignature now (UsersForNode n (store a)))"

lemma syncNode_up_to_date: "up_to_date now n a \<Longrightarrow> syncNode now n a = a"
  by (simp add: up_to_date_def syncNode_def)

lemma cache_other: "m \<noteq> n \<Longrightarrow> map_of (activeCache (syncNode now m a)) n = map_of (activeCache a) n"
  using frames_PushConfig(2) [of now m a] by (cases "PushConfig now m a") (auto simp: syncNode_def Let_def)

lemma syncNode_records:
  assumes "panel_ok a" "map_of (conns a) n = Some c" "GetNode now n (store a) = Inr node"
    and "length (ncSend (objs a ! c)) < sendCap \<or> up_to_date now n a"
  shows "up_to_date now n (syncNode now n a)"
proof (cases "up_to_date now n a")
  case False
  have h: "hub_ok a" using assms(1) by (simp add: panel_ok_def)
  obtain a' where p: "PushConfig now n a = (True, a')" using assms(4) False PushConfig_room [OF h assms(2,3)] by blast
  have "store a' = store a" using store_PushConfig [of now n a] by (simp add: p)
  with p False show ?thesis by (simp add: up_to_date_def syncNode_def)
qed (simp add: syncNode_up_to_date)

lemma syncNodes_serves_any:
  assumes "panel_ok a" "n \<in> set ms" "map_of (conns a) n = Some c" "GetNode now n (store a) = Inr node"
    and "length (ncSend (objs a ! c)) < sendCap \<or> up_to_date now n a"
  shows "served c (activeSignature now (UsersForNode n (store a))) (syncNodes now ms a)"
  using assms
proof (induction ms arbitrary: a)
  case (Cons m ms)
  have ok: "panel_ok (syncNode now m a)" using Cons.prems(1) by (rule panel_ok_syncNode)
  have eq: "syncNodes now (m # ms) a = syncNodes now ms (syncNode now m a)" by (simp add: syncNodes_def)
  show ?case
  proof (cases "n \<in> set ms")
    case True
    have "length (ncSend (objs (syncNode now m a) ! c)) < sendCap \<or> up_to_date now n (syncNode now m a)"
    proof (cases "m = n")
      case True
      then show ?thesis using syncNode_records [OF Cons.prems(1,3,4,5)] by simp
    next
      case False
      have "objs (syncNode now m a) ! c = objs a ! c" "map_of (activeCache (syncNode now m a)) n = map_of (activeCache a) n"
        using Cons.prems(1,3) False syncNode_other [of a n c m now] cache_other by (auto simp: panel_ok_def)
      with Cons.prems(5) show ?thesis by (simp add: up_to_date_def)
    qed
    with Cons.IH [OF ok True] Cons.prems show ?thesis by (simp add: eq)
  next
    case False
    then have m: "m = n" using Cons.prems(2) by simp
    have "objs (syncNodes now ms (syncNode now m a)) ! c = objs (syncNode now m a) ! c"
      using ok Cons.prems(3) False by (intro syncNodes_other) auto
    moreover have "up_to_date now n (syncNode now n a)" using syncNode_records [OF Cons.prems(1,3,4,5)] .
    moreover have "cache_ok (syncNode now n a)" using ok m by (simp add: panel_ok_def)
    ultimately show ?thesis
      using Cons.prems(3) by (auto simp: eq [unfolded m] m up_to_date_def cache_ok_but_def served_def stream_def)
  qed
qed simp

section \<open>Which nodes a change reaches\<close>

text \<open>The connected nodes of the list that the store knows and whose write queue has room were last given exactly the
  clients that are active after the change.\<close>

definition reaches :: "int64 \<Rightarrow> int64 list \<Rightarrow> App \<Rightarrow> App \<Rightarrow> bool" where
  "reaches now ns a a' \<longleftrightarrow>
     (\<forall>n c node. n \<in> set ns \<and> map_of (conns a) n = Some c \<and> GetNode now n (store a') = Inr node \<and> length (ncSend (objs a ! c)) < sendCap
        \<longrightarrow> serves_clients c (active_clients now (UsersForNode n (store a'))) a')"

lemma reaches_sync:
  assumes "panel_ok (a\<lparr>store := s\<rparr>)"
  shows "reaches now ns a (syncNodes now ns (a\<lparr>store := s\<rparr>))"
  unfolding reaches_def
proof (intro allI impI)
  fix n c node
  assume n: "n \<in> set ns \<and> map_of (conns a) n = Some c \<and> GetNode now n (store (syncNodes now ns (a\<lparr>store := s\<rparr>))) = Inr node
    \<and> length (ncSend (objs a ! c)) < sendCap"
  have "served c (activeSignature now (UsersForNode n s)) (syncNodes now ns (a\<lparr>store := s\<rparr>))"
    using syncNodes_serves_any [OF assms, of n ns c now node] n by simp
  then show "serves_clients c (active_clients now (UsersForNode n (store (syncNodes now ns (a\<lparr>store := s\<rparr>))))) (syncNodes now ns (a\<lparr>store := s\<rparr>))"
    using serves_if_served assms by (simp add: panel_ok_def)
qed

lemma audit_frame [simp]:
  "UsersForNode n (store (audit r x d b)) = UsersForNode n (store b)" "GetNode now n (store (audit r x d b)) = GetNode now n (store b)"
  "serves_clients c cl (audit r x d b) = serves_clients c cl b"
  by (simp_all add: audit_def AddAudit_def UsersForNode_def GetNode_def scanNode_def [abs_def] serves_clients_def stream_def)

lemma reaches_audit [simp]: "reaches now ns a (audit r x d b) = reaches now ns a b"
  by (simp add: reaches_def)

lemma reaches_mono: "reaches now ns a a' \<Longrightarrow> set ms \<subseteq> set ns \<Longrightarrow> reaches now ms a a'"
  by (auto simp: reaches_def)

lemma running_stored: "running a \<Longrightarrow> api_stores (store a) s \<Longrightarrow> panel_ok (a\<lparr>store := s\<rparr>)"
  using api_steps_ok [OF stores_steps] running_ok by (auto simp: full_ok_def)

section \<open>Handlers\<close>

lemma reaches_DeleteUser:
  assumes "running a" "pathID r = Some i" "GetUser i (store a) = Inr u"
  shows "reaches (Now r) (uNodeIDs u) a (snd (handleDeleteUser r a))"
proof -
  have "panel_ok (a\<lparr>store := DeleteUser i (store a)\<rparr>)" by (rule running_stored [OF assms(1)]) (rule r_into_rtranclp, rule delete_user)
  then show ?thesis using reaches_sync by (simp add: handleDeleteUser_def assms(2,3))
qed

lemma reaches_RotateUUID:
  assumes "running a" "rand_ok r" "pathID r = Some i" "GetUser i (store a) = Inr u"
  shows "reaches (Now r) (uNodeIDs u) a (snd (handleRotateUUID r a))"
proof -
  have "panel_ok (a\<lparr>store := SetUserUUID i (newUUID (bytes_of (rqRand r 0 16))) (store a)\<rparr>)"
    by (rule running_stored [OF assms(1)]) (use assms(2) in \<open>intro r_into_rtranclp set_uuid; simp\<close>)
  then show ?thesis using reaches_sync by (simp add: handleRotateUUID_def assms(3,4) Let_def)
qed

lemma reaches_ResetUserTraffic:
  assumes "running a" "pathID r = Some i" "GetUser i (store a) = Inr u"
  shows "reaches (Now r) (uNodeIDs u) a (snd (handleResetUserTraffic r a))"
proof -
  have ok: "panel_ok (a\<lparr>store := ResetUserTraffic i (store a)\<rparr>)" by (rule running_stored [OF assms(1)]) (rule r_into_rtranclp, rule reset_traffic)
  obtain u' where "GetUser i (ResetUserTraffic i (store a)) = Inr u'" "uNodeIDs u' = uNodeIDs u"
    using assms(3) by (auto simp: GetUser_def query_row_def ResetUserTraffic_def upd_user_def find_sql_update userNodeIDs_def split: option.splits)
  then show ?thesis using reaches_sync [OF ok, of "Now r" "uNodeIDs u"] by (simp add: handleResetUserTraffic_def assms(2) Let_def)
qed

lemma reaches_UpdateUser:
  assumes "running a" "rsCode (fst (handleUpdateUser r a)) = 200" "pathID r = Some i" "GetUser i (store a) = Inr u"
  shows "reaches (Now r) (uNodeIDs u) a (snd (handleUpdateUser r a))"
proof -
  obtain v where v: "snd (handleUpdateUser r a) = syncNodes (Now r) (uNodeIDs u) (a\<lparr>store := UpdateUser v (store a)\<rparr>)"
    using assms(2) by (auto simp: handleUpdateUser_def assms(3,4) Let_def writeErr_def writeJSON_def split: prod.splits if_splits)
  have "full_ok (snd (handleUpdateUser r a))" using api_steps_ok [OF steps_UpdateUser] running_ok [OF assms(1)] by blast
  then have "users_valid (UpdateUser v (store a))" "store_ok (UpdateUser v (store a))" by (simp_all add: v full_ok_def panel_ok_def)
  then have "panel_ok (a\<lparr>store := UpdateUser v (store a)\<rparr>)" using running_ok [OF assms(1)] panel_ok_store by (auto simp: full_ok_def)
  then show ?thesis using reaches_sync by (simp add: v)
qed

lemma reaches_SetUserNodes:
  assumes "running a" "rsCode (fst (handleSetUserNodes r a)) = 200" "pathID r = Some i" "GetUser i (store a) = Inr u"
  shows "reaches (Now r) (uNodeIDs u @ cbNodeIDs (snd (decode node_ids_struct (rqBody r) create_user_zero))) a (snd (handleSetUserNodes r a))"
proof -
  have ok: "panel_ok (a\<lparr>store := SetUserNodes i ns (store a)\<rparr>)" for ns
    by (rule running_stored [OF assms(1)]) (rule r_into_rtranclp, rule set_user_nodes)
  show ?thesis
    using assms(2) reaches_mono [OF reaches_sync [OF ok]]
    by (auto simp: handleSetUserNodes_def assms(3,4) Let_def writeErr_def writeJSON_def split: prod.splits if_splits)
qed

lemma reaches_CreateUser:
  assumes "running a" "rand_ok r" "rsCode (fst (handleCreateUser r a)) = 201"
  shows "reaches (Now r) (cbNodeIDs (snd (decode create_user_struct (rqBody r) create_user_zero))) a (snd (handleCreateUser r a))"
proof -
  let ?ns = "cbNodeIDs (snd (decode create_user_struct (rqBody r) create_user_zero))"
  show ?thesis
  proof (cases "?ns = []")
    case False
    obtain u i s x d where s: "snd (handleCreateUser r a) = audit r x d (syncNodes (Now r) ?ns (a\<lparr>store := SetUserNodes i ?ns s\<rparr>))"
      and u: "CreateUser (Now r) u (store a) = Inr (i, s)" "user_input_ok u"
      using assms(2,3) False by (auto simp: handleCreateUser_def Let_def writeErr_def writeJSON_def user_input_ok_def
        split: prod.splits if_splits option.splits sum.splits)
    have "api_stores (store a) (SetUserNodes i ?ns s)" by (rule api_store_after [OF set_user_nodes CreateUser_stores [OF u]])
    then show ?thesis using reaches_sync [OF running_stored [OF assms(1)]] by (simp add: s)
  qed (simp add: reaches_def)
qed

lemma deleted_absent:
  assumes "store_ok s" "GetUser i s = Inr u" "x \<in> set (active_clients now (UsersForNode n (DeleteUser i s)))"
  shows "cEmail x \<noteq> uUsername u"
proof -
  obtain r where r: "r \<in> set (users s)" "urID r = i" "uUsername u = urUsername r"
    by (rule GetUser_row [OF assms(2)]) (simp add: scanUser_def)
  obtain r' where r': "r' \<in> set (users s)" "urID r' \<noteq> i" "cEmail x = urUsername r'"
    using assms(3) unfolding users_active_clients by (auto simp: DeleteUser_def)
  have "distinct (map urUsername (users s))" using assms(1) by (simp add: store_ok_def users_ok_def)
  then have "inj_on urUsername (set (users s))" by (simp add: distinct_map)
  with r r' show ?thesis by (metis inj_onD)
qed

section \<open>Properties\<close>


lemma demo_data_ok: "data_ok demo_store" "admins_named demo_store"
proof -
  have "user_row_ok demo_user"
    unfolding user_row_ok_def demo_user_def by (simp add: validateUsername_iff cls_alnum_def) code_simp
  moreover have "validHostname ''a.example''" by code_simp
  moreover have "MatchString reShortID ''''" "MatchString reB64Key ''''" by code_simp+
  ultimately show "data_ok demo_store" "admins_named demo_store"
    by (simp_all add: data_ok_def demo_store_def OpenStore_def node_row_ok_def demo_node_def host_or_empty_def admins_named_def)
qed

text \<open>The example panel with its node connected is a running panel.\<close>

lemma demo_running_panel:
  obtains a where "running a" "map_of (conns a) 1 = Some 0" "length (ncSend (objs a ! 0)) < sendCap"
    "GetNode 0 1 (store a) = Inr (scanNode 0 (store a) (demo_node\<lparr>nrAgentVersion := ''v1''\<rparr>))"
    "users (store a) = [demo_user]" "user_nodes (store a) = [(1, 1)]"
proof -
  obtain a0 a where a: "demo_boot = Some a0" "handleWS 0 demo_register a0 = Some (0, a)"
    "map_of (conns a) 1 = Some 0" "length (ncSend (objs a ! 0)) < sendCap"
    "GetNode 0 1 (store a) = Inr (scanNode 0 (store a) (demo_node\<lparr>nrAgentVersion := ''v1''\<rparr>))"
    "users (store a) = [demo_user]" "user_nodes (store a) = [(1, 1)]"
    by (rule demo_connecting)
  have "running a0" using a(1) unfolding demo_boot_def by (rule running.booted [OF demo_store_ok demo_data_ok])
  then have "running a" by (rule running.stepped) (rule run_step.connected, rule a(2))
  with a that show thesis by blast
qed

definition user_request :: request where
  "user_request = demo_request\<lparr>rqVars := [(''id'', ''1'')], rqNano := 0\<rparr>"


end
