(* ===== verification/Edge.thy ===== *)
theory Edge
  imports Nodeconf Go_Strings Codec
begin

text \<open>
  The files the agent keeps for the node's edge: the nginx configuration with its SNI routing
  (\<open>src/internal/agent/nginx.go\<close>) and the domain of the ACME sidecar (\<open>acme.go\<close>). File contents are part of
  the state; whether a system call succeeds is an input.
\<close>

section \<open>The nginx configuration\<close>

definition newline :: char where
  "newline = CHR 0x0A"

text \<open>The template, line by line; \<open>__REALITY_MAP__\<close> stands at the start of its line.\<close>

definition tmpl_head :: "string list" where
  "tmpl_head =
     [''user nginx;'',
      ''worker_processes auto;'',
      ''error_log /var/log/nginx/error.log warn;'',
      ''pid /var/run/nginx.pid;'',
      '''',
      ''events {'',
      ''    worker_connections 1024;'',
      ''    use epoll;'',
      ''    multi_accept on;'',
      ''}'',
      '''',
      ''stream {'',
      ''    upstream xray_tls_vision     { server xray:10444; }'',
      ''    upstream xray_reality_vision { server xray:10443; }'',
      '''',
      ''    map $ssl_preread_server_name $xuanwu_stream_backend {'']"

definition tmpl_tail :: "string list" where
  "tmpl_tail =
     [''        default                xray_tls_vision;'',
      ''    }'',
      '''',
      ''    server {'',
      ''        listen 443;'',
      ''        listen [::]:443;'',
      ''        proxy_pass $xuanwu_stream_backend;'',
      ''        ssl_preread on;'',
      ''        proxy_protocol on;               # send the real client IP to xray'',
      ''        proxy_connect_timeout 5s;'',
      ''        proxy_timeout 1h;'',
      ''    }'',
      ''}'',
      '''',
      ''http {'',
      ''    include /etc/nginx/mime.types;'',
      ''    default_type application/octet-stream;'',
      ''    sendfile on;'',
      ''    tcp_nopush on;'',
      ''    tcp_nodelay on;'',
      ''    keepalive_timeout 65;'',
      ''    server_tokens off;'',
      '''',
      ''    server {'',
      ''        listen 8080;'',
      ''        listen [::]:8080;'',
      ''        server_name _;'',
      ''        root /usr/share/nginx/html;'',
      ''        index index.html;'',
      '''',
      ''        location / {'',
      ''            try_files $uri $uri/ $uri.html =404;'',
      ''        }'',
      ''        location ~ /'' @ [CHR 0x5C] @ ''. { deny all; }'',
      ''    }'',
      ''}'']"

definition unlines :: "string list \<Rightarrow> string" where
  "unlines ls = concat (map (\<lambda>l. l @ [newline]) ls)"

definition nginxTmpl :: string where
  "nginxTmpl = unlines tmpl_head @ ''__REALITY_MAP__'' @ unlines tmpl_tail"

text \<open>\<open>strings.Replace(s, old, new, 1)\<close> for a non-empty \<open>old\<close>.\<close>

fun Replace1 :: "string \<Rightarrow> string \<Rightarrow> string \<Rightarrow> string" where
  "Replace1 [] old new = []"
| "Replace1 (c # s) old new = (if prefix old (c # s) then new @ drop (length old) (c # s) else c # Replace1 s old new)"

definition sni_char :: "nat \<Rightarrow> bool" where
  "sni_char r \<longleftrightarrow> 0x61 \<le> r \<and> r \<le> 0x7A \<or> 0x41 \<le> r \<and> r \<le> 0x5A \<or> 0x30 \<le> r \<and> r \<le> 0x39
     \<or> r = 0x2E \<or> r = 0x2D \<or> r = 0x5F \<or> r = 0x2A"

definition validSNI :: "string \<Rightarrow> bool" where
  "validSNI s \<longleftrightarrow> s \<noteq> '''' \<and> list_all sni_char (runes (bytes_of s))"

definition map_entry :: "string \<Rightarrow> string" where
  "map_entry sni = ''        '' @ sni @ '' xray_reality_vision;''"

definition nginxConf :: "string \<Rightarrow> string" where
  "nginxConf realitySNI =
     (let line = (if realitySNI \<noteq> '''' \<and> validSNI realitySNI then map_entry realitySNI @ [newline] else '''')
      in Replace1 nginxTmpl ''__REALITY_MAP__'' line)"

definition sni_of_inbound :: "json \<Rightarrow> string option" where
  "sni_of_inbound ib =
     (case as_obj ib of
        None \<Rightarrow> None
      | Some inb \<Rightarrow>
          if map_of inb ''tag'' \<noteq> Some (JStr tagReality) then None
          else
            let ss = or_zero (field_obj ''streamSettings'' inb);
                rs = or_zero (field_obj ''realitySettings'' ss);
                names = or_zero (field_arr ''serverNames'' rs)
            in (case names of [] \<Rightarrow> None | n # _ \<Rightarrow> Some (or_zero (as_str n))))"

definition realitySNIFromConfig :: "raw_message \<Rightarrow> string" where
  "realitySNIFromConfig raw =
     (case Option.bind raw as_obj of
        None \<Rightarrow> ''''
      | Some m \<Rightarrow> (case List.map_filter sni_of_inbound (or_zero (field_arr ''inbounds'' m)) of
                       [] \<Rightarrow> '''' | s # _ \<Rightarrow> s))"

record edge =
  nginxPath :: string
  nginxFile :: "string option"
  nginxRestarts :: nat
  acmePath :: string
  acmeFile :: "string option"

record edge_io =
  eMkdir :: bool
  eWrite :: bool
  eNginxRunning :: bool

definition applyNginx :: "edge_io \<Rightarrow> string \<Rightarrow> edge \<Rightarrow> edge" where
  "applyNginx io realitySNI e =
     (if nginxPath e = '''' then e
      else
        let desired = nginxConf realitySNI
        in if nginxFile e = Some desired then e
           else if \<not> eMkdir io then e
           else if \<not> eWrite io then e
           else
             let e1 = e\<lparr>nginxFile := Some desired\<rparr>
             in if eNginxRunning io then e1\<lparr>nginxRestarts := Suc (nginxRestarts e1)\<rparr> else e1)"

section \<open>The ACME domain\<close>

definition writeACMEDomain :: "edge_io \<Rightarrow> string \<Rightarrow> edge \<Rightarrow> edge" where
  "writeACMEDomain io domain0 e =
     (if acmePath e = '''' then e
      else
        let domain = TrimSpace domain0
        in if map_option TrimSpace (acmeFile e) = Some domain then e
           else if \<not> eMkdir io then e
           else if \<not> eWrite io then e
           else e\<lparr>acmeFile := Some (domain @ [newline])\<rparr>)"

section \<open>What a serverName can do to the nginx configuration\<close>

lemma validSNI_bytes: "validSNI s \<Longrightarrow> runes (bytes_of s) = bytes_of s"
  by (rule runes_ascii) (auto simp: validSNI_def sni_char_def list_all_iff)

lemma validSNI_chars: "validSNI s \<Longrightarrow> c \<in> set s \<Longrightarrow> sni_char (of_char c)"
  using validSNI_bytes [of s] by (auto simp: validSNI_def list_all_iff bytes_of_def)

lemma unlines_Join: "unlines ls = Join (ls @ ['''']) [newline]"
  by (induction ls) (simp_all add: unlines_def Join_Cons)

lemma Replace1_first:
  assumes "\<not> sublist [c, c] a" and "a = [] \<or> last a \<noteq> c"
  shows "Replace1 (a @ (c # c # old) @ b) (c # c # old) new = a @ new @ b"
  using assms
proof (induction a)
  case (Cons x a)
  have ih: "Replace1 (a @ (c # c # old) @ b) (c # c # old) new = a @ new @ b"
    using Cons by (cases "a = []") (auto simp: sublist_Cons_right)
  have "\<not> prefix (c # c # old) (x # a @ (c # c # old) @ b)"
  proof
    assume p: "prefix (c # c # old) (x # a @ (c # c # old) @ b)"
    show False
    proof (cases a)
      case Nil
      with p Cons.prems show ?thesis by simp
    next
      case (Cons y ys)
      with p have "x = c" "y = c" by auto
      with Cons \<open>\<not> sublist [c, c] (x # a)\<close> show ?thesis by (simp add: sublist_Cons_right)
    qed
  qed
  then have "Replace1 ((x # a) @ (c # c # old) @ b) (c # c # old) new = x # Replace1 (a @ (c # c # old) @ b) (c # c # old) new"
    by (simp only: append_Cons Replace1.simps if_False)
  with ih show ?case by simp
qed simp

lemma tmpl_head_clean: "\<not> sublist ''__'' (unlines tmpl_head)" "last (unlines tmpl_head) \<noteq> CHR ''_''"
  by code_simp+

lemma tmpl_no_newline: "\<forall>l \<in> set (tmpl_head @ tmpl_tail). newline \<notin> set l"
  by code_simp

lemma nginxConf_text:
  "nginxConf s = unlines (tmpl_head @ (if validSNI s then [map_entry s] else []) @ tmpl_tail)"
proof -
  have "Replace1 nginxTmpl ''__REALITY_MAP__'' line = unlines tmpl_head @ line @ unlines tmpl_tail" for line
    unfolding nginxTmpl_def by (rule Replace1_first [OF tmpl_head_clean(1) disjI2 [OF tmpl_head_clean(2)]])
  then show ?thesis by (auto simp: nginxConf_def unlines_def validSNI_def)
qed

lemma map_entry_no_newline: "validSNI s \<Longrightarrow> newline \<notin> set (map_entry s)"
  using validSNI_chars [of s newline] by (auto simp: map_entry_def newline_def sni_char_def)

lemma sni_of_api [simp]: "sni_of_inbound apiInbound = None"
  by (simp add: sni_of_inbound_def apiInbound_def tag_defs)

lemma sni_of_tls [simp]: "sni_of_inbound (tlsInbound cs) = None"
  by (simp add: sni_of_inbound_def tlsInbound_def tag_defs)

lemma sni_of_reality [simp]: "sni_of_inbound (realityInbound p cs) = Some (npRealityServerName p)"
  by (simp add: sni_of_inbound_def realityInbound_def field_defs Let_def)

lemma realitySNI_Build:
  "realitySNIFromConfig (Some (Build p cs)) = (if hasReality p then npRealityServerName p else '''')"
  by (simp add: realitySNIFromConfig_def Build_def config_with_def inbounds_of_def field_defs
        List.map_filter_simps)

lemma applyNginx_done:
  "nginxPath e \<noteq> '''' \<Longrightarrow> eMkdir io \<Longrightarrow> eWrite io \<Longrightarrow> nginxFile (applyNginx io s e) = Some (nginxConf s)"
  by (simp add: applyNginx_def Let_def)

text \<open>C24: whatever serverName reaches the agent, the nginx configuration it writes is the template line for
  line, with at most one line added to the SNI map, and that line is \<open><name> xray_reality_vision;\<close> with a
  name made of letters, digits and \<open>. - _ *\<close> only: no serverName can end its entry and start another
  directive. Anything else yields the TLS-only configuration.\<close>

theorem nginx_config_not_injectable:
  "Split (nginxConf s) [newline] =
     tmpl_head @ (if s \<noteq> '''' \<and> (\<forall>c \<in> set s. sni_char (of_char c)) then [map_entry s] else []) @ tmpl_tail @ ['''']"
proof -
  have valid: "validSNI s \<longleftrightarrow> s \<noteq> '''' \<and> (\<forall>c \<in> set s. sni_char (of_char c))"
  proof
    assume "s \<noteq> '''' \<and> (\<forall>c \<in> set s. sni_char (of_char c))"
    moreover from this have "runes (bytes_of s) = bytes_of s"
      by (intro runes_all_ascii) (auto simp: list_all_iff sni_char_def bytes_of_def)
    ultimately show "validSNI s" by (auto simp: validSNI_def list_all_iff bytes_of_def)
  next
    assume "validSNI s"
    then show "s \<noteq> '''' \<and> (\<forall>c \<in> set s. sni_char (of_char c))"
      using validSNI_chars by (auto simp: validSNI_def)
  qed
  let ?ls = "tmpl_head @ (if validSNI s then [map_entry s] else []) @ tmpl_tail"
  have "Split (unlines ?ls) [newline] = ?ls @ ['''']"
    unfolding unlines_Join using tmpl_no_newline map_entry_no_newline by (intro Split_Join) auto
  then show ?thesis by (simp add: nginxConf_text valid)
qed

theorem nginx_config_not_injectable_witness:
  "Split (nginxConf ''a.b; }'') [newline] = tmpl_head @ tmpl_tail @ ['''']
   \<and> Split (nginxConf ''a.b'') [newline] = tmpl_head @ [''        a.b xray_reality_vision;''] @ tmpl_tail @ ['''']"
  using nginx_config_not_injectable [of "''a.b; }''"] nginx_config_not_injectable [of "''a.b''"]
  by (simp add: sni_char_def map_entry_def)

end
