(* ===== verification/Live.thy ===== *)
theory Live
  imports Marshal Edge Sha
begin

text \<open>
  The agent's engine control: the configuration file, the baseline of what the engine runs and the
  live update of its users (\<open>src/internal/agent/xray.go\<close>, \<open>live_grpc.go\<close>, \<open>baseline.go\<close>, \<open>certwatch.go\<close>, the
  apply state of \<open>agent.go\<close>).

  The engine (Xray behind gRPC and docker) is outside code: \<open>engine_api\<close> holds what the agent asks of it,
  on a state the agent cannot see, each request with the success the agent is told. A configuration
  file holds the value it was printed from. Whether a file operation succeeds is an input.
\<close>

section \<open>State\<close>

type_synonym client_map = "(string, (string, string) gomap) gomap"

record liveState =
  lvPath :: string
  lvSkeleton :: string
  lvClients :: client_map
  lvSha :: string

datatype baseline =
    BMissing
  | BInvalid
  | BData string "client_map option" string

record 'e engine_api =
  egAdd :: "string \<Rightarrow> string \<Rightarrow> string \<Rightarrow> 'e \<Rightarrow> bool \<times> 'e"
  egRemove :: "string \<Rightarrow> string \<Rightarrow> 'e \<Rightarrow> bool \<times> 'e"
  egRestart :: "json option \<Rightarrow> 'e \<Rightarrow> bool \<times> 'e"

record agent_io =
  ioCert :: bool
  ioWrite :: bool
  ioPersist :: bool
  ioDial :: bool
  ioEdge :: edge_io

record 'e agent =
  agXrayPath :: string
  agCertPath :: string
  agLive :: liveState
  agLast :: raw_message
  agXrayFile :: "json option"
  agBaseline :: baseline
  agEdge :: edge
  agEngine :: 'e
  agRestarts :: nat

section \<open>Baseline\<close>

definition newLiveState :: "string \<Rightarrow> liveState" where
  "newLiveState path = \<lparr>lvPath = path, lvSkeleton = '''', lvClients = [], lvSha = ''''\<rparr>"

definition bytesSHA :: "string \<Rightarrow> string" where
  "bytesSHA b = hex_encode (sha256 b)"

definition fileSHA :: "json option \<Rightarrow> string" where
  "fileSHA f = (case f of None \<Rightarrow> '''' | Some j \<Rightarrow> bytesSHA (MarshalIndent j))"

definition persist :: "bool \<Rightarrow> liveState \<Rightarrow> baseline \<Rightarrow> baseline" where
  "persist wok s d =
     (if lvPath s = '''' \<or> lvSkeleton s = '''' then d
      else if \<not> wok then d
      else BData (lvSkeleton s) (Some (lvClients s)) (lvSha s))"

definition seed :: "string \<Rightarrow> json option \<Rightarrow> baseline \<Rightarrow> liveState \<Rightarrow> liveState" where
  "seed configPath configFile d s =
     (if lvPath s = '''' \<or> configPath = '''' then s
      else
        (case d of
           BData skel cl sha \<Rightarrow>
             if skel = '''' then s
             else if sha = '''' \<or> sha \<noteq> fileSHA configFile then s
             else s\<lparr>lvSkeleton := skel, lvClients := or_zero cl, lvSha := sha\<rparr>
         | _ \<Rightarrow> s))"

definition liveSet :: "bool \<Rightarrow> string \<Rightarrow> client_map \<Rightarrow> string \<Rightarrow> 'e agent \<Rightarrow> 'e agent" where
  "liveSet wok skel cl sha a =
     (let l = (agLive a)\<lparr>lvSkeleton := skel, lvClients := cl, lvSha := sha\<rparr>
      in a\<lparr>agLive := l, agBaseline := persist wok l (agBaseline a)\<rparr>)"

section \<open>Reading a configuration\<close>

definition add_client :: "json \<Rightarrow> (string, string) gomap \<Rightarrow> (string, string) gomap" where
  "add_client c m =
     (case as_obj c of
        None \<Rightarrow> m
      | Some cm \<Rightarrow>
          let email = or_zero (field_str ''email'' cm); uuid = or_zero (field_str ''id'' cm)
          in if email \<noteq> '''' then gomap_set email uuid m else m)"

definition client_set :: "json list \<Rightarrow> (string, string) gomap" where
  "client_set arr = fold add_client arr []"

definition parse_inbound :: "json \<Rightarrow> json \<times> (string \<times> (string, string) gomap) option" where
  "parse_inbound ib =
     (case as_obj ib of
        None \<Rightarrow> (ib, None)
      | Some inb \<Rightarrow>
          let tag = or_zero (field_str ''tag'' inb)
          in if tag \<noteq> tagTLS \<and> tag \<noteq> tagReality then (ib, None)
             else (case field_obj ''settings'' inb of
                     None \<Rightarrow> (ib, None)
                   | Some sett \<Rightarrow>
                       (JObj (gomap_set ''settings'' (JObj (gomap_set ''clients'' (JArr []) sett)) inb),
                        Some (tag, client_set (or_zero (field_arr ''clients'' sett))))))"

definition parseClients :: "raw_message \<Rightarrow> (string \<times> client_map) option" where
  "parseClients raw =
     (case Option.bind raw as_obj of
        None \<Rightarrow> None
      | Some m \<Rightarrow>
          (case field_arr ''inbounds'' m of
             None \<Rightarrow> None
           | Some inbounds \<Rightarrow>
               let ps = map parse_inbound inbounds
               in Some (marshal (JObj (gomap_set ''inbounds'' (JArr (map fst ps)) m)),
                        fold (\<lambda>(t, s). gomap_set t s) (List.map_filter snd ps) [])))"

definition clients_at :: "client_map \<Rightarrow> string \<Rightarrow> (string, string) gomap" where
  "clients_at cl tag = or_zero (map_of cl tag)"

definition is_tls_inbound :: "json \<Rightarrow> bool" where
  "is_tls_inbound ib = (case as_obj ib of None \<Rightarrow> False | Some inb \<Rightarrow> map_of inb ''tag'' = Some (JStr tagTLS))"

definition stripTLSIfNoCert :: "bool \<Rightarrow> string \<Rightarrow> raw_message \<Rightarrow> raw_message" where
  "stripTLSIfNoCert certOk certPath raw =
     (if certPath = '''' then raw
      else if certOk then raw
      else
        (case Option.bind raw as_obj of
           None \<Rightarrow> raw
         | Some m \<Rightarrow>
             (case field_arr ''inbounds'' m of
                None \<Rightarrow> raw
              | Some inbounds \<Rightarrow>
                  if \<not> list_ex is_tls_inbound inbounds then raw
                  else Some (JObj (gomap_set ''inbounds'' (JArr (filter (\<lambda>ib. \<not> is_tls_inbound ib) inbounds)) m)))))"

section \<open>The live update\<close>

fun add_users :: "'e engine_api \<Rightarrow> string \<Rightarrow> (string, string) gomap \<Rightarrow> (string, string) gomap \<Rightarrow> 'e \<Rightarrow> bool \<times> 'e" where
  "add_users E tag oldSet [] e = (True, e)"
| "add_users E tag oldSet ((email, uuid) # new) e =
     (if map_of oldSet email = Some uuid then add_users E tag oldSet new e
      else
        (case (if map_of oldSet email \<noteq> None then egRemove E tag email e else (True, e)) of
           (False, e1) \<Rightarrow> (False, e1)
         | (True, e1) \<Rightarrow>
             (case egAdd E tag email uuid e1 of
                (False, e2) \<Rightarrow> (False, e2)
              | (True, e2) \<Rightarrow> add_users E tag oldSet new e2)))"

fun remove_users :: "'e engine_api \<Rightarrow> string \<Rightarrow> (string, string) gomap \<Rightarrow> string list \<Rightarrow> 'e \<Rightarrow> bool \<times> 'e" where
  "remove_users E tag newSet [] e = (True, e)"
| "remove_users E tag newSet (email # old) e =
     (if map_of newSet email \<noteq> None then remove_users E tag newSet old e
      else (case egRemove E tag email e of
              (False, e1) \<Rightarrow> (False, e1)
            | (True, e1) \<Rightarrow> remove_users E tag newSet old e1))"

definition sync_tag :: "'e engine_api \<Rightarrow> client_map \<Rightarrow> client_map \<Rightarrow> string \<Rightarrow> 'e \<Rightarrow> bool \<times> 'e" where
  "sync_tag E old new tag e =
     (case add_users E tag (clients_at old tag) (clients_at new tag) e of
        (False, e1) \<Rightarrow> (False, e1)
      | (True, e1) \<Rightarrow> remove_users E tag (clients_at new tag) (map fst (clients_at old tag)) e1)"

fun sync_tags :: "'e engine_api \<Rightarrow> client_map \<Rightarrow> client_map \<Rightarrow> string list \<Rightarrow> 'e \<Rightarrow> bool \<times> 'e" where
  "sync_tags E old new [] e = (True, e)"
| "sync_tags E old new (tag # tags) e =
     (case sync_tag E old new tag e of
        (False, e1) \<Rightarrow> (False, e1)
      | (True, e1) \<Rightarrow> sync_tags E old new tags e1)"

definition liveApply :: "'e engine_api \<Rightarrow> agent_io \<Rightarrow> string \<Rightarrow> client_map \<Rightarrow> string \<Rightarrow> 'e agent \<Rightarrow> bool \<times> 'e agent" where
  "liveApply E io skel cl sha a =
     (if lvSkeleton (agLive a) = '''' \<or> lvSkeleton (agLive a) \<noteq> skel then (False, a)
      else if \<not> ioDial io then (False, a)
      else
        (case sync_tags E (lvClients (agLive a)) cl [tagTLS, tagReality] (agEngine a) of
           (False, e) \<Rightarrow> (False, a\<lparr>agEngine := e\<rparr>)
         | (True, e) \<Rightarrow> (True, liveSet (ioPersist io) skel cl sha (a\<lparr>agEngine := e\<rparr>))))"

definition dockerRestart :: "'e engine_api \<Rightarrow> 'e agent \<Rightarrow> bool \<times> 'e agent" where
  "dockerRestart E a =
     (case egRestart E (agXrayFile a) (agEngine a) of
        (ok, e) \<Rightarrow> (ok, a\<lparr>agEngine := e, agRestarts := Suc (agRestarts a)\<rparr>))"

definition writeConfig :: "bool \<Rightarrow> raw_message \<Rightarrow> 'e agent \<Rightarrow> (string \<times> 'e agent) option" where
  "writeConfig wok raw a =
     (case raw of
        None \<Rightarrow> None
      | Some obj \<Rightarrow>
          let pretty = MarshalIndent obj
          in if wok then Some (pretty, a\<lparr>agXrayFile := Some obj\<rparr>) else None)"

text \<open>The result is whether \<open>applyConfig\<close> returned no error.\<close>

definition applyConfig :: "'e engine_api \<Rightarrow> agent_io \<Rightarrow> raw_message \<Rightarrow> 'e agent \<Rightarrow> bool \<times> 'e agent" where
  "applyConfig E io raw0 a0 =
     (let a = a0\<lparr>agLast := raw0\<rparr>;
          raw = stripTLSIfNoCert (ioCert io) (agCertPath a) raw0
      in case writeConfig (ioWrite io) raw a of
           None \<Rightarrow> (False, a)
         | Some (pretty, a1) \<Rightarrow>
             let a2 = a1\<lparr>agEdge := applyNginx (ioEdge io) (realitySNIFromConfig raw) (agEdge a1)\<rparr>;
                 sha = bytesSHA pretty;
                 parsed = parseClients raw;
                 (done, a3) = (case parsed of
                    None \<Rightarrow> (False, a2)
                  | Some (skel, cl) \<Rightarrow> liveApply E io skel cl sha a2)
             in if done then (True, a3)
                else (case dockerRestart E a3 of
                        (False, a4) \<Rightarrow> (False, a4)
                      | (True, a4) \<Rightarrow>
                          (case parsed of
                             None \<Rightarrow> (True, a4)
                           | Some (skel, cl) \<Rightarrow> (True, liveSet (ioPersist io) skel cl sha a4))))"

section \<open>The certificate watcher\<close>

text \<open>
  One tick of \<open>watchCert\<close>: \<open>stamp\<close> is the modification time and size of the certificate (\<open>None\<close>: no such
  file), the pair is the stamp of the last tick (\<open>None\<close>: the zero time).
\<close>

definition watch_tick :: "'e engine_api \<Rightarrow> agent_io \<Rightarrow> (int \<times> int64) option \<Rightarrow> (int option \<times> int64) \<times> 'e agent \<Rightarrow> (int option \<times> int64) \<times> 'e agent" where
  "watch_tick E io stamp = (\<lambda>((lastT, lastS), a).
     if agCertPath a = '''' then ((lastT, lastS), a)
     else (case stamp of
             None \<Rightarrow> ((lastT, lastS), a)
           | Some (mt, sz) \<Rightarrow>
               if (case lastT of None \<Rightarrow> True | Some t \<Rightarrow> mt > t) \<or> sz \<noteq> lastS
               then ((Some mt, sz),
                     if agLast a \<noteq> None then snd (applyConfig E io (agLast a) a) else snd (dockerRestart E a))
               else ((lastT, lastS), a)))"

text \<open>What a restarted agent process keeps: the files and the engine, with the baseline read back.\<close>

definition agent_restart :: "'e agent \<Rightarrow> 'e agent" where
  "agent_restart a =
     a\<lparr>agLive := seed (agXrayPath a) (agXrayFile a) (agBaseline a) (newLiveState (lvPath (agLive a))), agLast := None\<rparr>"

end
