(* ===== verification/Live_Inv.thy ===== *)
theory Live_Inv
  imports Live
begin

text \<open>
  What the engine runs after a push. The engine's promises are the hypothesis \<open>engine_ok\<close>: a
  successful \<open>AddUserOperation\<close> or \<open>RemoveUserOperation\<close> changes that user of that inbound and
  nothing else, and a successful restart leaves exactly the users the configuration file lists.
\<close>

section \<open>The engine\<close>

text \<open>The identifiers a configuration lists for an e-mail on an inbound, read off the value.\<close>

definition inbound_ids :: "string \<Rightarrow> string \<Rightarrow> json \<Rightarrow> string list" where
  "inbound_ids tag email ib =
     (let inb = or_zero (as_obj ib);
          cs = List.map_filter as_obj (or_zero (field_arr ''clients'' (or_zero (field_obj ''settings'' inb))))
      in if map_of inb ''tag'' = Some (JStr tag)
         then List.map_filter (field_str ''id'') (filter (\<lambda>c. map_of c ''email'' = Some (JStr email)) cs)
         else [])"

definition listed_ids :: "json \<Rightarrow> string \<Rightarrow> string \<Rightarrow> string list" where
  "listed_ids j tag email = concat (map (inbound_ids tag email) (or_zero (field_arr ''inbounds'' (or_zero (as_obj j)))))"

type_synonym user_view = "string \<Rightarrow> string \<Rightarrow> string option"

definition engine_ok :: "'e engine_api \<Rightarrow> ('e \<Rightarrow> user_view) \<Rightarrow> bool" where
  "engine_ok E runs \<longleftrightarrow>
     (\<forall>tag email uuid e e'. egAdd E tag email uuid e = (True, e') \<longrightarrow>
        runs e' = (runs e)(tag := (runs e tag)(email \<mapsto> uuid))) \<and>
     (\<forall>tag email e e'. egRemove E tag email e = (True, e') \<longrightarrow>
        runs e' = (runs e)(tag := (runs e tag)(email := None))) \<and>
     (\<forall>j e e'. egRestart E (Some j) e = (True, e') \<longrightarrow>
        (\<forall>tag email. length (listed_ids j tag email) \<le> 1) \<longrightarrow>
        (\<forall>tag email. tag \<in> {tagTLS, tagReality} \<longrightarrow> runs e' tag email = (case listed_ids j tag email of [] \<Rightarrow> None | i # _ \<Rightarrow> Some i)))"

lemma engine_addD: "engine_ok E runs \<Longrightarrow> egAdd E tag email uuid e = (True, e') \<Longrightarrow> runs e' = (runs e)(tag := (runs e tag)(email \<mapsto> uuid))"
  unfolding engine_ok_def by blast

lemma engine_removeD: "engine_ok E runs \<Longrightarrow> egRemove E tag email e = (True, e') \<Longrightarrow> runs e' = (runs e)(tag := (runs e tag)(email := None))"
  unfolding engine_ok_def by blast

lemma engine_restartD:
  "engine_ok E runs \<Longrightarrow> egRestart E (Some j) e = (True, e') \<Longrightarrow> (\<And>tag email. length (listed_ids j tag email) \<le> 1) \<Longrightarrow>
   tag \<in> {tagTLS, tagReality} \<Longrightarrow> runs e' tag email = (case listed_ids j tag email of [] \<Rightarrow> None | i # _ \<Rightarrow> Some i)"
  unfolding engine_ok_def by blast

section \<open>The user loop\<close>

lemma add_users_runs:
  assumes E: "engine_ok E runs"
  shows "add_users E tag old new e = (True, e') \<Longrightarrow> gomap_wf new \<Longrightarrow>
    (\<And>email uuid. (email, uuid) \<in> set new \<Longrightarrow> map_of old email = Some uuid \<Longrightarrow> runs e tag email = Some uuid) \<Longrightarrow>
    runs e' = (runs e)(tag := runs e tag ++ map_of new)"
proof (induction new arbitrary: e)
  case (Cons eu new)
  obtain email uuid where eu: "eu = (email, uuid)" by (cases eu)
  have fresh: "map_of new email = None" and wf: "gomap_wf new"
    using Cons.prems(2) eu by (simp_all add: map_of_eq_None_iff)
  have same: "map_of old x = Some u \<Longrightarrow> runs e tag x = Some u" if "(x, u) \<in> set (eu # new)" for x u
    using Cons.prems(3) that by blast
  show ?case
  proof (cases "map_of old email = Some uuid")
    case True
    then have "add_users E tag old new e = (True, e')" using Cons.prems(1) eu by simp
    then have "runs e' = (runs e)(tag := runs e tag ++ map_of new)"
      by (rule Cons.IH [OF _ wf]) (use same in auto)
    moreover have "runs e tag email = Some uuid" using same [of email uuid] True eu by simp
    ultimately show ?thesis
      using fresh eu by (auto simp: fun_eq_iff map_add_def split: option.splits)
  next
    case False
    then obtain e1 e2 where e1: "(if map_of old email \<noteq> None then egRemove E tag email e else (True, e)) = (True, e1)"
      and e2: "egAdd E tag email uuid e1 = (True, e2)" and e': "add_users E tag old new e2 = (True, e')"
      using Cons.prems(1) eu by (auto split: prod.splits bool.splits if_splits)
    have r1: "runs e1 = (runs e)(tag := (runs e tag)(email := None)) \<or> e1 = e"
      using e1 engine_removeD [OF E, of tag email e e1] by (auto split: if_splits)
    have r2: "runs e2 = (runs e)(tag := (runs e tag)(email \<mapsto> uuid))"
      using r1 engine_addD [OF E e2] by auto
    have "runs e2 tag x = Some u" if "(x, u) \<in> set new" "map_of old x = Some u" for x u
    proof -
      have "x \<noteq> email" using that(1) fresh by (auto simp: map_of_eq_None_iff image_iff)
      with r2 same [of x u] that show ?thesis by simp
    qed
    from Cons.IH [OF e' wf this] r2 fresh eu show ?thesis
      by (auto simp: fun_eq_iff map_add_def split: option.splits)
  qed
qed simp

lemma remove_users_runs:
  assumes E: "engine_ok E runs"
  shows "remove_users E tag new old e = (True, e') \<Longrightarrow>
    runs e' = (runs e)(tag := (\<lambda>x. if x \<in> set old \<and> map_of new x = None then None else runs e tag x))"
proof (induction old arbitrary: e)
  case (Cons x old)
  show ?case
  proof (cases "map_of new x = None")
    case True
    with Cons.prems obtain e1 where e1: "egRemove E tag x e = (True, e1)" "remove_users E tag new old e1 = (True, e')"
      by (auto split: prod.splits bool.splits)
    from Cons.IH [OF e1(2)] engine_removeD [OF E e1(1)] True show ?thesis
      by (auto simp: fun_eq_iff)
  next
    case False
    with Cons show ?thesis by (auto simp: fun_eq_iff)
  qed
qed simp

lemma map_sync: "(\<lambda>x. if x \<in> dom old \<and> new x = None then None else (old ++ new) x) = new"
  by (auto simp: fun_eq_iff map_add_def split: option.splits)

lemma sync_tag_runs:
  assumes E: "engine_ok E runs" and "sync_tag E old new tag e = (True, e')"
    and "gomap_wf (clients_at new tag)" and "runs e tag = map_of (clients_at old tag)"
  shows "runs e' = (runs e)(tag := map_of (clients_at new tag))"
proof -
  obtain e1 where e1: "add_users E tag (clients_at old tag) (clients_at new tag) e = (True, e1)"
    and e2: "remove_users E tag (clients_at new tag) (map fst (clients_at old tag)) e1 = (True, e')"
    using assms(2) by (auto simp: sync_tag_def split: prod.splits bool.splits)
  let ?o = "map_of (clients_at old tag)" and ?n = "map_of (clients_at new tag)"
  have r1: "runs e1 = (runs e)(tag := ?o ++ ?n)"
    using add_users_runs [OF E e1 assms(3)] assms(4) by simp
  have "runs e' = (runs e1)(tag := (\<lambda>x. if x \<in> dom ?o \<and> ?n x = None then None else runs e1 tag x))"
    using remove_users_runs [OF E e2] by (simp add: dom_map_of_conv_image_fst)
  also have "\<dots> = (runs e)(tag := ?n)"
    by (simp only: r1 fun_upd_upd fun_upd_same map_sync)
  finally show ?thesis .
qed

lemma tags_distinct [simp]: "tagTLS \<noteq> tagReality" "tagReality \<noteq> tagTLS"
  by (simp_all add: tag_defs)

lemma sync_tags_runs:
  assumes E: "engine_ok E runs" and s: "sync_tags E old new [tagTLS, tagReality] e = (True, e')"
    and new: "\<And>tag. gomap_wf (clients_at new tag)"
    and old: "\<And>tag. tag \<in> {tagTLS, tagReality} \<Longrightarrow> runs e tag = map_of (clients_at old tag)"
    and tag: "tag \<in> {tagTLS, tagReality}"
  shows "runs e' tag = map_of (clients_at new tag)"
proof -
  obtain e1 where e1: "sync_tag E old new tagTLS e = (True, e1)" "sync_tag E old new tagReality e1 = (True, e')"
    using s by (auto split: prod.splits bool.splits)
  have r1: "runs e1 = (runs e)(tagTLS := map_of (clients_at new tagTLS))"
    by (rule sync_tag_runs [OF E e1(1) new old]) simp
  have "runs e' = (runs e1)(tagReality := map_of (clients_at new tagReality))"
    by (rule sync_tag_runs [OF E e1(2) new]) (use r1 old in simp)
  with r1 tag show ?thesis by auto
qed

section \<open>Generated configurations\<close>

text \<open>Dropping the TLS inbound of a generated configuration generates it without a TLS domain.\<close>

definition effective :: "bool \<Rightarrow> string \<Rightarrow> NodeParams \<Rightarrow> NodeParams" where
  "effective certOk certPath p = (if certPath \<noteq> '''' \<and> \<not> certOk then p\<lparr>npTLSDomain := ''''\<rparr> else p)"

definition opens :: "NodeParams \<Rightarrow> string \<Rightarrow> bool" where
  "opens p tag \<longleftrightarrow> tag = tagTLS \<and> npTLSDomain p \<noteq> '''' \<or> tag = tagReality \<and> hasReality p"

definition client_book :: "Client list \<Rightarrow> (string, string) gomap" where
  "client_book cs = map (\<lambda>c. (cEmail c, cUUID c)) cs"

definition clients_ok :: "Client list \<Rightarrow> bool" where
  "clients_ok cs \<longleftrightarrow> distinct (map cEmail cs) \<and> '''' \<notin> cEmail ` set cs"

lemma is_tls_simps [simp]:
  "\<not> is_tls_inbound apiInbound" "is_tls_inbound (tlsInbound js)" "\<not> is_tls_inbound (realityInbound p js)"
  by (simp_all add: is_tls_inbound_def apiInbound_def tlsInbound_def realityInbound_def tag_defs)

lemma hasReality_domain [simp]: "hasReality (p\<lparr>npTLSDomain := d\<rparr>) = hasReality p"
  by (simp add: hasReality_def)

lemma realityInbound_domain [simp]: "realityInbound (p\<lparr>npTLSDomain := d\<rparr>) = realityInbound p"
  by (simp add: realityInbound_def fun_eq_iff)

lemma filter_tls_inbounds:
  "filter (\<lambda>ib. \<not> is_tls_inbound ib) (inbounds_of p js) = inbounds_of (p\<lparr>npTLSDomain := ''''\<rparr>) js"
  by (simp add: inbounds_of_def)

lemma config_with_obj:
  obtains m where "config_with ibs = JObj m" "field_arr ''inbounds'' m = Some ibs"
    "\<forall>ibs'. JObj (gomap_set ''inbounds'' (JArr ibs') m) = config_with ibs'"
  by (simp add: config_with_def field_defs)

lemma strip_Build: "stripTLSIfNoCert certOk path (Some (Build p cs)) = Some (Build (effective certOk path p) cs)"
proof -
  let ?js = "map client_json cs"
  obtain m where m: "Build p cs = JObj m" "field_arr ''inbounds'' m = Some (inbounds_of p ?js)"
      "\<forall>ibs'. JObj (gomap_set ''inbounds'' (JArr ibs') m) = config_with ibs'"
    unfolding Build_def by (rule config_with_obj [of "inbounds_of p ?js"]) blast
  have "inbounds_of p ?js = inbounds_of (p\<lparr>npTLSDomain := ''''\<rparr>) ?js" if "\<not> list_ex is_tls_inbound (inbounds_of p ?js)"
    using that by (cases "npTLSDomain p = ''''") (simp_all add: inbounds_of_def)
  then have "Build p cs = Build (p\<lparr>npTLSDomain := ''''\<rparr>) cs" if "\<not> list_ex is_tls_inbound (inbounds_of p ?js)"
    using that by (simp add: Build_def)
  then show ?thesis
    using m by (auto simp: stripTLSIfNoCert_def effective_def filter_tls_inbounds Build_def)
qed

lemma fold_add_client:
  "clients_ok (ds @ cs) \<Longrightarrow> fold add_client (map client_json cs) (client_book ds) = client_book (ds @ cs)"
proof (induction cs arbitrary: ds)
  case (Cons c cs)
  have "add_client (client_json c) (client_book ds) = client_book (ds @ [c])"
  proof -
    have "gomap_set (cEmail c) (cUUID c) (client_book ds) = client_book ds @ [(cEmail c, cUUID c)]"
      using Cons.prems by (induction ds) (auto simp: client_book_def clients_ok_def)
    with Cons.prems show ?thesis
      by (auto simp: add_client_def client_json_def field_defs clients_ok_def client_book_def)
  qed
  with Cons.IH [of "ds @ [c]"] Cons.prems show ?case by simp
qed simp

lemma client_set_Build: "clients_ok cs \<Longrightarrow> client_set (map client_json cs) = client_book cs"
  using fold_add_client [of "[]" cs] by (simp add: client_set_def client_book_def)

lemma parse_inbound_simps:
  "parse_inbound apiInbound = (apiInbound, None)"
  "parse_inbound (tlsInbound js) = (tlsInbound [], Some (tagTLS, client_set js))"
  "parse_inbound (realityInbound p js) = (realityInbound p [], Some (tagReality, client_set js))"
  by (simp_all add: parse_inbound_def apiInbound_def tlsInbound_def realityInbound_def field_defs Let_def)
    (simp add: tag_defs)

definition books :: "NodeParams \<Rightarrow> Client list \<Rightarrow> client_map" where
  "books p cs = (if npTLSDomain p \<noteq> '''' then [(tagTLS, client_book cs)] else [])
     @ (if hasReality p then [(tagReality, client_book cs)] else [])"

lemma clients_at_books [simp]: "clients_at (books p cs) tag = (if opens p tag then client_book cs else [])"
  by (auto simp: clients_at_def opens_def books_def)

lemma parse_Build:
  assumes "clients_ok cs"
  shows "parseClients (Some (Build p cs)) = Some (marshal (Build p []), books p cs)"
proof -
  let ?js = "map client_json cs"
  obtain m where m: "Build p cs = JObj m" "field_arr ''inbounds'' m = Some (inbounds_of p ?js)"
      "\<forall>ibs'. JObj (gomap_set ''inbounds'' (JArr ibs') m) = config_with ibs'"
    unfolding Build_def by (rule config_with_obj [of "inbounds_of p ?js"]) blast
  have ps: "map parse_inbound (inbounds_of p ?js) = map (\<lambda>ib. (ib, None)) [apiInbound]
      @ (if npTLSDomain p \<noteq> '''' then [(tlsInbound [], Some (tagTLS, client_book cs))] else [])
      @ (if hasReality p then [(realityInbound p [], Some (tagReality, client_book cs))] else [])"
    using client_set_Build [OF assms] by (simp add: inbounds_of_def parse_inbound_simps)
  have "map fst (map parse_inbound (inbounds_of p ?js)) = inbounds_of p []"
    unfolding ps by (simp add: inbounds_of_def)
  moreover have "fold (\<lambda>(t, s). gomap_set t s) (List.map_filter snd (map parse_inbound (inbounds_of p ?js))) [] = books p cs"
    unfolding ps by (simp add: List.map_filter_simps books_def)
  ultimately show ?thesis
    using m by (simp add: parseClients_def Build_def)
qed

lemma inbound_ids_simps:
  "inbound_ids tag email apiInbound = []"
  "inbound_ids tag email (tlsInbound (map client_json cs)) = (if tag = tagTLS then map cUUID (filter (\<lambda>c. cEmail c = email) cs) else [])"
  "inbound_ids tag email (realityInbound p (map client_json cs)) = (if tag = tagReality then map cUUID (filter (\<lambda>c. cEmail c = email) cs) else [])"
proof -
  have objs: "List.map_filter as_obj (map client_json cs) = map (\<lambda>c. the (as_obj (client_json c))) cs"
    by (induction cs) (simp_all add: client_json_def List.map_filter_simps)
  have "List.map_filter (field_str ''id'') (filter (\<lambda>c. map_of c ''email'' = Some (JStr email)) (map (\<lambda>c. the (as_obj (client_json c))) cs))
      = map cUUID (filter (\<lambda>c. cEmail c = email) cs)"
    by (induction cs) (simp_all add: client_json_def field_defs List.map_filter_simps)
  with objs show "inbound_ids tag email (tlsInbound (map client_json cs)) = (if tag = tagTLS then map cUUID (filter (\<lambda>c. cEmail c = email) cs) else [])"
    "inbound_ids tag email (realityInbound p (map client_json cs)) = (if tag = tagReality then map cUUID (filter (\<lambda>c. cEmail c = email) cs) else [])"
    by (simp_all add: inbound_ids_def tlsInbound_def realityInbound_def field_defs Let_def)
qed (simp add: inbound_ids_def apiInbound_def field_defs)

lemma listed_Build:
  "listed_ids (Build p cs) tag email = (if opens p tag then map cUUID (filter (\<lambda>c. cEmail c = email) cs) else [])"
proof -
  obtain m where m: "Build p cs = JObj m" "field_arr ''inbounds'' m = Some (inbounds_of p (map client_json cs))"
    unfolding Build_def by (rule config_with_obj [of "inbounds_of p (map client_json cs)"]) blast
  then show ?thesis
    by (auto simp: listed_ids_def inbounds_of_def inbound_ids_simps opens_def)
qed

lemma map_of_client_book:
  "clients_ok cs \<Longrightarrow> map_of (client_book cs) email = (case filter (\<lambda>c. cEmail c = email) cs of [] \<Rightarrow> None | c # _ \<Rightarrow> Some (cUUID c))"
  by (induction cs) (auto simp: client_book_def clients_ok_def)

lemma client_book_iff: "clients_ok cs \<Longrightarrow> map_of (client_book cs) email = Some u \<longleftrightarrow> \<lparr>cUUID = u, cEmail = email\<rparr> \<in> set cs"
proof -
  have "(email, u) \<in> set (client_book cs) \<longleftrightarrow> \<lparr>cUUID = u, cEmail = email\<rparr> \<in> set cs"
    by (induction cs) (auto simp: client_book_def intro: Client.equality)
  moreover assume "clients_ok cs"
  then have "gomap_wf (client_book cs)" by (simp add: client_book_def clients_ok_def o_def)
  ultimately show ?thesis by simp
qed

lemma clients_ok_single: "clients_ok cs \<Longrightarrow> length (filter (\<lambda>c. cEmail c = email) cs) \<le> 1"
proof (induction cs)
  case (Cons c cs)
  then show ?case by (cases "cEmail c = email") (auto simp: clients_ok_def filter_empty_conv image_iff)
qed simp

section \<open>A push\<close>

text \<open>The agent knows what the engine runs: a recorded baseline lists exactly its users.\<close>

definition described :: "('e \<Rightarrow> user_view) \<Rightarrow> 'e agent \<Rightarrow> bool" where
  "described runs a \<longleftrightarrow> lvSkeleton (agLive a) = ''''
     \<or> (\<forall>tag \<in> {tagTLS, tagReality}. gomap_wf (clients_at (lvClients (agLive a)) tag)
            \<and> runs (agEngine a) tag = map_of (clients_at (lvClients (agLive a)) tag))"

definition serving :: "('e \<Rightarrow> user_view) \<Rightarrow> NodeParams \<Rightarrow> Client list \<Rightarrow> 'e \<Rightarrow> bool" where
  "serving runs p cs e \<longleftrightarrow> (\<forall>tag \<in> {tagTLS, tagReality}. runs e tag = (if opens p tag then map_of (client_book cs) else Map.empty))"

lemma servingD:
  "serving runs p cs e \<Longrightarrow> clients_ok cs \<Longrightarrow> tag \<in> {tagTLS, tagReality} \<Longrightarrow>
   runs e tag email = Some u \<longleftrightarrow> opens p tag \<and> \<lparr>cUUID = u, cEmail = email\<rparr> \<in> set cs"
  by (auto simp: serving_def client_book_iff split: if_splits)

lemma liveSet_sel [simp]:
  "agEngine (liveSet wok skel cl sha a) = agEngine a" "agXrayFile (liveSet wok skel cl sha a) = agXrayFile a"
  "agRestarts (liveSet wok skel cl sha a) = agRestarts a" "agEdge (liveSet wok skel cl sha a) = agEdge a"
  "lvSkeleton (agLive (liveSet wok skel cl sha a)) = skel" "lvClients (agLive (liveSet wok skel cl sha a)) = cl"
  "lvSha (agLive (liveSet wok skel cl sha a)) = sha" "lvPath (agLive (liveSet wok skel cl sha a)) = lvPath (agLive a)"
  "agXrayPath (liveSet wok skel cl sha a) = agXrayPath a" "agLast (liveSet wok skel cl sha a) = agLast a"
  by (simp_all add: liveSet_def Let_def)

lemma liveApply_ok:
  assumes "engine_ok E runs" "described runs a" "liveApply E io skel cl sha a = (True, a')" "\<And>tag. gomap_wf (clients_at cl tag)"
  shows "\<exists>e. (\<forall>tag \<in> {tagTLS, tagReality}. runs e tag = map_of (clients_at cl tag))
     \<and> a' = liveSet (ioPersist io) skel cl sha (a\<lparr>agEngine := e\<rparr>)"
proof -
  obtain e where e: "sync_tags E (lvClients (agLive a)) cl [tagTLS, tagReality] (agEngine a) = (True, e)"
    and a': "a' = liveSet (ioPersist io) skel cl sha (a\<lparr>agEngine := e\<rparr>)" and sk: "lvSkeleton (agLive a) \<noteq> ''''"
    using assms(3) by (auto simp: liveApply_def simp del: sync_tags.simps split: if_splits prod.splits bool.splits)
  have "runs e tag = map_of (clients_at cl tag)" if "tag \<in> {tagTLS, tagReality}" for tag
    using assms(2) sk by (intro sync_tags_runs [OF assms(1) e assms(4) _ that]) (auto simp: described_def)
  with a' show ?thesis by blast
qed

lemma dockerRestart_ok:
  assumes "engine_ok E runs" "dockerRestart E a = (True, a')" "agXrayFile a = Some (Build p cs)" "clients_ok cs"
  shows "\<exists>e. serving runs p cs e \<and> a' = a\<lparr>agEngine := e, agRestarts := Suc (agRestarts a)\<rparr>"
proof -
  obtain e where e: "egRestart E (Some (Build p cs)) (agEngine a) = (True, e)"
    and a': "a' = a\<lparr>agEngine := e, agRestarts := Suc (agRestarts a)\<rparr>"
    using assms(2,3) by (auto simp: dockerRestart_def split: prod.splits)
  have "length (listed_ids (Build p cs) tag email) \<le> 1" for tag email
    using clients_ok_single [OF assms(4)] by (simp add: listed_Build)
  from engine_restartD [OF assms(1) e this] have "serving runs p cs e"
    by (auto simp: serving_def fun_eq_iff listed_Build map_of_client_book [OF assms(4)] split: list.splits)
  with a' show ?thesis by blast
qed

lemma client_book_wf: "clients_ok cs \<Longrightarrow> gomap_wf (client_book cs)"
  by (simp add: client_book_def clients_ok_def o_def)

lemma described_liveSet:
  "clients_ok cs \<Longrightarrow> serving runs p cs (agEngine a) \<Longrightarrow> described runs (liveSet wok skel (books p cs) sha a)"
  using client_book_wf [of cs] by (simp add: described_def serving_def)

lemma books_wf: "clients_ok cs \<Longrightarrow> gomap_wf (clients_at (books p cs) tag)"
  using client_book_wf [of cs] by simp

text \<open>The state when the file and nginx are written and the engine is about to be told, and the rest of \<open>applyConfig\<close>.\<close>

definition staged :: "agent_io \<Rightarrow> NodeParams \<Rightarrow> Client list \<Rightarrow> 'e agent \<Rightarrow> 'e agent" where
  "staged io p0 cs a =
     (let j = Build (effective (ioCert io) (agCertPath a) p0) cs
      in a\<lparr>agLast := Some (Build p0 cs), agXrayFile := Some j,
           agEdge := applyNginx (ioEdge io) (realitySNIFromConfig (Some j)) (agEdge a)\<rparr>)"

definition engine_part :: "'e engine_api \<Rightarrow> agent_io \<Rightarrow> NodeParams \<Rightarrow> Client list \<Rightarrow> 'e agent \<Rightarrow> bool \<times> 'e agent" where
  "engine_part E io p cs a =
     (let skel = marshal (Build p []); sha = bytesSHA (MarshalIndent (Build p cs))
      in case liveApply E io skel (books p cs) sha a of
           (True, a3) \<Rightarrow> (True, a3)
         | (False, a3) \<Rightarrow> (case dockerRestart E a3 of
              (False, a4) \<Rightarrow> (False, a4)
            | (True, a4) \<Rightarrow> (True, liveSet (ioPersist io) skel (books p cs) sha a4)))"

lemma applyConfig_Build_eq:
  assumes "clients_ok cs"
  shows "applyConfig E io (Some (Build p cs)) a =
     (if ioWrite io then engine_part E io (effective (ioCert io) (agCertPath a) p) cs (staged io p cs a)
      else (False, a\<lparr>agLast := Some (Build p cs)\<rparr>))"
  using parse_Build [OF assms]
  by (simp add: applyConfig_def writeConfig_def strip_Build engine_part_def staged_def Let_def split: prod.split bool.split)

lemma staged_sel [simp]:
  "agEngine (staged io p cs a) = agEngine a" "agLive (staged io p cs a) = agLive a" "agRestarts (staged io p cs a) = agRestarts a"
  "agXrayFile (staged io p cs a) = Some (Build (effective (ioCert io) (agCertPath a) p) cs)"
  by (simp_all add: staged_def Let_def)

lemma liveApply_keeps_file: "liveApply E io skel cl sha a = (r, a') \<Longrightarrow> agXrayFile a' = agXrayFile a"
  by (auto simp: liveApply_def simp del: sync_tags.simps split: if_splits prod.splits bool.splits)

lemma engine_part_ok:
  assumes E: "engine_ok E runs" and d: "described runs a" and cs: "clients_ok cs" and f: "agXrayFile a = Some (Build p cs)"
    and r: "engine_part E io p cs a = (True, a')"
  shows "\<exists>b. serving runs p cs (agEngine b) \<and> agXrayFile b = Some (Build p cs)
    \<and> a' = liveSet (ioPersist io) (marshal (Build p [])) (books p cs) (bytesSHA (MarshalIndent (Build p cs))) b"
proof -
  let ?skel = "marshal (Build p [])" and ?sha = "bytesSHA (MarshalIndent (Build p cs))"
  obtain fin a3 where la: "liveApply E io ?skel (books p cs) ?sha a = (fin, a3)" by fastforce
  show ?thesis
  proof (cases fin)
    case True
    with la r have "liveApply E io ?skel (books p cs) ?sha a = (True, a')" by (simp add: engine_part_def Let_def)
    from liveApply_ok [OF E d this books_wf [OF cs]]
    obtain e where e: "\<forall>tag \<in> {tagTLS, tagReality}. runs e tag = map_of (clients_at (books p cs) tag)"
        and a': "a' = liveSet (ioPersist io) ?skel (books p cs) ?sha (a\<lparr>agEngine := e\<rparr>)"
      by blast
    from e have "serving runs p cs e" by (simp add: serving_def)
    with a' f show ?thesis by (intro exI [of _ "a\<lparr>agEngine := e\<rparr>"]) simp
  next
    case False
    with la r obtain a4 where a4: "dockerRestart E a3 = (True, a4)" and a': "a' = liveSet (ioPersist io) ?skel (books p cs) ?sha a4"
      by (auto simp: engine_part_def Let_def split: prod.splits bool.splits)
    have f3: "agXrayFile a3 = Some (Build p cs)" using liveApply_keeps_file [OF la] f by simp
    from dockerRestart_ok [OF E a4 f3 cs] f3 a' show ?thesis by (intro exI [of _ a4]) auto
  qed
qed

lemma applyConfig_Build:
  assumes E: "engine_ok E runs" and d: "described runs a" and cs: "clients_ok cs"
    and r: "applyConfig E io (Some (Build p0 cs)) a = (True, a')" and p: "p = effective (ioCert io) (agCertPath a) p0"
  shows "serving runs p cs (agEngine a') \<and> described runs a' \<and> agXrayFile a' = Some (Build p cs)"
proof -
  have "engine_part E io p cs (staged io p0 cs a) = (True, a')"
    using r p by (simp add: applyConfig_Build_eq [OF cs] split: if_splits)
  from engine_part_ok [OF E _ cs _ this] d p obtain b where
    "serving runs p cs (agEngine b)" "agXrayFile b = Some (Build p cs)"
    "a' = liveSet (ioPersist io) (marshal (Build p [])) (books p cs) (bytesSHA (MarshalIndent (Build p cs))) b"
    by (auto simp: described_def)
  with described_liveSet [OF cs] show ?thesis by simp
qed

section \<open>Changing users without a restart\<close>

text \<open>An engine that is up accepts a new user on an inbound and the removal of one it has, and stays up.\<close>

definition engine_answers :: "'e engine_api \<Rightarrow> ('e \<Rightarrow> user_view) \<Rightarrow> ('e \<Rightarrow> bool) \<Rightarrow> bool" where
  "engine_answers E runs up \<longleftrightarrow>
     (\<forall>tag email uuid e. up e \<and> runs e tag email = None \<longrightarrow> (\<exists>e'. egAdd E tag email uuid e = (True, e') \<and> up e')) \<and>
     (\<forall>tag email e. up e \<and> runs e tag email \<noteq> None \<longrightarrow> (\<exists>e'. egRemove E tag email e = (True, e') \<and> up e'))"

lemma answers_add: "engine_answers E runs up \<Longrightarrow> up e \<Longrightarrow> runs e tag email = None \<Longrightarrow> \<exists>e'. egAdd E tag email uuid e = (True, e') \<and> up e'"
  unfolding engine_answers_def by blast

lemma answers_remove: "engine_answers E runs up \<Longrightarrow> up e \<Longrightarrow> runs e tag email \<noteq> None \<Longrightarrow> \<exists>e'. egRemove E tag email e = (True, e') \<and> up e'"
  unfolding engine_answers_def by blast

lemma add_users_answers:
  assumes E: "engine_ok E runs" and A: "engine_answers E runs up"
  shows "up e \<Longrightarrow> gomap_wf new \<Longrightarrow> (\<And>email. email \<in> fst ` set new \<Longrightarrow> runs e tag email = map_of old email) \<Longrightarrow>
    \<exists>e'. add_users E tag old new e = (True, e') \<and> up e'"
proof (induction new arbitrary: e)
  case (Cons eu new)
  obtain email uuid where eu: "eu = (email, uuid)" by (cases eu)
  show ?case
  proof (cases "map_of old email = Some uuid")
    case True
    with Cons eu show ?thesis by simp
  next
    case False
    have run: "runs e tag email = map_of old email" using Cons.prems(3) eu by simp
    obtain e1 where e1: "(if map_of old email \<noteq> None then egRemove E tag email e else (True, e)) = (True, e1)" "up e1"
        and r1: "runs e1 = (runs e)(tag := (runs e tag)(email := None))"
    proof (cases "map_of old email")
      case None
      with run have "runs e = (runs e)(tag := (runs e tag)(email := None))" by (simp add: fun_eq_iff)
      with None that Cons.prems(1) show ?thesis by simp
    next
      case (Some x)
      with answers_remove [OF A Cons.prems(1)] run obtain e1 where "egRemove E tag email e = (True, e1)" "up e1" by force
      with Some that engine_removeD [OF E] show ?thesis by simp
    qed
    have none: "runs e1 tag email = None" unfolding r1 by simp
    from answers_add [OF A e1(2) none] obtain e2 where e2: "egAdd E tag email uuid e1 = (True, e2)" "up e2" by blast
    have "runs e2 tag x = map_of old x" if "x \<in> fst ` set new" for x
    proof -
      have "x \<noteq> email" using that Cons.prems(2) eu by auto
      with engine_addD [OF E e2(1)] r1 Cons.prems(3) that show ?thesis by simp
    qed
    with Cons.IH [OF e2(2)] Cons.prems(2) obtain e' where "add_users E tag old new e2 = (True, e')" "up e'" by auto
    with e1(1) e2(1) False eu show ?thesis by simp
  qed
qed simp

lemma remove_users_answers:
  assumes E: "engine_ok E runs" and A: "engine_answers E runs up"
  shows "up e \<Longrightarrow> distinct old \<Longrightarrow> (\<And>x. x \<in> set old \<Longrightarrow> runs e tag x \<noteq> None) \<Longrightarrow>
    \<exists>e'. remove_users E tag new old e = (True, e') \<and> up e'"
proof (induction old arbitrary: e)
  case (Cons x old)
  show ?case
  proof (cases "map_of new x = None")
    case True
    have "runs e tag x \<noteq> None" using Cons.prems(3) by simp
    from answers_remove [OF A Cons.prems(1) this] obtain e1 where e1: "egRemove E tag x e = (True, e1)" "up e1" by blast
    have "runs e1 tag y \<noteq> None" if "y \<in> set old" for y
    proof -
      have "y \<noteq> x" using that Cons.prems(2) by auto
      with engine_removeD [OF E e1(1)] Cons.prems(3) [of y] that show ?thesis by simp
    qed
    with Cons.IH [OF e1(2)] Cons.prems(2) True e1(1) show ?thesis by auto
  next
    case False
    with Cons show ?thesis by auto
  qed
qed simp

lemma sync_tag_answers:
  assumes E: "engine_ok E runs" and A: "engine_answers E runs up" and up: "up e"
    and wf: "gomap_wf (clients_at new tag)" "gomap_wf (clients_at old tag)" and old: "runs e tag = map_of (clients_at old tag)"
  shows "\<exists>e'. sync_tag E old new tag e = (True, e') \<and> up e'"
proof -
  obtain e1 where e1: "add_users E tag (clients_at old tag) (clients_at new tag) e = (True, e1)" "up e1"
    using add_users_answers [OF E A up wf(1)] old by metis
  have "runs e1 = (runs e)(tag := runs e tag ++ map_of (clients_at new tag))"
    using add_users_runs [OF E e1(1) wf(1)] old by simp
  then have "runs e1 tag x \<noteq> None" if "x \<in> set (map fst (clients_at old tag))" for x
    using that old by (simp add: map_of_eq_None_iff)
  from remove_users_answers [OF E A e1(2) wf(2) this] e1(1) show ?thesis by (simp add: sync_tag_def)
qed

lemma sync_tags_answers:
  assumes E: "engine_ok E runs" and A: "engine_answers E runs up" and up: "up e" and new: "\<And>tag. gomap_wf (clients_at new tag)"
    and old: "\<And>tag. tag \<in> {tagTLS, tagReality} \<Longrightarrow> gomap_wf (clients_at old tag) \<and> runs e tag = map_of (clients_at old tag)"
  shows "\<exists>e'. sync_tags E old new [tagTLS, tagReality] e = (True, e') \<and> up e'"
proof -
  obtain e1 where e1: "sync_tag E old new tagTLS e = (True, e1)" "up e1"
    using sync_tag_answers [OF E A up new] old by blast
  have "runs e1 = (runs e)(tagTLS := map_of (clients_at new tagTLS))"
    using sync_tag_runs [OF E e1(1) new] old by simp
  then have "runs e1 tagReality = map_of (clients_at old tagReality)" using old by simp
  with sync_tag_answers [OF E A e1(2) new] old obtain e2 where "sync_tag E old new tagReality e1 = (True, e2)" "up e2" by blast
  with e1(1) show ?thesis by simp
qed

section \<open>An engine\<close>

text \<open>A concrete engine: how many more requests it answers (\<open>None\<close>: all), and the users it runs.\<close>

type_synonym toy = "nat option \<times> user_view"

definition spend :: "nat option \<Rightarrow> nat option" where
  "spend = map_option (\<lambda>k. k - 1)"

definition toy_engine :: "toy engine_api" where
  "toy_engine =
     \<lparr>egAdd = (\<lambda>tag email uuid (n, us). if n = Some 0 \<or> us tag email \<noteq> None then (False, (n, us))
                 else (True, (spend n, us(tag := (us tag)(email \<mapsto> uuid))))),
      egRemove = (\<lambda>tag email (n, us). if n = Some 0 \<or> us tag email = None then (False, (n, us))
                    else (True, (spend n, us(tag := (us tag)(email := None))))),
      egRestart = (\<lambda>f (n, us). case f of None \<Rightarrow> (False, (n, us))
                     | Some j \<Rightarrow> if n = Some 0 then (False, (n, us))
                         else (True, (spend n, (\<lambda>tag email. case listed_ids j tag email of [] \<Rightarrow> None | i # _ \<Rightarrow> Some i))))\<rparr>"

lemma toy_engine_ok: "engine_ok toy_engine snd"
  unfolding engine_ok_def by (auto simp: toy_engine_def split: if_splits)

lemma applied_engine:
  assumes "engine_ok E runs" "described runs a" "clients_ok cs" "applyConfig E io (Some (Build p cs)) a = (True, a')"
  shows "described runs a'" "agXrayFile a' = Some (Build (effective (ioCert io) (agCertPath a) p) cs)"
    and "tag \<in> {tagTLS, tagReality} \<Longrightarrow> runs (agEngine a') tag email = Some u
      \<longleftrightarrow> opens (effective (ioCert io) (agCertPath a) p) tag \<and> \<lparr>cUUID = u, cEmail = email\<rparr> \<in> set cs"
  using applyConfig_Build [OF assms refl] servingD [OF _ assms(3), of runs _ "agEngine a'" tag] by blast+

definition demo_params :: NodeParams where
  "demo_params = \<lparr>npRealityDest = ''d:443'', npRealityServerName = ''s.example'', npRealityPrivateKey = ''k'',
     npRealityShortID = '''', npTLSDomain = ''t.example''\<rparr>"

definition demo_clients :: "Client list" where
  "demo_clients = [\<lparr>cUUID = ''u1'', cEmail = ''alice''\<rparr>, \<lparr>cUUID = ''u2'', cEmail = ''bob''\<rparr>]"

definition demo_io :: agent_io where
  "demo_io = \<lparr>ioCert = False, ioWrite = True, ioPersist = True, ioDial = True,
     ioEdge = \<lparr>eMkdir = True, eWrite = True, eNginxRunning = True\<rparr>\<rparr>"

definition demo_agent :: "nat option \<Rightarrow> toy agent" where
  "demo_agent n = \<lparr>agXrayPath = ''config.json'', agCertPath = ''cert.pem'', agLive = newLiveState ''base.json'', agLast = None,
     agXrayFile = None, agBaseline = BMissing,
     agEdge = \<lparr>nginxPath = ''nginx.conf'', nginxFile = None, nginxRestarts = 0, acmePath = '''', acmeFile = None\<rparr>,
     agEngine = (n, \<lambda>_ _. None), agRestarts = 0\<rparr>"

lemma demo_clients_ok [simp]: "clients_ok demo_clients"
  by (simp add: clients_ok_def demo_clients_def)

lemma demo_described [simp]: "described runs (demo_agent n)"
  by (simp add: described_def demo_agent_def newLiveState_def)

text \<open>Without a baseline the configuration is applied by a restart.\<close>

lemma applyConfig_fresh:
  assumes "lvSkeleton (agLive a) = ''''" "ioWrite io" "clients_ok cs"
    and "fst (egRestart E (Some (Build (effective (ioCert io) (agCertPath a) p) cs)) (agEngine a))"
  shows "fst (applyConfig E io (Some (Build p cs)) a)"
  using assms
  by (auto simp: applyConfig_Build_eq engine_part_def liveApply_def dockerRestart_def Let_def split: prod.splits bool.splits)

lemma demo_fresh: "clients_ok cs \<Longrightarrow> fst (applyConfig toy_engine demo_io (Some (Build p cs)) (demo_agent (Some (Suc n))))"
  by (rule applyConfig_fresh) (simp_all add: demo_agent_def newLiveState_def demo_io_def toy_engine_def)



text \<open>C29: as long as the engine answers, a push that changes only users never restarts it: with a baseline
  that describes the engine and has the skeleton of the pushed configuration, \<open>applyConfig\<close> succeeds
  through the live update, the restart count stays and the users are exactly the pushed ones.\<close>

theorem user_change_without_restart:
  assumes E: "engine_ok E runs" and A: "engine_answers E runs up" and up: "up (agEngine a)"
    and d: "described runs a" and cs: "clients_ok cs" and io: "ioWrite io" "ioDial io"
    and sk: "lvSkeleton (agLive a) = marshal (Build (effective (ioCert io) (agCertPath a) p) [])"
  shows "\<exists>a'. applyConfig E io (Some (Build p cs)) a = (True, a') \<and> agRestarts a' = agRestarts a \<and> up (agEngine a')
     \<and> serving runs (effective (ioCert io) (agCertPath a) p) cs (agEngine a')"
proof -
  let ?p = "effective (ioCert io) (agCertPath a) p"
  have old: "gomap_wf (clients_at (lvClients (agLive a)) tag) \<and> runs (agEngine a) tag = map_of (clients_at (lvClients (agLive a)) tag)"
    if "tag \<in> {tagTLS, tagReality}" for tag
    using d sk that by (auto simp: described_def)
  obtain e where e: "sync_tags E (lvClients (agLive a)) (books ?p cs) [tagTLS, tagReality] (agEngine a) = (True, e)" "up e"
    using sync_tags_answers [OF E A up books_wf [OF cs] old] by blast
  obtain a' where a': "a' = liveSet (ioPersist io) (marshal (Build ?p [])) (books ?p cs) (bytesSHA (MarshalIndent (Build ?p cs)))
      ((staged io p cs a)\<lparr>agEngine := e\<rparr>)" by simp
  have r: "applyConfig E io (Some (Build p cs)) a = (True, a')"
    using e(1) io sk unfolding applyConfig_Build_eq [OF cs]
    by (simp add: a' engine_part_def liveApply_def Let_def del: sync_tags.simps)
  from applyConfig_Build [OF E d cs r refl] r e(2) show ?thesis by (auto simp: a')
qed

definition demo_running :: "toy agent" where
  "demo_running = (demo_agent None)\<lparr>
     agLive := \<lparr>lvPath = ''base.json'', lvSkeleton = marshal (Build (effective False ''cert.pem'' demo_params) []),
                lvClients = [(tagReality, [(''alice'', ''u0'')])], lvSha = ''x''\<rparr>,
     agEngine := (None, (\<lambda>_. Map.empty)(tagReality := [''alice'' \<mapsto> ''u0'']))\<rparr>"

lemma demo_running_described: "described snd demo_running"
  by (simp add: described_def demo_running_def clients_at_def)

lemma toy_answers: "engine_answers toy_engine snd (\<lambda>e. fst e = None)"
  by (auto simp: engine_answers_def toy_engine_def spend_def)

theorem user_change_without_restart_witness:
  "\<exists>a'. applyConfig toy_engine demo_io (Some (Build demo_params demo_clients)) demo_running = (True, a')
     \<and> agRestarts a' = 0 \<and> fst (agEngine a') = None \<and> serving snd (effective False ''cert.pem'' demo_params) demo_clients (agEngine a')"
  using user_change_without_restart [OF toy_engine_ok toy_answers _ demo_running_described demo_clients_ok, of demo_io demo_params]
  by (simp add: demo_running_def demo_agent_def demo_io_def)


end
