(* ===== verification/Pending.thy ===== *)
theory Pending
  imports Wire
begin

text \<open>
  The agent's traffic buffer, \<open>src/internal/agent/pending.go\<close>: collected deltas wait in \<open>Pend\<close>,
  are promoted to \<open>Flight\<close> under a new sequence number, and are resent under that number until the
  panel acknowledges it. Every operation saves the buffer; the file is part of the state, and
  whether a write succeeds is an input (\<open>wok\<close>), because a failed write is silently ignored.
\<close>

record pair =
  pUp :: int64
  pDown :: int64

type_synonym pmap = "(string, pair) gomap"

record pendingTraffic =
  ptPath :: string
  Seq :: int64
  Flight :: pmap
  FlightAt :: bool
  Pend :: pmap

text \<open>
  The buffer file: missing (or empty), not JSON, or the fields it holds, where a map may be
  \<open>null\<close> (\<open>None\<close>).
\<close>

datatype pending_file =
    PMissing
  | PInvalid
  | PData int64 "pmap option" bool "pmap option"

definition newPending :: "string \<Rightarrow> pendingTraffic" where
  "newPending path = \<lparr>ptPath = path, Seq = 0, Flight = [], FlightAt = False, Pend = []\<rparr>"

fun loadPending :: "string \<Rightarrow> pending_file \<Rightarrow> pendingTraffic" where
  "loadPending path (PData s f a q) =
     \<lparr>ptPath = path, Seq = s, Flight = or_zero f, FlightAt = a, Pend = or_zero q\<rparr>"
| "loadPending path _ = newPending path"

definition save :: "bool \<Rightarrow> pendingTraffic \<Rightarrow> pending_file \<Rightarrow> pending_file" where
  "save wok p d =
     (if ptPath p = '''' then d
      else if wok then PData (Seq p) (Some (Flight p)) (FlightAt p) (Some (Pend p))
      else d)"

definition mergeItem :: "TrafficItem \<Rightarrow> pmap \<Rightarrow> pmap" where
  "mergeItem it dst =
     (if tiUp it = 0 \<and> tiDown it = 0 then dst
      else
        let e = (case map_of dst (tiEmail it) of None \<Rightarrow> \<lparr>pUp = 0, pDown = 0\<rparr> | Some e \<Rightarrow> e)
        in gomap_set (tiEmail it)
             \<lparr>pUp = wrap64 (pUp e + tiUp it), pDown = wrap64 (pDown e + tiDown it)\<rparr> dst)"

fun mergeInto :: "pmap \<Rightarrow> TrafficItem list \<Rightarrow> pmap" where
  "mergeInto dst [] = dst"
| "mergeInto dst (it # items) = mergeInto (mergeItem it dst) items"

type_synonym pending_state = "pendingTraffic \<times> pending_file"

fun collect :: "bool \<Rightarrow> TrafficItem list \<Rightarrow> pending_state \<Rightarrow> pending_state" where
  "collect wok items (p, d) =
     (if items = [] then (p, d)
      else let p' = p\<lparr>Pend := mergeInto (Pend p) items\<rparr> in (p', save wok p' d))"

definition flight_items :: "pmap \<Rightarrow> TrafficItem list" where
  "flight_items f = map (\<lambda>(email, v). \<lparr>tiEmail = email, tiUp = pUp v, tiDown = pDown v\<rparr>) f"

fun batch :: "bool \<Rightarrow> pending_state \<Rightarrow> (int64 \<times> TrafficItem list \<times> bool) \<times> pending_state" where
  "batch wok (p, d) =
     (if \<not> FlightAt p \<and> Pend p = [] then ((0, [], False), (p, d))
      else
        let (p', d') =
          (if \<not> FlightAt p
           then let q = p\<lparr>Seq := wrap64 (Seq p + 1), Flight := Pend p, Pend := [], FlightAt := True\<rparr>
                in (q, save wok q d)
           else (p, d));
          items = flight_items (Flight p')
        in ((Seq p', items, items \<noteq> []), (p', d')))"

fun ack :: "bool \<Rightarrow> int64 \<Rightarrow> pending_state \<Rightarrow> pending_state" where
  "ack wok seq (p, d) =
     (if FlightAt p \<and> seq = Seq p
      then let p' = p\<lparr>Flight := [], FlightAt := False\<rparr> in (p', save wok p' d)
      else (p, d))"

section \<open>Well-formedness\<close>

text \<open>
  The maps have distinct keys, nothing is in flight without the flag, a batch in flight is not
  empty, and both hold \<open>int64\<close> values.
\<close>

definition pmap_ok :: "pmap \<Rightarrow> bool" where
  "pmap_ok m \<longleftrightarrow> gomap_wf m \<and> (\<forall>v \<in> snd ` set m. in_int64 (pUp v) \<and> in_int64 (pDown v))"

definition pending_ok :: "pendingTraffic \<Rightarrow> bool" where
  "pending_ok p \<longleftrightarrow> pmap_ok (Flight p) \<and> pmap_ok (Pend p) \<and> (FlightAt p \<longleftrightarrow> Flight p \<noteq> [])"

lemma pmap_ok_Nil [simp]: "pmap_ok []"
  by (simp add: pmap_ok_def)

lemma snd_set_gomap_set: "v \<in> snd ` set (gomap_set k w m) \<Longrightarrow> v = w \<or> v \<in> snd ` set m"
proof (induction m)
  case (Cons e m)
  then show ?case by (cases e) (auto split: if_splits)
qed simp

lemma pmap_ok_mergeItem [simp]: "pmap_ok m \<Longrightarrow> pmap_ok (mergeItem it m)"
  unfolding pmap_ok_def mergeItem_def Let_def
  by (auto dest!: snd_set_gomap_set [OF imageI] simp: image_iff)

lemma pmap_ok_mergeInto [simp]: "pmap_ok m \<Longrightarrow> pmap_ok (mergeInto m items)"
  by (induction items arbitrary: m) auto

lemma collect_ok [simp]: "pending_ok (fst s) \<Longrightarrow> pending_ok (fst (collect wok items s))"
  by (cases s) (auto simp: pending_ok_def Let_def)

lemma batch_ok [simp]: "pending_ok (fst s) \<Longrightarrow> pending_ok (fst (snd (batch wok s)))"
  by (cases s) (auto simp: pending_ok_def Let_def)

lemma ack_ok [simp]: "pending_ok (fst s) \<Longrightarrow> pending_ok (fst (ack wok q s))"
  by (cases s) (auto simp: pending_ok_def Let_def)

lemma newPending_ok [simp]: "pending_ok (newPending path)"
  by (simp add: pending_ok_def newPending_def)

section \<open>What a map holds for an e-mail\<close>

definition pm_up :: "pmap \<Rightarrow> string \<Rightarrow> int" where
  "pm_up m e = (case map_of m e of None \<Rightarrow> 0 | Some v \<Rightarrow> pUp v)"

definition pm_down :: "pmap \<Rightarrow> string \<Rightarrow> int" where
  "pm_down m e = (case map_of m e of None \<Rightarrow> 0 | Some v \<Rightarrow> pDown v)"

lemma pm_Nil [simp]: "pm_up [] e = 0" "pm_down [] e = 0"
  by (simp_all add: pm_up_def pm_down_def)

lemma pm_mergeItem [wrap_simps]:
  "wrap64 (pm_up (mergeItem it m) e) = wrap64 (pm_up m e + (if tiEmail it = e then tiUp it else 0))"
  "wrap64 (pm_down (mergeItem it m) e) = wrap64 (pm_down m e + (if tiEmail it = e then tiDown it else 0))"
  by (auto simp: pm_up_def pm_down_def mergeItem_def Let_def split: option.splits)

lemma pm_mergeInto:
  "wrap64 (pm_up (mergeInto m items) e) = wrap64 (pm_up m e + email_up e items)"
  "wrap64 (pm_down (mergeInto m items) e) = wrap64 (pm_down m e + email_down e items)"
proof (induction items arbitrary: m)
  case (Cons it items)
  { case 1
    have "wrap64 (pm_up (mergeInto m (it # items)) e)
        = wrap64 (wrap64 (pm_up (mergeItem it m) e) + email_up e items)"
      by (simp add: Cons.IH wrap64_add_left)
    also have "\<dots> = wrap64 (pm_up m e + email_up e (it # items))"
      by (simp only: pm_mergeItem wrap64_add_left) (simp add: add.assoc)
    finally show ?case .
  next
    case 2
    have "wrap64 (pm_down (mergeInto m (it # items)) e)
        = wrap64 (wrap64 (pm_down (mergeItem it m) e) + email_down e items)"
      by (simp add: Cons.IH wrap64_add_left)
    also have "\<dots> = wrap64 (pm_down m e + email_down e (it # items))"
      by (simp only: pm_mergeItem wrap64_add_left) (simp add: add.assoc)
    finally show ?case . }
qed simp_all

lemma email_flight_items [simp]:
  assumes "gomap_wf f"
  shows "email_up e (flight_items f) = pm_up f e" "email_down e (flight_items f) = pm_down f e"
  using sum_for_key [OF assms, of e "\<lambda>x. pUp (snd x)"] sum_for_key [OF assms, of e "\<lambda>x. pDown (snd x)"]
  by (simp_all add: email_up_def email_down_def pm_up_def pm_down_def flight_items_def
        sum_for_map case_prod_beta split: option.splits)

section \<open>Durability\<close>

text \<open>
  With a path and successful writes the file always holds the buffer, so loading it after a crash
  gives the state back. \<open>synced\<close> is kept by every operation.
\<close>

definition synced :: "pending_state \<Rightarrow> bool" where
  "synced s \<longleftrightarrow> loadPending (ptPath (fst s)) (snd s) = fst s"

lemma loadPending_save [simp]:
  "ptPath p \<noteq> '''' \<Longrightarrow> loadPending (ptPath p) (save True p d) = p"
  by (simp add: save_def)

lemma ptPath_ops [simp]:
  "ptPath (fst (collect wok items s)) = ptPath (fst s)"
  "ptPath (fst (snd (batch wok s))) = ptPath (fst s)"
  "ptPath (fst (ack wok q s)) = ptPath (fst s)"
  by (cases s; simp add: Let_def)+

lemma synced_collect: "ptPath (fst s) \<noteq> '''' \<Longrightarrow> synced s \<Longrightarrow> synced (collect True items s)"
  by (cases s) (auto simp: synced_def Let_def save_def)

lemma synced_batch: "ptPath (fst s) \<noteq> '''' \<Longrightarrow> synced s \<Longrightarrow> synced (snd (batch True s))"
  by (cases s) (auto simp: synced_def Let_def save_def)

lemma synced_ack: "ptPath (fst s) \<noteq> '''' \<Longrightarrow> synced s \<Longrightarrow> synced (ack True q s)"
  by (cases s) (auto simp: synced_def Let_def save_def)

lemmas synced_ops = synced_collect synced_batch synced_ack

end
