(* ===== verification/Stats.thy ===== *)
theory Stats
  imports Wire Go_Strings
begin

text \<open>
  Folding the engine's counters into a traffic report, \<open>src/internal/agent/stats.go\<close>. A counter is a name and a
  value; \<open>collectTraffic\<close> asks the engine for all counters and resets them, \<open>None\<close> is a failed query.
\<close>

record acc =
  acUp :: int64
  acDown :: int64

type_synonym stat = "string \<times> int64"

definition stat_sep :: string where
  "stat_sep = ''>>>''"

text \<open>The entry is created before the direction is looked at.\<close>

definition add_stat :: "stat \<Rightarrow> (string, acc) gomap \<Rightarrow> (string, acc) gomap" where
  "add_stat s byEmail =
     (case Split (fst s) stat_sep of
        [p0, p1, p2, p3] \<Rightarrow>
          if p0 \<noteq> ''user'' \<or> p2 \<noteq> ''traffic'' then byEmail
          else
            let v = snd s
            in if v = 0 then byEmail
               else
                 let a = (case map_of byEmail p1 of None \<Rightarrow> \<lparr>acUp = 0, acDown = 0\<rparr> | Some a \<Rightarrow> a);
                     a' = (if p3 = ''uplink'' then a\<lparr>acUp := wrap64 (acUp a + v)\<rparr>
                           else if p3 = ''downlink'' then a\<lparr>acDown := wrap64 (acDown a + v)\<rparr> else a)
                 in gomap_set p1 a' byEmail
      | _ \<Rightarrow> byEmail)"

definition statsToItems :: "stat list \<Rightarrow> TrafficItem list" where
  "statsToItems stats = map (\<lambda>(e, a). \<lparr>tiEmail = e, tiUp = acUp a, tiDown = acDown a\<rparr>) (fold add_stat stats [])"

definition collectTraffic :: "stat list option \<Rightarrow> TrafficItem list" where
  "collectTraffic resp = (case resp of None \<Rightarrow> [] | Some stats \<Rightarrow> statsToItems stats)"

section \<open>Nothing is lost or misattributed\<close>

text \<open>The bytes the counters hold for an e-mail in a direction, by their names.\<close>

definition counter :: "string \<Rightarrow> string \<Rightarrow> string" where
  "counter e dir = Join [''user'', e, ''traffic'', dir] stat_sep"

definition counted :: "string \<Rightarrow> string \<Rightarrow> stat list \<Rightarrow> int" where
  "counted e dir stats = sum_for (\<lambda>s. fst s = counter e dir) snd stats"

definition held :: "(acc \<Rightarrow> int) \<Rightarrow> (string, acc) gomap \<Rightarrow> string \<Rightarrow> int" where
  "held f m e = (case map_of m e of None \<Rightarrow> 0 | Some a \<Rightarrow> f a)"

lemma Split_counter:
  assumes "CHR ''>'' \<notin> set e" "CHR ''>'' \<notin> set d"
  shows "Split (counter e d) stat_sep = [''user'', e, ''traffic'', d]"
  unfolding counter_def stat_sep_def using assms by (intro Split_Join) auto

lemma Split_eq_counter: "Split n stat_sep = [''user'', e, ''traffic'', d] \<Longrightarrow> n = counter e d"
  unfolding counter_def using Join_Split [of stat_sep n] by (simp add: stat_sep_def)

lemma add_stat_wf: "gomap_wf m \<Longrightarrow> gomap_wf (add_stat s m)"
  by (auto simp: add_stat_def Let_def split: list.splits)

lemma fold_add_stat_wf: "gomap_wf m \<Longrightarrow> gomap_wf (fold add_stat stats m)"
  by (induction stats arbitrary: m) (auto intro: add_stat_wf)

lemma add_stat_hit:
  "Split (fst s) stat_sep = [''user'', p1, ''traffic'', p3] \<Longrightarrow>
   add_stat s m = (if snd s = 0 then m else gomap_set p1
     (let a = (case map_of m p1 of None \<Rightarrow> \<lparr>acUp = 0, acDown = 0\<rparr> | Some a \<Rightarrow> a)
      in if p3 = ''uplink'' then a\<lparr>acUp := wrap64 (acUp a + snd s)\<rparr>
         else if p3 = ''downlink'' then a\<lparr>acDown := wrap64 (acDown a + snd s)\<rparr> else a) m)"
  by (simp add: add_stat_def Let_def)

lemma add_stat_miss:
  assumes "\<And>p1 p3. Split (fst s) stat_sep \<noteq> [''user'', p1, ''traffic'', p3]"
  shows "add_stat s m = m"
  unfolding add_stat_def using assms by (simp split: list.split)

lemma held_add_stat:
  assumes "CHR ''>'' \<notin> set e"
  shows "wrap64 (held acUp (add_stat s m) e) = wrap64 (held acUp m e + (if fst s = counter e ''uplink'' then snd s else 0))"
    and "wrap64 (held acDown (add_stat s m) e) = wrap64 (held acDown m e + (if fst s = counter e ''downlink'' then snd s else 0))"
proof -
  have iff: "fst s = counter e d \<longleftrightarrow> Split (fst s) stat_sep = [''user'', e, ''traffic'', d]" if "CHR ''>'' \<notin> set d" for d
    using Split_counter [OF assms that] Split_eq_counter [of "fst s" e d] by auto
  have up: "CHR ''>'' \<notin> set ''uplink''" and down: "CHR ''>'' \<notin> set ''downlink''" by simp_all
  have "wrap64 (held acUp (add_stat s m) e) = wrap64 (held acUp m e + (if fst s = counter e ''uplink'' then snd s else 0))
     \<and> wrap64 (held acDown (add_stat s m) e) = wrap64 (held acDown m e + (if fst s = counter e ''downlink'' then snd s else 0))"
  proof (cases "\<exists>p1 p3. Split (fst s) stat_sep = [''user'', p1, ''traffic'', p3]")
    case True
    then obtain p1 p3 where p: "Split (fst s) stat_sep = [''user'', p1, ''traffic'', p3]" by blast
    have "fst s = counter e ''uplink'' \<longleftrightarrow> p1 = e \<and> p3 = ''uplink''" "fst s = counter e ''downlink'' \<longleftrightarrow> p1 = e \<and> p3 = ''downlink''"
      unfolding iff [OF up] iff [OF down] p list.inject by blast+
    then show ?thesis
      unfolding add_stat_hit [OF p] by (simp add: held_def Let_def split: option.split)
  next
    case False
    then have "\<not> fst s = counter e ''uplink''" "\<not> fst s = counter e ''downlink''"
      unfolding iff [OF up] iff [OF down] by blast+
    moreover have "add_stat s m = m" using False by (intro add_stat_miss) blast
    ultimately show ?thesis by (simp only: if_False add_0_right simp_thms)
  qed
  then show "wrap64 (held acUp (add_stat s m) e) = wrap64 (held acUp m e + (if fst s = counter e ''uplink'' then snd s else 0))"
    and "wrap64 (held acDown (add_stat s m) e) = wrap64 (held acDown m e + (if fst s = counter e ''downlink'' then snd s else 0))"
    by (rule conjunct1, rule conjunct2)
qed

lemma counted_Cons: "counted e d (s # stats) = (if fst s = counter e d then snd s else 0) + counted e d stats"
  by (simp add: counted_def)

lemma held_fold:
  assumes "CHR ''>'' \<notin> set e"
  shows "wrap64 (held acUp (fold add_stat stats m) e) = wrap64 (held acUp m e + counted e ''uplink'' stats)"
    and "wrap64 (held acDown (fold add_stat stats m) e) = wrap64 (held acDown m e + counted e ''downlink'' stats)"
proof (induction stats arbitrary: m)
  case (Cons s stats)
  { case 1
    have "wrap64 (held acUp (fold add_stat (s # stats) m) e) = wrap64 (wrap64 (held acUp (add_stat s m) e) + counted e ''uplink'' stats)"
      by (simp add: Cons.IH(1) wrap64_add_left)
    then show ?case unfolding held_add_stat(1) [OF assms] wrap64_add_left counted_Cons by (simp only: add.assoc)
  next
    case 2
    have "wrap64 (held acDown (fold add_stat (s # stats) m) e) = wrap64 (wrap64 (held acDown (add_stat s m) e) + counted e ''downlink'' stats)"
      by (simp add: Cons.IH(2) wrap64_add_left)
    then show ?case unfolding held_add_stat(2) [OF assms] wrap64_add_left counted_Cons by (simp only: add.assoc) }
qed (simp_all add: counted_def)

text \<open>C31: a traffic report holds, for every user, exactly the bytes of that user's uplink and downlink
  counters (up to 64-bit wrap-around): counters of other shapes, other users or other directions
  contribute nothing, and each e-mail is reported at most once.\<close>

theorem traffic_report_is_counters:
  assumes "CHR ''>'' \<notin> set e"
  shows "wrap64 (email_up e (statsToItems stats)) = wrap64 (counted e ''uplink'' stats)
     \<and> wrap64 (email_down e (statsToItems stats)) = wrap64 (counted e ''downlink'' stats)
     \<and> distinct (map tiEmail (statsToItems stats))"
proof -
  let ?m = "fold add_stat stats []"
  have wf: "gomap_wf ?m" by (rule fold_add_stat_wf) simp
  have "email_up e (statsToItems stats) = held acUp ?m e" "email_down e (statsToItems stats) = held acDown ?m e"
    using sum_for_key [OF wf, of e "\<lambda>x. acUp (snd x)"] sum_for_key [OF wf, of e "\<lambda>x. acDown (snd x)"]
    by (simp_all add: email_up_def email_down_def statsToItems_def held_def sum_for_map case_prod_beta split: option.splits)
  moreover have "map tiEmail (statsToItems stats) = map fst ?m"
    by (simp add: statsToItems_def case_prod_beta)
  ultimately show ?thesis
    using held_fold [OF assms, of stats "[]"] wf by (simp add: held_def)
qed

theorem traffic_report_is_counters_witness:
  "wrap64 (email_up ''al'' (statsToItems [(counter ''al'' ''uplink'', 7), (''inbound>>>al>>>traffic>>>uplink'', 9)])) = 7"
  using traffic_report_is_counters [of "''al''" "[(counter ''al'' ''uplink'', 7), (''inbound>>>al>>>traffic>>>uplink'', 9)]"]
  by (simp add: counted_def counter_def stat_sep_def wrap64_def)

end
