(* ===== verification/Devices.thy ===== *)
theory Devices
  imports Wire Calendar
begin

text \<open>
  The access-log watcher, \<open>src/internal/agent/devices.go\<close>: the read position, the scanner and the expression
  that finds a client in a line, and the per-device report. The log is an inode and its bytes; the zone of
  the host is a parameter that maps a wall-clock reading (seconds, read as UTC) to Unix time.
\<close>

section \<open>The expression\<close>

text \<open>
  \<open>accessRe\<close>, by backtracking in RE2's order of preference: the first start position that matches, and at each
  choice the greedy (for \<open>.+?\<close> the lazy) alternative first. A result is what a group captured and the rest.
\<close>

definition plus :: "(char \<Rightarrow> bool) \<Rightarrow> string \<Rightarrow> (string \<times> string) list" where
  "plus p s = map (\<lambda>i. (take i s, drop i s)) (rev [1..<Suc (length (takeWhile p s))])"

definition star :: "(char \<Rightarrow> bool) \<Rightarrow> string \<Rightarrow> (string \<times> string) list" where
  "star p s = plus p s @ [('''', s)]"

definition lit :: "string \<Rightarrow> string \<Rightarrow> string list" where
  "lit t s = (if prefix t s then [drop (length t) s] else [])"

definition is_hex :: "char \<Rightarrow> bool" where
  "is_hex c \<longleftrightarrow> is_dec c \<or> (97::nat) \<le> of_char c \<and> of_char c \<le> (102::nat) \<or> (65::nat) \<le> of_char c \<and> of_char c \<le> (70::nat)"

definition re_space :: "char \<Rightarrow> bool" where
  "re_space c \<longleftrightarrow> c \<in> {CHR 0x09, CHR 0x0A, CHR 0x0C, CHR 0x0D, CHR 0x20}"

definition re_ip :: "string \<Rightarrow> (string \<times> string) list" where
  "re_ip s =
     concat (map (\<lambda>s1. concat (map (\<lambda>(h, s2). map (\<lambda>s3. (''['' @ h @ '']'', s3)) (lit '']'' s2))
                        (plus (\<lambda>c. is_hex c \<or> c = CHR '':'') s1))) (lit ''['' s))
     @ plus (\<lambda>c. is_dec c \<or> c = CHR ''.'') s"

definition re_email :: "string \<Rightarrow> string list" where
  "re_email s =
     map (\<lambda>i. take i s)
       (filter (\<lambda>i. CHR 0x0A \<notin> set (take i s) \<and> list_all re_space (drop i s)) [1..<Suc (length s)])"

definition match_at :: "string \<Rightarrow> (string \<times> string \<times> string) list" where
  "match_at s =
     [(ip, tag, email).
        s1 \<leftarrow> lit ''from '' s, (ip, s2) \<leftarrow> re_ip s1, s3 \<leftarrow> lit '':'' s2, (_, s4) \<leftarrow> plus is_dec s3,
        s5 \<leftarrow> lit '' accepted '' s4, (_, s6) \<leftarrow> plus (\<lambda>c. c \<noteq> CHR '' '') s5, s7 \<leftarrow> lit '' ['' s6,
        (tag, s8) \<leftarrow> plus (\<lambda>c. c \<noteq> CHR '']'' \<and> c \<noteq> CHR '' '') s7, (_, s9) \<leftarrow> star (\<lambda>c. c \<noteq> CHR '']'') s8,
        s10 \<leftarrow> lit ''] email: '' s9, email \<leftarrow> re_email s10]"

fun FindStringSubmatch :: "string \<Rightarrow> (string \<times> string \<times> string) option" where
  "FindStringSubmatch s =
     (case match_at s of
        m # _ \<Rightarrow> Some m
      | [] \<Rightarrow> (case s of [] \<Rightarrow> None | _ # s' \<Rightarrow> FindStringSubmatch s'))"

section \<open>Lines\<close>

text \<open>\<open>bufio.Scanner\<close> with \<open>ScanLines\<close> and a buffer of at most \<open>cap\<close> bytes: a line is what precedes a newline or
  the end of the data, without a trailing carriage return; a line that does not fit ends the scan.\<close>

definition dropCR :: "string \<Rightarrow> string" where
  "dropCR l = (if l \<noteq> [] \<and> last l = CHR 0x0D then butlast l else l)"

function scan_lines :: "nat \<Rightarrow> string \<Rightarrow> string list" where
  "scan_lines cap s =
     (if s = [] then []
      else
        let l = takeWhile (\<lambda>c. c \<noteq> CHR 0x0A) s; rest = dropWhile (\<lambda>c. c \<noteq> CHR 0x0A) s
        in if length l \<ge> cap then []
           else dropCR l # (case rest of [] \<Rightarrow> [] | _ # r \<Rightarrow> scan_lines cap r))"
  by pat_completeness auto
termination
proof (relation "measure (\<lambda>(cap, s). length s)", goal_cases)
  case (2 cap s l rest c r)
  have "length (c # r) \<le> length s" using 2(3,5) length_dropWhile_le [of "\<lambda>c. c \<noteq> CHR 0x0A" s] by simp
  then show ?case by simp
qed simp

declare scan_lines.simps [simp del]

definition scanLimit :: nat where
  "scanLimit = 1024 * 1024"

definition two_digits :: "string \<Rightarrow> int option" where
  "two_digits s = (if length s = 2 \<and> list_all is_dec s then Some (int (dec_value s)) else None)"

text \<open>\<open>time.ParseInLocation("2006/01/02 15:04:05", s, time.Local)\<close> on 19 bytes, as wall-clock seconds. The
  hour may be one digit after a second space, which still fills the 19 bytes.\<close>

definition parse_time :: "string \<Rightarrow> int option" where
  "parse_time s =
     (let ys = take 4 s; hs = (if s ! 11 = CHR '' '' then [CHR ''0'', s ! 12] else [s ! 11, s ! 12])
      in if list_all is_dec ys \<and> s ! 4 = CHR ''/'' \<and> s ! 7 = CHR ''/'' \<and> s ! 10 = CHR '' '' \<and> s ! 13 = CHR '':'' \<and> s ! 16 = CHR '':''
         then
           (case (two_digits [s ! 5, s ! 6], two_digits [s ! 8, s ! 9], two_digits hs,
                  two_digits [s ! 14, s ! 15], two_digits [s ! 17, s ! 18]) of
              (Some mo, Some d, Some h, Some mi, Some sec) \<Rightarrow>
                let y = int (dec_value ys)
                in if 1 \<le> mo \<and> mo \<le> 12 \<and> 1 \<le> d \<and> d \<le> days_in_month y mo \<and> h < 24 \<and> mi < 60 \<and> sec < 60
                   then Some (86400 * date_days y mo d + 3600 * h + 60 * mi + sec) else None
            | _ \<Rightarrow> None)
         else None)"

definition lineTime :: "(int \<Rightarrow> int64) \<Rightarrow> string \<Rightarrow> int64 \<Rightarrow> int64" where
  "lineTime zone line now =
     (if length line < 19 then now
      else (case parse_time (take 19 line) of
              None \<Rightarrow> now
            | Some t \<Rightarrow> if zone t \<le> now then zone t else now))"

definition inboundKind :: "string \<Rightarrow> string" where
  "inboundKind tag =
     (if Contains tag ''reality'' then ''reality'' else if Contains tag ''tls'' then ''tls'' else tag)"

section \<open>The watcher\<close>

record accessWatcher =
  awPath :: string
  awState :: string
  awOffset :: int64
  awInode :: int
  awSeeded :: bool

record accessOffset =
  aoOffset :: int64
  aoInode :: int

text \<open>\<open>None\<close>: the state file is missing or not JSON.\<close>

definition newAccessWatcher :: "string \<Rightarrow> string \<Rightarrow> accessOffset option \<Rightarrow> accessWatcher" where
  "newAccessWatcher path state f =
     (let w = \<lparr>awPath = path, awState = state, awOffset = 0, awInode = 0, awSeeded = False\<rparr>
      in if state = '''' then w
         else (case f of None \<Rightarrow> w
               | Some o' \<Rightarrow> w\<lparr>awOffset := aoOffset o', awInode := aoInode o', awSeeded := True\<rparr>))"

definition saveOffset :: "bool \<Rightarrow> accessWatcher \<Rightarrow> accessOffset option \<Rightarrow> accessOffset option" where
  "saveOffset wok w f =
     (if awState w = '''' then f else if wok then Some \<lparr>aoOffset = awOffset w, aoInode = awInode w\<rparr> else f)"

definition TrimBrackets :: "string \<Rightarrow> string" where
  "TrimBrackets s = rev (dropWhile (\<lambda>c. c \<in> set ''[]'') (rev (dropWhile (\<lambda>c. c \<in> set ''[]'') s)))"

type_synonym device_agg = "(string \<times> string, DeviceItem) gomap"

definition add_line :: "(int \<Rightarrow> int64) \<Rightarrow> int64 \<Rightarrow> string \<Rightarrow> device_agg \<Rightarrow> device_agg" where
  "add_line zone now line agg =
     (case FindStringSubmatch line of
        None \<Rightarrow> agg
      | Some (m1, m2, m3) \<Rightarrow>
          let ip = TrimBrackets m1; kind = inboundKind m2; email = TrimSpace m3
          in if email = '''' \<or> email = ''unknown'' then agg
             else
               let d = (case map_of agg (email, ip) of
                          None \<Rightarrow> \<lparr>diEmail = email, diIP = ip, diInbound = kind, diConns = 0, diLastSeen = 0\<rparr>
                        | Some d \<Rightarrow> d);
                   ts = lineTime zone line now;
                   d1 = d\<lparr>diConns := diConns d + 1, diInbound := kind\<rparr>
               in gomap_set (email, ip) (if ts > diLastSeen d1 then d1\<lparr>diLastSeen := ts\<rparr> else d1) agg)"

definition report :: "(int \<Rightarrow> int64) \<Rightarrow> int64 \<Rightarrow> string list \<Rightarrow> DeviceItem list" where
  "report zone now lines = map snd (fold (add_line zone now) lines [])"

definition bytes_read :: "string list \<Rightarrow> int64" where
  "bytes_read lines = sum_list (map (\<lambda>l. int (length l) + 1) lines)"

text \<open>\<open>file\<close> is the log as \<open>Stat\<close> finds it (\<open>None\<close>: an error), \<open>rok\<close> whether it can be opened and read.\<close>

type_synonym watch_state = "accessWatcher \<times> accessOffset option"

definition collectDevices :: "(int \<Rightarrow> int64) \<Rightarrow> int64 \<Rightarrow> bool \<Rightarrow> bool \<Rightarrow> (int \<times> string) option \<Rightarrow> watch_state \<Rightarrow> DeviceItem list \<times> watch_state" where
  "collectDevices zone now wok rok file = (\<lambda>(w, st).
     if awPath w = '''' then ([], (w, st))
     else
       (case file of
          None \<Rightarrow> ([], (w, st))
        | Some (ino, content) \<Rightarrow>
            let size = int (length content)
            in if \<not> awSeeded w then
                 let w' = w\<lparr>awOffset := size, awInode := ino, awSeeded := True\<rparr> in ([], (w', saveOffset wok w' st))
               else
                 let w1 = (if ino \<noteq> awInode w then w\<lparr>awOffset := 0, awInode := ino\<rparr> else w);
                     w2 = (if size < awOffset w1 then w1\<lparr>awOffset := 0\<rparr> else w1)
                 in if size = awOffset w2 then ([], (w2, st))
                    else if \<not> rok \<or> awOffset w2 < 0 then ([], (w2, st))
                    else
                      let lines = scan_lines scanLimit (drop (nat (awOffset w2)) content);
                          w3 = w2\<lparr>awOffset := awOffset w2 + bytes_read lines\<rparr>
                      in (report zone now lines, (w3, saveOffset wok w3 st))))"

section \<open>Every line is read once\<close>

definition log_of :: "string list \<Rightarrow> string" where
  "log_of ls = concat (map (\<lambda>l. l @ [CHR 0x0A]) ls)"

text \<open>A line as the engine writes it: no newline, no carriage return at its end, within the scanner's buffer.\<close>

definition log_line :: "nat \<Rightarrow> string \<Rightarrow> bool" where
  "log_line cap l \<longleftrightarrow> CHR 0x0A \<notin> set l \<and> dropCR l = l \<and> length l < cap"

lemma log_of_simps [simp]: "log_of [] = []" "log_of (l # ls) = l @ CHR 0x0A # log_of ls" "log_of (ls @ ms) = log_of ls @ log_of ms"
  by (simp_all add: log_of_def)

lemma span_sep:
  "c \<notin> set l \<Longrightarrow> takeWhile (\<lambda>x. x \<noteq> c) (l @ c # r) = l" "c \<notin> set l \<Longrightarrow> dropWhile (\<lambda>x. x \<noteq> c) (l @ c # r) = c # r"
  "c \<notin> set l \<Longrightarrow> takeWhile (\<lambda>x. x \<noteq> c) l = l" "c \<notin> set l \<Longrightarrow> dropWhile (\<lambda>x. x \<noteq> c) l = []"
  by (induction l) auto

lemma span_line:
  assumes "CHR 0x0A \<notin> set l"
  shows "takeWhile (\<lambda>c. c \<noteq> CHR 0x0A) (l @ CHR 0x0A # r) = l" "dropWhile (\<lambda>c. c \<noteq> CHR 0x0A) (l @ CHR 0x0A # r) = CHR 0x0A # r"
    "takeWhile (\<lambda>c. c \<noteq> CHR 0x0A) l = l" "dropWhile (\<lambda>c. c \<noteq> CHR 0x0A) l = []"
  by (rule span_sep [OF assms])+

lemma scan_lines_step: "log_line cap l \<Longrightarrow> scan_lines cap (l @ CHR 0x0A # r) = l # scan_lines cap r"
  by (subst scan_lines.simps) (simp add: log_line_def span_line)

lemma scan_lines_last: "log_line cap l \<Longrightarrow> l \<noteq> [] \<Longrightarrow> scan_lines cap l = [l]"
  by (subst scan_lines.simps) (simp add: log_line_def span_line)

lemma scan_log: "list_all (log_line cap) ls \<Longrightarrow> scan_lines cap (log_of ls @ r) = ls @ scan_lines cap r"
  by (induction ls) (simp_all add: scan_lines_step)

lemma scan_Nil [simp]: "scan_lines cap [] = []"
  by (simp add: scan_lines.simps)

lemma bytes_read_log: "bytes_read ls = int (length (log_of ls))"
  by (induction ls) (simp_all add: bytes_read_def)

lemma bytes_read_append [simp]: "bytes_read (ls @ ms) = bytes_read ls + bytes_read ms"
  by (simp add: bytes_read_def)

lemma bytes_read_nonneg: "0 \<le> bytes_read ls"
  unfolding bytes_read_def by (rule sum_list_nonneg) auto

text \<open>C32: after a collection the watcher stands at the end of the log, and the next one reports exactly the
  lines that were appended since: no line of a log of complete lines is reported twice or skipped.\<close>

theorem device_log_read_once:
  assumes "awPath w \<noteq> ''''" "awSeeded w" "awInode w = ino" "awOffset w = int (length (log_of old))"
    and "list_all (log_line scanLimit) new" "new \<noteq> []"
  shows "collectDevices zone now wok True (Some (ino, log_of (old @ new))) (w, st) =
     (report zone now new,
      let w' = w\<lparr>awOffset := int (length (log_of (old @ new)))\<rparr> in (w', saveOffset wok w' st))"
proof -
  have "scan_lines scanLimit (drop (nat (awOffset w)) (log_of (old @ new))) = new"
    using assms(4,5) scan_log [of scanLimit new "[]"] by simp
  moreover have "log_of new \<noteq> []" using assms(6) by (cases new) auto
  ultimately show ?thesis
    using assms(1-4) by (simp add: collectDevices_def Let_def bytes_read_log)
qed

definition demo_line :: string where
  "demo_line = ''2026/07/12 09:00:00.123 from 1.2.3.4:5678 accepted tcp:example.com:443 [vless-reality-vision -> direct] email: alice''"

lemma demo_line_ok: "log_line scanLimit demo_line"
  by (simp add: log_line_def scanLimit_def dropCR_def demo_line_def)

lemma demo_match: "FindStringSubmatch demo_line = Some (''1.2.3.4'', ''vless-reality-vision'', ''alice'')"
  by code_simp

lemma demo_parts:
  "inboundKind ''vless-reality-vision'' = ''reality''" "TrimBrackets ''1.2.3.4'' = ''1.2.3.4''"
  "lineTime id demo_line 2000000000 = 1783846800"
  by code_simp+

lemma demo_trim: "TrimSpace ''alice'' = ''alice''"
  by (simp add: TrimSpace_def TrimLeftSpace.simps TrimRightSpace.simps leading_space_def trailing_space_def space_encodings_def
      suffix_to_prefix upt_rec)

lemma demo_report:
  "report id 2000000000 [demo_line] =
     [\<lparr>diEmail = ''alice'', diIP = ''1.2.3.4'', diInbound = ''reality'', diConns = 1, diLastSeen = 1783846800\<rparr>]"
  by (simp add: report_def add_line_def demo_match demo_parts demo_trim Let_def del: FindStringSubmatch.simps)

definition demo_watcher :: accessWatcher where
  "demo_watcher = \<lparr>awPath = ''access.log'', awState = ''offset.json'', awOffset = 0, awInode = 5, awSeeded = True\<rparr>"

theorem device_log_read_once_witness:
  "fst (collectDevices id 2000000000 True True (Some (5, log_of [demo_line])) (demo_watcher, None)) =
     [\<lparr>diEmail = ''alice'', diIP = ''1.2.3.4'', diInbound = ''reality'', diConns = 1, diLastSeen = 1783846800\<rparr>]"
  using device_log_read_once [of demo_watcher 5 "[]" "[demo_line]" id 2000000000 True None] demo_line_ok demo_report
  by (simp add: demo_watcher_def Let_def)

text \<open>C33: a defect. A last line without its newline is taken as a line, and its missing newline is counted:
  the recorded position is one byte past the end. If the log has not grown at the next collection it
  looks truncated, the position is reset, and the whole log is reported again.\<close>

theorem partial_line_replays_log:
  assumes "awPath w \<noteq> ''''" "awSeeded w" "awInode w = ino" "awOffset w = int (length (log_of old))"
    and "list_all (log_line scanLimit) old" "log_line scanLimit part" "part \<noteq> []"
    and "collectDevices zone now wok True (Some (ino, log_of old @ part)) (w, st) = (items, s')"
  shows "items = report zone now [part]
     \<and> fst (collectDevices zone now' wok True (Some (ino, log_of old @ part)) s') = report zone now' (old @ [part])"
proof -
  let ?c = "log_of old @ part"
  let ?w = "w\<lparr>awOffset := int (length ?c) + 1\<rparr>"
  have "scan_lines scanLimit (drop (nat (awOffset w)) ?c) = [part]"
    using assms(4,6,7) by (simp add: scan_lines_last)
  then have "collectDevices zone now wok True (Some (ino, ?c)) (w, st) = (report zone now [part], (?w, saveOffset wok ?w st))"
    using assms(1-4,7) by (simp add: collectDevices_def Let_def bytes_read_def add.assoc)
  with assms(8) have i: "items = report zone now [part]" and s': "s' = (?w, saveOffset wok ?w st)" by simp_all
  have "scan_lines scanLimit ?c = old @ [part]"
    using assms(5-7) by (simp add: scan_log scan_lines_last)
  moreover have "int (length (log_of old)) + int (length part) \<noteq> 0" using assms(7) by (simp add: add_nonneg_eq_0_iff)
  ultimately have "fst (collectDevices zone now' wok True (Some (ino, ?c)) s') = report zone now' (old @ [part])"
    using assms(1-3) unfolding s' by (simp add: collectDevices_def Let_def)
  with i show ?thesis by simp
qed

theorem partial_line_replays_log_witness:
  "let (items, s') = collectDevices id 2000000000 True True (Some (5, demo_line)) (demo_watcher, None)
   in fst (collectDevices id 2000000000 True True (Some (5, demo_line)) s') = items \<and> items \<noteq> []"
proof -
  obtain items s' where c: "collectDevices id 2000000000 True True (Some (5, demo_line)) (demo_watcher, None) = (items, s')"
    by (metis surj_pair)
  have "demo_line \<noteq> []" by (simp add: demo_line_def)
  with partial_line_replays_log [of demo_watcher 5 "[]" demo_line id 2000000000 True None items s' 2000000000] c demo_line_ok demo_report
  show ?thesis by (simp add: demo_watcher_def)
qed

section \<open>What a report holds\<close>

definition item_ok :: "int64 \<Rightarrow> nat \<Rightarrow> DeviceItem \<Rightarrow> bool" where
  "item_ok now n d \<longleftrightarrow> diEmail d \<noteq> '''' \<and> diEmail d \<noteq> ''unknown'' \<and> 1 \<le> diConns d \<and> diConns d \<le> int n
     \<and> 0 \<le> diLastSeen d \<and> diLastSeen d \<le> now"

lemma set_gomap_set: "x \<in> set (gomap_set k v m) \<Longrightarrow> x = (k, v) \<or> x \<in> set m"
  by (induction m) (auto split: if_splits)

lemma lineTime_le: "lineTime zone line now \<le> now"
  by (simp add: lineTime_def split: option.splits)

lemma add_line_ok:
  assumes "0 \<le> now" "\<forall>(k, d) \<in> set agg. k = (diEmail d, diIP d) \<and> item_ok now n d" "x \<in> set (add_line zone now line agg)"
  shows "case x of (k, d) \<Rightarrow> k = (diEmail d, diIP d) \<and> item_ok now (Suc n) d"
proof (cases "x \<in> set agg")
  case True
  with assms(2) show ?thesis by (auto simp: item_ok_def)
next
  case False
  have old: "k = (diEmail d, diIP d) \<and> item_ok now n d" if "map_of agg k = Some d" for k d
    using assms(2) map_of_SomeD [OF that] by blast
  from False assms(3) obtain m1 m2 m3 where m: "FindStringSubmatch line = Some (m1, m2, m3)"
      and e: "TrimSpace m3 \<noteq> ''''" "TrimSpace m3 \<noteq> ''unknown''"
    by (auto simp: add_line_def Let_def simp del: FindStringSubmatch.simps split: option.splits if_splits)
  with False assms(3) show ?thesis
    using old [of "(TrimSpace m3, TrimBrackets m1)"] lineTime_le [of zone line now] assms(1)
    by (auto simp: add_line_def Let_def item_ok_def simp del: FindStringSubmatch.simps
        dest!: set_gomap_set split: option.splits if_splits)
qed

text \<open>C34: every device in a report names a real e-mail (neither empty nor \<open>unknown\<close>), counts at least one and at
  most as many connections as lines were read, and was last seen no later than now, whatever the log
  claims about its time.\<close>

theorem device_report_bounds:
  assumes "0 \<le> now" "d \<in> set (report zone now lines)"
  shows "diEmail d \<noteq> '''' \<and> diEmail d \<noteq> ''unknown'' \<and> 1 \<le> diConns d \<and> diConns d \<le> int (length lines)
     \<and> 0 \<le> diLastSeen d \<and> diLastSeen d \<le> now"
proof -
  have "\<forall>(k, d) \<in> set (fold (add_line zone now) ls agg). k = (diEmail d, diIP d) \<and> item_ok now (n + length ls) d"
    if "\<forall>(k, d) \<in> set agg. k = (diEmail d, diIP d) \<and> item_ok now n d" for ls agg n
    using that
  proof (induction ls arbitrary: agg n)
    case (Cons l ls)
    have "\<forall>(k, d) \<in> set (add_line zone now l agg). k = (diEmail d, diIP d) \<and> item_ok now (Suc n) d"
      using add_line_ok [OF assms(1) Cons.prems] by blast
    from Cons.IH [OF this] show ?case by simp
  qed simp
  from this [of "[]" 0 lines] assms(2) show ?thesis
    by (auto simp: report_def item_ok_def)
qed

theorem device_report_bounds_witness:
  "1 \<le> diConns (hd (report id 2000000000 [demo_line]))"
  using device_report_bounds [of 2000000000 "hd (report id 2000000000 [demo_line])" id "[demo_line]"]
  by (simp add: demo_report)

end
