(* ===== verification/Metrics.thy ===== *)
theory Metrics
  imports Wire Go_Strings Float64
begin

text \<open>
  The node health snapshot, \<open>src/internal/agent/metrics.go\<close>. The clock counts whole seconds. The contents of the procfs files, the results of
  \<open>statfs\<close> and \<open>docker inspect\<close> and the decoded certificate are inputs (\<open>None\<close>: the read failed); the sampled
  counters, the cached CPU description and the cached engine version are the state.
\<close>

section \<open>Numbers\<close>

text \<open>\<open>strconv.ParseFloat\<close> on the decimal notation the kernel writes, rounded to a \<open>float64\<close>.\<close>

definition ParseFloat :: "string \<Rightarrow> rat" where
  "ParseFloat s =
     (case Cut s (CHR ''.'') of (a, b, _) \<Rightarrow>
        if (a @ b) \<noteq> [] \<and> list_all is_dec (a @ b) then fl (of_nat (dec_value (a @ b)) / 10 ^ length b) else 0)"

text \<open>What \<open>strconv.ParseInt\<close> returns beside its error: 0 for a malformed number, the nearest bound for one out of range.\<close>

definition ParseInt_value :: "string \<Rightarrow> int64" where
  "ParseInt_value s =
     (case ParseInt s of
        Some v \<Rightarrow> v
      | None \<Rightarrow>
          (case s of
             [] \<Rightarrow> 0
           | c # cs \<Rightarrow>
               let neg = (c = CHR ''-''); ds = (if neg \<or> c = CHR ''+'' then cs else s)
               in if ds \<noteq> [] \<and> list_all is_dec ds then (if neg then min_int64 else max_int64) else 0))"

definition pct :: "int64 \<Rightarrow> int64 \<Rightarrow> int" where
  "pct used tot =
     (if tot \<le> 0 \<or> used \<le> 0 then 0 else \<lfloor>fl (fl (fl (of_int used) / fl (of_int tot)) * 100)\<rfloor>)"

definition loadAvg1 :: "string option \<Rightarrow> rat" where
  "loadAvg1 f = (case f of None \<Rightarrow> 0 | Some b \<Rightarrow> (case Fields b of [] \<Rightarrow> 0 | w # _ \<Rightarrow> ParseFloat w))"

definition hostUptime :: "string option \<Rightarrow> int64" where
  "hostUptime f =
     (case f of None \<Rightarrow> 0
      | Some b \<Rightarrow> (case Fields b of [] \<Rightarrow> 0
          | w # _ \<Rightarrow> let v = ParseFloat w in if v < 0 then 0 else \<lfloor>v\<rfloor>))"

section \<open>Processor\<close>

definition wrapU64 :: "int \<Rightarrow> int" where
  "wrapU64 x = x mod 18446744073709551616"

text \<open>The sum over the fields of the \<open>cpu\<close> line; fields 3 and 4 are idle and iowait.\<close>

fun sum_cpu :: "nat \<Rightarrow> string list \<Rightarrow> int \<Rightarrow> int \<Rightarrow> (int \<times> int) option" where
  "sum_cpu i [] tot idle = Some (tot, idle)"
| "sum_cpu i (v # vs) tot idle =
     (case ParseUint v of
        None \<Rightarrow> None
      | Some n \<Rightarrow> sum_cpu (Suc i) vs (wrapU64 (tot + n)) (if i = 3 \<or> i = 4 then wrapU64 (idle + n) else idle))"

fun parse_cpu_lines :: "string list \<Rightarrow> (int \<times> int) option" where
  "parse_cpu_lines [] = None"
| "parse_cpu_lines (line # ls) =
     (let f = Fields line
      in if length f < 5 \<or> f ! 0 \<noteq> ''cpu'' then parse_cpu_lines ls else sum_cpu 0 (tl f) 0 0)"

definition parseCPUStat :: "string \<Rightarrow> (int \<times> int) option" where
  "parseCPUStat s = parse_cpu_lines (Split s [CHR 0x0A])"

record cpuPrev =
  cpTotal :: int
  cpIdle :: int
  cpSeeded :: bool

definition cpuUsedPct :: "string option \<Rightarrow> cpuPrev \<Rightarrow> int \<times> cpuPrev" where
  "cpuUsedPct f prev =
     (case Option.bind f parseCPUStat of
        None \<Rightarrow> (0, prev)
      | Some (tot, idle) \<Rightarrow>
          let now = \<lparr>cpTotal = tot, cpIdle = idle, cpSeeded = True\<rparr>
          in if \<not> cpSeeded prev \<or> tot \<le> cpTotal prev \<or> idle < cpIdle prev then (0, now)
             else
               let dTotal = tot - cpTotal prev; dIdle = idle - cpIdle prev
               in if dIdle \<ge> dTotal then (0, now)
                  else (\<lfloor>fl (fl (fl (of_int (dTotal - dIdle)) / fl (of_int dTotal)) * 100)\<rfloor>, now))"

definition armParts :: "(string \<times> string) list" where
  "armParts = [(''0xd03'', ''Cortex-A53''), (''0xd07'', ''Cortex-A57''), (''0xd08'', ''Cortex-A72''),
     (''0xd09'', ''Cortex-A73''), (''0xd0a'', ''Cortex-A75''), (''0xd0b'', ''Cortex-A76''), (''0xd0c'', ''Neoverse-N1''),
     (''0xd40'', ''Neoverse-V1''), (''0xd49'', ''Neoverse-N2''), (''0xd4f'', ''Neoverse-V2'')]"

definition armModel :: "string \<Rightarrow> string \<Rightarrow> string" where
  "armModel impl part =
     (if ToLower impl \<noteq> ''0x41'' then '''' else (case map_of armParts (ToLower part) of None \<Rightarrow> '''' | Some m \<Rightarrow> m))"

definition cpu_line :: "string \<Rightarrow> int \<times> string \<times> string \<times> string \<Rightarrow> int \<times> string \<times> string \<times> string" where
  "cpu_line line = (\<lambda>(cores, model, impl, part).
     case Cut line (CHR '':'') of (k0, v0, found) \<Rightarrow>
       if \<not> found then (cores, model, impl, part)
       else
         let k = TrimSpace k0; v = TrimSpace v0
         in if k = ''processor'' then (cores + 1, model, impl, part)
            else if k = ''model name'' then (cores, if model = '''' then v else model, impl, part)
            else if k = ''CPU implementer'' then (cores, model, v, part)
            else if k = ''CPU part'' then (cores, model, impl, v)
            else (cores, model, impl, part))"

definition parseCPUInfo :: "string \<Rightarrow> int \<times> string" where
  "parseCPUInfo s =
     (case fold cpu_line (Split s [CHR 0x0A]) (0, '''', '''', '''') of
        (cores, model, impl, part) \<Rightarrow> (cores, if model = '''' then armModel impl part else model))"

text \<open>\<open>sync.Once\<close>: the first call fills the cache, whether or not the file could be read.\<close>

definition cpuInfo :: "string option \<Rightarrow> (int \<times> string) option \<Rightarrow> (int \<times> string) \<times> (int \<times> string) option" where
  "cpuInfo f cache =
     (case cache of
        Some v \<Rightarrow> (v, cache)
      | None \<Rightarrow> let v = (case f of None \<Rightarrow> (0, '''') | Some b \<Rightarrow> parseCPUInfo b) in (v, Some v))"

section \<open>Memory and disk\<close>

definition meminfoBytes :: "string \<Rightarrow> int64" where
  "meminfoBytes line =
     (let f = Fields line
      in if length f < 2 then 0
         else wrap64 (ParseInt_value (f ! 1) * 1024))"

definition mem_line :: "string \<Rightarrow> int64 \<times> int64 \<Rightarrow> int64 \<times> int64" where
  "mem_line line = (\<lambda>(tot, avail).
     if HasPrefix line ''MemTotal:'' then (meminfoBytes line, avail)
     else if HasPrefix line ''MemAvailable:'' then (tot, meminfoBytes line)
     else (tot, avail))"

definition parseMemInfo :: "string \<Rightarrow> int64 \<times> int64" where
  "parseMemInfo s = fold mem_line (Split s [CHR 0x0A]) (0, 0)"

definition memInfo :: "string option \<Rightarrow> int64 \<times> int64" where
  "memInfo f =
     (case f of
        None \<Rightarrow> (0, 0)
      | Some b \<Rightarrow>
          (case parseMemInfo b of (tot, avail) \<Rightarrow>
             if tot \<le> 0 then (0, 0)
             else let avail' = (if avail > tot then tot else avail) in (tot, wrap64 (tot - avail'))))"

text \<open>Block size, blocks and free blocks of the paths \<open>/data\<close> and \<open>/\<close>, in this order.\<close>

fun diskInfo :: "(int \<times> int \<times> int) option list \<Rightarrow> int64 \<times> int64" where
  "diskInfo [] = (0, 0)"
| "diskInfo (None # ps) = diskInfo ps"
| "diskInfo (Some (bs, blocks, bfree) # ps) =
     (if bs \<le> 0 \<or> blocks = 0 then diskInfo ps
      else let tot = wrap64 (blocks * bs) in (tot, wrap64 (tot - wrap64 (bfree * bs))))"

section \<open>Versions and certificates\<close>

text \<open>\<open>strings.LastIndexByte\<close>, -1 when absent.\<close>

definition LastIndexByte :: "string \<Rightarrow> char \<Rightarrow> int" where
  "LastIndexByte s c = (if c \<in> set s then int (length s) - 1 - int (length (takeWhile ((\<noteq>) c) (rev s))) else - 1)"

definition imageTag :: "string \<Rightarrow> string" where
  "imageTag ref0 =
     (let ref1 = TrimSpace ref0;
          i = LastIndexByte ref1 (CHR ''@'');
          ref2 = (if i \<ge> 0 then take (nat i) ref1 else ref1);
          slash = LastIndexByte ref2 (CHR ''/'');
          colon = LastIndexByte ref2 (CHR '':'')
      in if colon \<le> slash then ''''
         else let tag = drop (nat (colon + 1)) ref2 in if tag = ''latest'' then '''' else tag)"

record xrayVer =
  xvVal :: string
  xvAt :: int64

definition xrayVerTTL :: int64 where
  "xrayVerTTL = 3600"

definition xrayVersion :: "int64 \<Rightarrow> string option \<Rightarrow> xrayVer \<Rightarrow> string \<times> xrayVer" where
  "xrayVersion now out st =
     (if xvVal st \<noteq> '''' \<and> now - xvAt st < xrayVerTTL then (xvVal st, st)
      else
        let st' = (case out of None \<Rightarrow> st
                   | Some o' \<Rightarrow> let v = imageTag o' in if v \<noteq> '''' then \<lparr>xvVal = v, xvAt = now\<rparr> else st)
        in (xvVal st', st'))"

text \<open>The PEM blocks of the certificate file: their type and, for one that parses as a certificate, its \<open>notAfter\<close>.\<close>

fun first_cert :: "(string \<times> int64 option) list \<Rightarrow> int64" where
  "first_cert [] = 0"
| "first_cert ((ty, na) # bs) =
     (if ty \<noteq> ''CERTIFICATE'' then first_cert bs else (case na of Some t \<Rightarrow> t | None \<Rightarrow> first_cert bs))"

definition certExpiry :: "string \<Rightarrow> (string \<times> int64 option) list option \<Rightarrow> int64" where
  "certExpiry path blocks = (if path = '''' then 0 else (case blocks of None \<Rightarrow> 0 | Some bs \<Rightarrow> first_cert bs))"

section \<open>The snapshot\<close>

record host =
  hLoadavg :: "string option"
  hUptime :: "string option"
  hStat :: "string option"
  hCpuinfo :: "string option"
  hMeminfo :: "string option"
  hDisks :: "(int \<times> int \<times> int) option list"
  hImage :: "string option"
  hCert :: "(string \<times> int64 option) list option"

record sampler =
  saStart :: int64
  saCpu :: cpuPrev
  saCpuInfo :: "(int \<times> string) option"
  saXray :: xrayVer

definition collectMetrics :: "string \<Rightarrow> int64 \<Rightarrow> host \<Rightarrow> sampler \<Rightarrow> NodeMetrics \<times> sampler" where
  "collectMetrics certPath now h st =
     (let (memTotal, memUsed) = memInfo (hMeminfo h);
          (diskTotal, diskUsed) = diskInfo (hDisks h);
          ((cores, model), ci) = cpuInfo (hCpuinfo h) (saCpuInfo st);
          (ver, xv) = xrayVersion now (hImage h) (saXray st);
          (cpu, cp) = cpuUsedPct (hStat h) (saCpu st)
      in (\<lparr>nmLoadAvg = loadAvg1 (hLoadavg h), nmMemUsedPct = pct memUsed memTotal, nmXrayVersion = ver,
            nmCertExpiry = certExpiry certPath (hCert h), nmUptime = now - saStart st, nmCPUUsedPct = cpu,
            nmCPUCores = cores, nmCPUModel = model, nmMemTotal = memTotal, nmMemUsed = memUsed,
            nmDiskTotal = diskTotal, nmDiskUsed = diskUsed, nmHostUptime = hostUptime (hUptime h)\<rparr>,
          st\<lparr>saCpu := cp, saCpuInfo := ci, saXray := xv\<rparr>))"

section \<open>Percentages\<close>

lemma percentage_range:
  assumes "0 < u" "u \<le> t"
  shows "0 \<le> \<lfloor>fl (fl (fl (of_int u) / fl (of_int t)) * 100)\<rfloor> \<and> \<lfloor>fl (fl (fl (of_int u) / fl (of_int t)) * 100)\<rfloor> \<le> 100"
proof -
  let ?q = "fl (of_int u) / fl (of_int t)"
  have "fl (of_int u) \<le> fl (of_int t)" using assms by (intro fl_mono) simp
  then have "?q \<le> 1" using fl_nonneg [of "of_int t"] by (auto simp: divide_le_eq_1 order_le_less)
  then have "fl ?q \<le> 1" using fl_mono [of ?q 1] by (simp add: fl_1)
  then have "fl (fl ?q * 100) \<le> 100" using fl_mono [of "fl ?q * 100" 100] by (simp add: fl_100)
  moreover have "0 \<le> fl (fl ?q * 100)" by (rule fl_nonneg)
  ultimately show ?thesis by (simp add: floor_le_iff)
qed

lemma pct_range: "u \<le> t \<Longrightarrow> 0 \<le> pct u t \<and> pct u t \<le> 100"
  using percentage_range [of u t] by (auto simp: pct_def)

lemma cpuUsedPct_range: "0 \<le> fst (cpuUsedPct f prev) \<and> fst (cpuUsedPct f prev) \<le> 100"
proof (cases "Option.bind f parseCPUStat")
  case (Some ti)
  obtain tot idle where ti: "ti = (tot, idle)" by (cases ti)
  have "0 \<le> \<lfloor>fl (fl (fl (of_int (tot - cpTotal prev - (idle - cpIdle prev))) / fl (of_int (tot - cpTotal prev))) * 100)\<rfloor>
      \<and> \<lfloor>fl (fl (fl (of_int (tot - cpTotal prev - (idle - cpIdle prev))) / fl (of_int (tot - cpTotal prev))) * 100)\<rfloor> \<le> 100"
    if "cpIdle prev \<le> idle" "idle - cpIdle prev < tot - cpTotal prev"
    by (rule percentage_range) (use that in simp_all)
  with Some ti show ?thesis by (simp add: cpuUsedPct_def Let_def)
qed (simp add: cpuUsedPct_def)

lemma memInfo_le: "0 \<le> snd (parseMemInfo b) \<Longrightarrow> snd (memInfo (Some b)) \<le> fst (memInfo (Some b))"
proof (cases "parseMemInfo b")
  case (Pair tot avail)
  assume "0 \<le> snd (parseMemInfo b)"
  have "in_int64 (meminfoBytes l)" for l by (simp add: meminfoBytes_def Let_def in_int64_def min_int64_def max_int64_def) (simp add: wrap64_in_int64 [unfolded in_int64_def min_int64_def max_int64_def])
  then have "in_int64 (fst (fold mem_line ls (t, a)))" if "in_int64 t" for ls t a
    using that by (induction ls arbitrary: t a) (auto simp: mem_line_def)
  then have "in_int64 tot" using Pair unfolding parseMemInfo_def by (metis fst_conv in_int64_def min_int64_def max_int64_def neg_le_0_iff_le zero_le_numeral)
  with Pair \<open>0 \<le> snd (parseMemInfo b)\<close> show ?thesis
    by (simp add: memInfo_def Let_def in_int64_def min_int64_def max_int64_def)
qed


definition demo_host :: host where
  "demo_host = \<lparr>hLoadavg = Some ''0.52 0.58 0.59'', hUptime = None, hStat = None, hCpuinfo = None, hMeminfo = Some ''Hugepagesize: 2048 kB'',
     hDisks = [None, Some (4096, 10, 4)], hImage = Some ''ghcr.io/xtls/xray-core:1.8.4'', hCert = None\<rparr>"

definition demo_sampler :: sampler where
  "demo_sampler = \<lparr>saStart = 0, saCpu = \<lparr>cpTotal = 0, cpIdle = 0, cpSeeded = False\<rparr>, saCpuInfo = None, saXray = \<lparr>xvVal = '''', xvAt = 0\<rparr>\<rparr>"


end
