(* ===== verification/Agent.thy ===== *)
theory Agent
  imports Live_Inv Pending Stats Devices Metrics
begin

text \<open>
  The agent process in managed mode (\<open>src/internal/agent/agent.go\<close>): its configuration and what it loads at
  start-up, the session with the panel (registration, the flush of buffered traffic, the two tickers, the
  frames it receives) and the reconnect loop. A session step returns the frames it put on the socket and
  whether the session goes on; whether a write succeeds is an input, as is everything read from outside
  (the counters of the engine, the access log, the host files). Not modelled: the parsing of the panel's
  address (\<open>wsURL\<close>, \<open>net/url\<close>) and the dialing, whose outcome is an input, and signals.
\<close>

section \<open>Paths\<close>

text \<open>\<open>filepath.Clean\<close>, \<open>Dir\<close> and \<open>Join\<close> of two elements, on Unix.\<close>

fun clean_segs :: "bool \<Rightarrow> string list \<Rightarrow> string list \<Rightarrow> string list" where
  "clean_segs rooted out [] = rev out"
| "clean_segs rooted out (s # segs) =
     (if s = '''' \<or> s = ''.'' then clean_segs rooted out segs
      else if s = ''..'' then
        (case out of
           [] \<Rightarrow> clean_segs rooted (if rooted then [] else [s]) segs
         | t # ts \<Rightarrow> clean_segs rooted (if t = ''..'' then s # out else ts) segs)
      else clean_segs rooted (s # out) segs)"

definition Clean :: "string \<Rightarrow> string" where
  "Clean path =
     (let rooted = (path \<noteq> '''' \<and> hd path = CHR ''/'');
          p = (if rooted then ''/'' else '''') @ Join (clean_segs rooted [] (Split path ''/'')) ''/''
      in if p = '''' then ''.'' else p)"

definition Dir :: "string \<Rightarrow> string" where
  "Dir path = Clean (rev (dropWhile ((\<noteq>) (CHR ''/'')) (rev path)))"

definition JoinPath :: "string \<Rightarrow> string \<Rightarrow> string" where
  "JoinPath d f = (if d = '''' \<and> f = '''' then '''' else Clean (Join (filter (\<lambda>e. e \<noteq> '''') [d, f]) ''/''))"

definition baselinePath :: "string \<Rightarrow> string" where
  "baselinePath usersFile = JoinPath (Dir usersFile) ''xray-baseline.json''"

definition pendingPath :: "string \<Rightarrow> string" where
  "pendingPath usersFile = JoinPath (Dir usersFile) ''pending-traffic.json''"

definition accessStatePath :: "string \<Rightarrow> string" where
  "accessStatePath usersFile = JoinPath (Dir usersFile) ''access-offset.json''"

section \<open>Configuration\<close>

definition getenv_or :: "(string \<Rightarrow> string) \<Rightarrow> string \<Rightarrow> string \<Rightarrow> string" where
  "getenv_or e key def = (if e key \<noteq> '''' then e key else def)"

text \<open>A \<open>time.Duration\<close> counts nanoseconds in 64 bits.\<close>

definition envDur :: "(string \<Rightarrow> string) \<Rightarrow> string \<Rightarrow> int \<Rightarrow> int64" where
  "envDur e key def =
     (if e key \<noteq> '''' then (case Atoi (e key) of Some n \<Rightarrow> wrap64 (n * 1000000000) | None \<Rightarrow> def * 1000000000) else def * 1000000000)"

record 'e managed =
  mgPanelURL :: string
  mgToken :: string
  mgXrayContainer :: string
  mgGRPCAddr :: string
  mgNginxContainer :: string
  mgStatsInterval :: int64
  mgAgent :: "'e agent"
  mgPend :: pending_state
  mgAcc :: watch_state
  mgSampler :: sampler

text \<open>What a starting process finds on the node.\<close>

record 'e node_disk =
  dkXray :: "json option"
  dkBaseline :: baseline
  dkPending :: pending_file
  dkAccess :: "accessOffset option"
  dkNginx :: "string option"
  dkAcme :: "string option"
  dkEngine :: 'e

definition fresh_sampler :: "int64 \<Rightarrow> sampler" where
  "fresh_sampler now = \<lparr>saStart = now, saCpu = \<lparr>cpTotal = 0, cpIdle = 0, cpSeeded = False\<rparr>, saCpuInfo = None, saXray = \<lparr>xvVal = '''', xvAt = 0\<rparr>\<rparr>"

definition agentFromEnv :: "(string \<Rightarrow> string) \<Rightarrow> int64 \<Rightarrow> 'e node_disk \<Rightarrow> 'e managed" where
  "agentFromEnv e now d =
     (let usersFile = getenv_or e ''XUANWU_USERS_FILE'' ''/data/users.json'';
          xrayConfig = getenv_or e ''XRAY_CONFIG'' ''/etc/xray/config.json'';
          accessLog = getenv_or e ''XRAY_ACCESS_LOG'' ''/var/log/xray/access.log''
      in \<lparr>mgPanelURL = getenv_or e ''PANEL_URL'' '''', mgToken = getenv_or e ''NODE_TOKEN'' '''',
          mgXrayContainer = getenv_or e ''XRAY_CONTAINER'' ''xray'', mgGRPCAddr = getenv_or e ''XRAY_GRPC'' ''xray:10085'',
          mgNginxContainer = getenv_or e ''NGINX_CONTAINER'' ''nginx-edge'', mgStatsInterval = envDur e ''STATS_INTERVAL'' 60,
          mgAgent =
            \<lparr>agXrayPath = xrayConfig, agCertPath = getenv_or e ''XRAY_CERT'' ''/etc/xray/certs/fullchain.pem'',
             agLive = seed xrayConfig (dkXray d) (dkBaseline d) (newLiveState (baselinePath usersFile)),
             agLast = None, agXrayFile = dkXray d, agBaseline = dkBaseline d,
             agEdge = \<lparr>nginxPath = getenv_or e ''NGINX_CONF'' ''/data/nginx/nginx.conf'', nginxFile = dkNginx d, nginxRestarts = 0,
                       acmePath = getenv_or e ''ACME_DOMAIN_FILE'' ''/data/acme/domain'', acmeFile = dkAcme d\<rparr>,
             agEngine = dkEngine d, agRestarts = 0\<rparr>,
          mgPend = (loadPending (pendingPath usersFile) (dkPending d), dkPending d),
          mgAcc = (newAccessWatcher accessLog (accessStatePath usersFile) (dkAccess d), dkAccess d),
          mgSampler = fresh_sampler now\<rparr>)"

section \<open>The session\<close>

definition register_msg :: "string \<Rightarrow> 'e managed \<Rightarrow> Msg" where
  "register_msg ver m = (empty_msg TypeRegister)\<lparr>msgToken := mgToken m, msgVersion := ver\<rparr>"

definition traffic_msg :: "int64 \<Rightarrow> TrafficItem list \<Rightarrow> Msg" where
  "traffic_msg seq items = (empty_msg TypeTraffic)\<lparr>msgSeq := seq, msgItems := items\<rparr>"

text \<open>(Re)send the batch in flight, if there is one; \<open>wok\<close>: the buffer file can be written, \<open>sok\<close>: the frame can.\<close>

definition send_batch :: "bool \<Rightarrow> bool \<Rightarrow> 'e managed \<Rightarrow> bool \<times> Msg list \<times> 'e managed" where
  "send_batch wok sok m =
     (case batch wok (mgPend m) of
        ((seq, items, ok), p) \<Rightarrow>
          let m' = m\<lparr>mgPend := p\<rparr>
          in if \<not> ok then (True, [], m') else if sok then (True, [traffic_msg seq items], m') else (False, [], m'))"

text \<open>From the established connection to the loops.\<close>

definition session_open :: "string \<Rightarrow> bool \<Rightarrow> bool \<Rightarrow> bool \<Rightarrow> 'e managed \<Rightarrow> bool \<times> Msg list \<times> 'e managed" where
  "session_open ver regOk wok sok m =
     (if \<not> regOk then (False, [], m)
      else case send_batch wok sok m of (alive, ms, m') \<Rightarrow> (alive, register_msg ver m # ms, m'))"

definition heartbeat_tick :: "int64 \<Rightarrow> host \<Rightarrow> bool \<Rightarrow> 'e managed \<Rightarrow> bool \<times> Msg list \<times> 'e managed" where
  "heartbeat_tick now h sok m =
     (case collectMetrics (agCertPath (mgAgent m)) now h (mgSampler m) of
        (mt, sa) \<Rightarrow>
          let m' = m\<lparr>mgSampler := sa\<rparr>
          in if sok then (True, [(empty_msg TypeHeartbeat)\<lparr>msgMetrics := Some mt\<rparr>], m') else (False, [], m'))"

text \<open>What one tick of the stats loop meets: the engine's counters (\<open>None\<close>: the query failed), the clock and zone, the
  access log, and which writes succeed.\<close>

record stats_io =
  siCounters :: "stat list option"
  siSaved :: bool
  siSaved2 :: bool
  siSent :: bool
  siZone :: "int \<Rightarrow> int64"
  siNow :: int64
  siLog :: "(int \<times> string) option"
  siLogOk :: bool
  siOffsetOk :: bool
  siSent2 :: bool

definition stats_tick :: "stats_io \<Rightarrow> 'e managed \<Rightarrow> bool \<times> Msg list \<times> 'e managed" where
  "stats_tick io m =
     (let m1 = m\<lparr>mgPend := collect (siSaved io) (collectTraffic (siCounters io)) (mgPend m)\<rparr>
      in case send_batch (siSaved2 io) (siSent io) m1 of
           (False, ms, m2) \<Rightarrow> (False, ms, m2)
         | (True, ms, m2) \<Rightarrow>
             (case collectDevices (siZone io) (siNow io) (siOffsetOk io) (siLogOk io) (siLog io) (mgAcc m2) of
                (devs, w) \<Rightarrow>
                  let m3 = m2\<lparr>mgAcc := w\<rparr>
                  in if devs = [] then (True, ms, m3)
                     else if siSent2 io then (True, ms @ [(empty_msg TypeDevices)\<lparr>msgDevices := devs\<rparr>], m3)
                     else (False, ms, m3)))"

text \<open>A received frame; the error of \<open>applyConfig\<close> is only logged.\<close>

definition session_recv :: "'e engine_api \<Rightarrow> agent_io \<Rightarrow> edge_io \<Rightarrow> bool \<Rightarrow> Msg \<Rightarrow> 'e managed \<Rightarrow> 'e managed" where
  "session_recv E io eio wok f m =
     (if msgType f = TypeConfig then
        let ag = mgAgent m; ag1 = ag\<lparr>agEdge := writeACMEDomain eio (msgTLSDomain f) (agEdge ag)\<rparr>
        in m\<lparr>mgAgent := snd (applyConfig E io (msgConfig f) ag1)\<rparr>
      else if msgType f = TypeAck then m\<lparr>mgPend := ack wok (msgSeq f) (mgPend m)\<rparr>
      else m)"

section \<open>The reconnect loop\<close>

text \<open>\<open>RunManaged\<close> needs an address and a token, seeds a TLS-only nginx configuration and then dials forever; the pause
  before attempt \<open>n + 1\<close>, in nanoseconds.\<close>

definition managed_start :: "edge_io \<Rightarrow> 'e managed \<Rightarrow> 'e managed option" where
  "managed_start eio m =
     (if mgPanelURL m = '''' \<or> mgToken m = '''' then None
      else Some (m\<lparr>mgAgent := (mgAgent m)\<lparr>agEdge := applyNginx eio '''' (agEdge (mgAgent m))\<rparr>\<rparr>))"

definition next_backoff :: "int64 \<Rightarrow> int64" where
  "next_backoff b = (if b < 30 * 1000000000 then wrap64 (b * 2) else b)"

primrec backoff :: "nat \<Rightarrow> int64" where
  "backoff 0 = 1000000000"
| "backoff (Suc n) = next_backoff (backoff n)"

section \<open>Properties\<close>

text \<open>Reconnecting backs off but never gives up: the pauses are 1, 2, 4, 8 and 16 seconds and then always 32 seconds; they never
  shrink, never exceed 32 seconds and never overflow.\<close>

theorem reconnect_backoff:
  "backoff n = 1000000000 * 2 ^ min n 5 \<and> backoff n \<le> backoff (Suc n) \<and> backoff n \<le> 32 * 1000000000 \<and> in_int64 (backoff n)"
proof -
  have *: "backoff k = 1000000000 * 2 ^ min k 5" for k
  proof (induction k)
    case (Suc k)
    show ?case
    proof (cases "k < 5")
      case True
      then have "k \<in> {0, 1, 2, 3, 4}" by auto
      with Suc show ?thesis by (auto simp: next_backoff_def int64_defs numeral_eq_Suc)
    next
      case False
      with Suc show ?thesis by (simp add: next_backoff_def)
    qed
  qed simp
  have "(2::int) ^ min n 5 \<le> 2 ^ min (Suc n) 5" by (intro power_increasing) auto
  moreover have "(2::int) ^ min n 5 \<le> 2 ^ 5" by (intro power_increasing) auto
  moreover have "(0::int) \<le> 2 ^ min n 5" by simp
  ultimately have "(2::int) ^ min n 5 \<le> 2 ^ min (Suc n) 5 \<and> (2::int) ^ min n 5 \<le> 32 \<and> (0::int) \<le> 2 ^ min n 5" by simp
  then show ?thesis unfolding * in_int64_def min_int64_def max_int64_def by linarith
qed

end
