(* ===== verification/Protocol.thy ===== *)
theory Protocol
  imports Prelude
begin

text \<open>
  The contract behind traffic accounting: what a sender of batches promises, what a receiver of
  batches promises, and the invariant of a sender and a receiver joined by two FIFO channels,
  proved from the promises alone. \<open>Delivery\<close> interprets the locales on the agent's buffer
  (\<open>src/internal/agent/pending.go\<close>) and the panel's ingestion (\<open>src/internal/panel/traffic.go\<close>).
\<close>

section \<open>The contracts\<close>

text \<open>
  A sender keeps collected amounts (\<open>waiting\<close>), and at most one batch in flight under its current
  sequence number, which it repeats until that number is acknowledged.
\<close>

locale traffic_sender =
  fixes collect :: "'i list \<Rightarrow> 's \<Rightarrow> 's"
    and batch :: "'s \<Rightarrow> (int \<times> 'i list \<times> bool) \<times> 's"
    and ack :: "int \<Rightarrow> 's \<Rightarrow> 's"
    and sinv :: "'s \<Rightarrow> bool"
    and seqno :: "'s \<Rightarrow> int"
    and inflight :: "'s \<Rightarrow> 'i list option"
    and waiting :: "'s \<Rightarrow> int"
    and amt :: "'i list \<Rightarrow> int"
  assumes collect_sinv: "sinv s \<Longrightarrow> sinv (collect xs s)"
    and collect_seqno: "seqno (collect xs s) = seqno s"
    and collect_inflight: "inflight (collect xs s) = inflight s"
    and collect_waiting: "sinv s \<Longrightarrow> wrap64 (waiting (collect xs s)) = wrap64 (waiting s + amt xs)"
    and batch_resend: "sinv s \<Longrightarrow> inflight s = Some f \<Longrightarrow> batch s = ((seqno s, f, True), s)"
    and batch_idle: "sinv s \<Longrightarrow> inflight s = None \<Longrightarrow> batch s = ((q, f, False), s') \<Longrightarrow> s' = s \<and> waiting s = 0"
    and batch_new: "sinv s \<Longrightarrow> inflight s = None \<Longrightarrow> batch s = ((q, f, True), s') \<Longrightarrow>
       sinv s' \<and> q = wrap64 (seqno s + 1) \<and> seqno s' = q \<and> inflight s' = Some f \<and> waiting s' = 0 \<and> wrap64 (amt f) = wrap64 (waiting s)"
    and ack_sinv: "sinv s \<Longrightarrow> sinv (ack q s)"
    and ack_seqno: "seqno (ack q s) = seqno s"
    and ack_waiting: "waiting (ack q s) = waiting s"
    and ack_inflight: "inflight (ack q s) = (if q = seqno s then None else inflight s)"

text \<open>A receiver credits a batch unless its number is the last one it applied.\<close>

locale traffic_receiver =
  fixes ingest :: "'t \<Rightarrow> int \<Rightarrow> 'i list \<Rightarrow> 'p \<Rightarrow> 'p"
    and rinv :: "'p \<Rightarrow> bool"
    and lastseq :: "'p \<Rightarrow> int"
    and credited :: "'p \<Rightarrow> int"
    and amt :: "'i list \<Rightarrow> int"
  assumes ingest_rinv: "rinv p \<Longrightarrow> rinv (ingest t q xs p)"
    and ingest_lastseq: "rinv p \<Longrightarrow> q \<noteq> 0 \<Longrightarrow> lastseq (ingest t q xs p) = q"
    and ingest_dup: "rinv p \<Longrightarrow> q \<noteq> 0 \<Longrightarrow> q = lastseq p \<Longrightarrow> credited (ingest t q xs p) = credited p"
    and ingest_new: "rinv p \<Longrightarrow> q \<noteq> lastseq p \<Longrightarrow> credited (ingest t q xs p) = credited p + amt xs"

section \<open>Sender and receiver joined\<close>

locale delivery = traffic_sender collect batch ack sinv seqno inflight waiting amt
    + traffic_receiver ingest rinv lastseq credited amt
  for collect :: "'i list \<Rightarrow> 's \<Rightarrow> 's" and batch ack sinv seqno inflight waiting and amt :: "'i list \<Rightarrow> int"
    and ingest :: "'t \<Rightarrow> int \<Rightarrow> 'i list \<Rightarrow> 'p \<Rightarrow> 'p" and rinv lastseq credited
begin

text \<open>What the batch in flight still owes the receiver.\<close>

definition owed :: "'s \<Rightarrow> 'p \<Rightarrow> int" where
  "owed s p = (case inflight s of None \<Rightarrow> 0 | Some f \<Rightarrow> if lastseq p = seqno s then 0 else amt f)"

lemma owed_collect: "owed (collect xs s) p = owed s p"
  by (cases "inflight s") (simp_all add: owed_def collect_inflight collect_seqno)

lemma owed_ack: "q \<noteq> seqno s \<or> lastseq p = seqno s \<Longrightarrow> owed (ack q s) p = owed s p"
  by (cases "inflight s") (auto simp: owed_def ack_inflight ack_seqno)

lemma owed_other: "lastseq p' = lastseq p \<Longrightarrow> owed s p' = owed s p"
  by (cases "inflight s") (simp_all add: owed_def)

text \<open>
  \<open>up\<close> and \<open>down\<close> are the frames on the wire, oldest first; \<open>due\<close> is all that was ever collected, on
  top of what was credited at the start.
\<close>

definition dinv :: "'s \<Rightarrow> 'p \<Rightarrow> (int \<times> 'i list) list \<Rightarrow> int list \<Rightarrow> int \<Rightarrow> bool" where
  "dinv s p up down due \<longleftrightarrow>
     sinv s \<and> rinv p \<and> 0 \<le> lastseq p \<and> lastseq p \<le> seqno s \<and>
     (inflight s = None \<longrightarrow> lastseq p = seqno s) \<and>
     (inflight s \<noteq> None \<longrightarrow> 0 < seqno s) \<and>
     sorted (map fst up) \<and>
     (\<forall>(q, xs) \<in> set up. 0 < q \<and> lastseq p \<le> q \<and> q \<le> seqno s \<and> (lastseq p < q \<longrightarrow> q = seqno s \<and> inflight s = Some xs)) \<and>
     (\<forall>q \<in> set down. q \<le> lastseq p) \<and>
     wrap64 (credited p + owed s p + waiting s) = wrap64 due"

lemma dinv_collect: "dinv s p up down due \<Longrightarrow> dinv (collect xs s) p up down (due + amt xs)"
proof -
  assume inv: "dinv s p up down due"
  then have s: "sinv s" and eq: "wrap64 (credited p + owed s p + waiting s) = wrap64 due"
    by (simp_all add: dinv_def)
  have "wrap64 (credited p + owed s p + waiting (collect xs s)) = wrap64 (credited p + owed s p + (waiting s + amt xs))"
    using collect_waiting [OF s, of xs] by (metis wrap64_add_right)
  also have "\<dots> = wrap64 (wrap64 (credited p + owed s p + waiting s) + amt xs)"
    by (simp add: wrap64_add_left add.assoc)
  also have "\<dots> = wrap64 (due + amt xs)" by (simp add: eq wrap64_add_left)
  finally show ?thesis
    using inv by (simp add: dinv_def collect_sinv collect_seqno collect_inflight owed_collect)
qed

text \<open>A batch is taken (new or again) and put on the wire.\<close>

lemma dinv_batch:
  assumes inv: "dinv s p up down due" and b: "batch s = ((q, f, ok), s')" and room: "seqno s < max_int64"
  shows "dinv s' p (if ok then up @ [(q, f)] else up) down due"
proof (cases "inflight s")
  case (Some g)
  with b inv have "ok" "q = seqno s" "f = g" "s' = s"
    using batch_resend [of s g] by (simp_all add: dinv_def)
  with inv Some show ?thesis by (fastforce simp: dinv_def sorted_append)
next
  case None
  with inv have s: "sinv s" and last: "lastseq p = seqno s" "0 \<le> lastseq p" by (simp_all add: dinv_def)
  show ?thesis
  proof (cases ok)
    case False
    with b batch_idle [OF s None, of q f s'] inv show ?thesis by simp
  next
    case True
    have new: "sinv s'" "q = wrap64 (seqno s + 1)" "seqno s' = q" "inflight s' = Some f" "waiting s' = 0"
      "wrap64 (amt f) = wrap64 (waiting s)"
      using batch_new [OF s None, of q f s'] b True by simp_all
    have q: "q = seqno s + 1" using new(2) last room by (simp add: in_int64_def min_int64_def)
    have "wrap64 (credited p + owed s' p + waiting s') = wrap64 (credited p + amt f)"
      using new q last by (simp add: owed_def)
    also have "\<dots> = wrap64 (credited p + waiting s)" by (metis new(6) wrap64_add_right)
    also have "\<dots> = wrap64 due" using inv None by (simp add: dinv_def owed_def)
    finally show ?thesis
      using True inv new(1,3,4) q last None by (fastforce simp: dinv_def sorted_append)
  qed
qed

text \<open>The receiver takes the oldest frame; its acknowledgement may or may not be queued.\<close>

lemma dinv_deliver:
  assumes inv: "dinv s p ((q, xs) # up) down due"
  shows "dinv s (ingest t q xs p) up (down @ [q]) due" "dinv s (ingest t q xs p) up down due"
proof -
  let ?p = "ingest t q xs p"
  have r: "rinv p" and q: "0 < q" "lastseq p \<le> q" "q \<le> seqno s"
    and cur: "lastseq p < q \<longrightarrow> q = seqno s \<and> inflight s = Some xs"
    and eq: "wrap64 (credited p + owed s p + waiting s) = wrap64 due"
    and up: "sorted (map fst up)" "\<forall>(q', ys) \<in> set up. q \<le> q'"
    using inv by (auto simp: dinv_def)
  have last: "lastseq ?p = q" using q by (simp add: ingest_lastseq [OF r])
  have bal: "credited ?p + owed s ?p = credited p + owed s p"
  proof (cases "q = lastseq p")
    case True
    then show ?thesis using q r last owed_other [of ?p p s] by (simp add: ingest_dup)
  next
    case False
    with q cur have "q = seqno s" "inflight s = Some xs" "lastseq p \<noteq> seqno s" by auto
    with False last show ?thesis by (simp add: ingest_new [OF r] owed_def)
  qed
  have "dinv s ?p up (down @ ds) due" if "set ds \<subseteq> {q}" for ds
    unfolding dinv_def
  proof (intro conjI)
    show "wrap64 (credited ?p + owed s ?p + waiting s) = wrap64 due" by (simp add: bal eq)
    show "inflight s = None \<longrightarrow> lastseq ?p = seqno s" using inv q cur by (auto simp: dinv_def last)
    show "\<forall>(q', ys) \<in> set up. 0 < q' \<and> lastseq ?p \<le> q' \<and> q' \<le> seqno s \<and> (lastseq ?p < q' \<longrightarrow> q' = seqno s \<and> inflight s = Some ys)"
      using inv up(2) q(2) by (fastforce simp: dinv_def last)
    show "\<forall>q' \<in> set (down @ ds). q' \<le> lastseq ?p" using inv q(2) that by (auto simp: dinv_def last)
  qed (use inv q up in \<open>auto simp: dinv_def last ingest_rinv [OF r]\<close>)
  from this [of "[q]"] this [of "[]"]
  show "dinv s ?p up (down @ [q]) due" "dinv s ?p up down due" by simp_all
qed

lemma dinv_ack:
  assumes inv: "dinv s p up (q # down) due"
  shows "dinv (ack q s) p up down due"
proof (cases "q = seqno s")
  case True
  with inv have l: "lastseq p = seqno s" by (fastforce simp: dinv_def)
  have "owed (ack q s) p = owed s p" using l by (simp add: owed_ack)
  moreover have "\<forall>(q', ys) \<in> set up. q' = seqno s" using inv l by (fastforce simp: dinv_def)
  ultimately show ?thesis
    using inv l by (fastforce simp: dinv_def ack_sinv ack_seqno ack_waiting ack_inflight True)
next
  case False
  then show ?thesis
    using inv by (simp add: dinv_def ack_sinv ack_seqno ack_waiting ack_inflight owed_ack)
qed

text \<open>A dying connection may lose what was sent last, in either direction.\<close>

lemma dinv_lost: "dinv s p up down due \<Longrightarrow> dinv s p (take k up) (take j down) due"
  unfolding dinv_def by (auto simp: take_map [symmetric] dest: in_set_takeD)

lemma dinv_disconnect: "dinv s p up down due \<Longrightarrow> dinv s p [] [] due"
  by (simp add: dinv_def)

text \<open>Anything that leaves the receiver's books and the sequence number alone.\<close>

lemma dinv_other:
  "dinv s p up down due \<Longrightarrow> rinv p' \<Longrightarrow> lastseq p' = lastseq p \<Longrightarrow> credited p' = credited p \<Longrightarrow> dinv s p' up down due"
  using owed_other [of p' p s] by (simp add: dinv_def)

lemma dinv_start:
  "sinv s \<Longrightarrow> rinv p \<Longrightarrow> inflight s = None \<Longrightarrow> 0 \<le> lastseq p \<Longrightarrow> lastseq p = seqno s \<Longrightarrow> dinv s p [] [] (credited p + waiting s)"
  by (simp add: dinv_def owed_def)

lemma dinv_settled:
  "dinv s p up down due \<Longrightarrow> inflight s = None \<Longrightarrow> waiting s = 0 \<Longrightarrow> wrap64 (credited p) = wrap64 due"
  by (simp add: dinv_def owed_def)

lemma dinv_books: "dinv s p up down due \<Longrightarrow> wrap64 (credited p + owed s p + waiting s) = wrap64 due"
  by (simp add: dinv_def)

end

end
