(* ===== verification/Delivery.thy ===== *)
theory Delivery
  imports Protocol Pending Hub_Inv
begin

text \<open>
  Traffic accounting end to end. The contracts of \<open>Protocol\<close> are interpreted on the agent's buffer and
  on what \<open>ingestTraffic\<close> does to the store, per direction of traffic; \<open>dstep\<close> is the system of one agent,
  its websocket and the panel, with lost connections, lost acknowledgements and restarts of either side.
\<close>

section \<open>The panel's books\<close>

text \<open>What \<open>ingestTraffic\<close> does to the store.\<close>

definition ingest_store :: "int64 \<Rightarrow> int64 \<Rightarrow> int64 \<Rightarrow> TrafficItem list \<Rightarrow> Store \<Rightarrow> Store" where
  "ingest_store nodeID now seq items s =
     (case NodeTrafficSeq nodeID s of
        Inl _ \<Rightarrow> s
      | Inr lastSeq \<Rightarrow>
          if seq \<noteq> 0 \<and> seq = lastSeq then s
          else
            let s' = fst (fold (ingest_item now nodeID (allowed_users (UsersForNode nodeID s))) items (s, 0, 0))
            in if seq \<noteq> 0 then SetNodeTrafficSeq nodeID seq s' else s')"

lemma store_ingestTraffic: "store (ingestTraffic now n seq items a) = ingest_store n now seq items (store a)"
  by (auto simp: ingestTraffic_def ingest_store_def Let_def split: sum.splits prod.splits)

text \<open>The total a node has credited to a user, by direction.\<close>

definition credit_up :: "int64 \<Rightarrow> int64 \<Rightarrow> Store \<Rightarrow> int" where
  "credit_up u n s = sum_for (\<lambda>r. ntUser r = u \<and> ntNode r = n) ntUp (node_traffic s)"

definition credit_down :: "int64 \<Rightarrow> int64 \<Rightarrow> Store \<Rightarrow> int" where
  "credit_down u n s = sum_for (\<lambda>r. ntUser r = u \<and> ntNode r = n) ntDown (node_traffic s)"

definition last_seq :: "int64 \<Rightarrow> Store \<Rightarrow> int" where
  "last_seq n s = (case NodeTrafficSeq n s of Inl _ \<Rightarrow> 0 | Inr q \<Rightarrow> q)"

definition assigned :: "int64 \<Rightarrow> string \<Rightarrow> int64 \<Rightarrow> Store \<Rightarrow> bool" where
  "assigned u e n s \<longleftrightarrow> store_ok s \<and> n \<in> nrID ` set (nodes s) \<and> (u, n) \<in> set (user_nodes s) \<and>
     (\<exists>r \<in> set (users s). urID r = u \<and> urUsername r = e)"

subsection \<open>Who may be credited\<close>

lemma map_of_fold_set:
  "distinct (map f us) \<Longrightarrow>
   map_of (fold (\<lambda>u. gomap_set (f u) (g u)) us m) k =
     (case find (\<lambda>u. f u = k) us of None \<Rightarrow> map_of m k | Some u \<Rightarrow> Some (g u))"
proof (induction us arbitrary: m)
  case (Cons x us)
  have "find (\<lambda>u. f u = k) us = None" if "f x = k"
    using Cons.prems that by (simp add: find_None_notin)
  with Cons show ?case by (cases "f x = k") (auto split: option.splits)
qed simp

lemma distinct_map_sort_key: "distinct (map f xs) \<Longrightarrow> distinct (map f (sort_key g xs))"
  by (simp add: distinct_map)

lemma set_UsersForNode:
  "set (UsersForNode n s) = scanUser ` {r \<in> set (users s). (urID r, n) \<in> set (user_nodes s)}"
  by (simp add: UsersForNode_def)

lemma distinct_UsersForNode: "users_ok s \<Longrightarrow> distinct (map uUsername (UsersForNode n s))"
  by (simp add: UsersForNode_def users_ok_def comp_def distinct_map_filter distinct_map_sort_key)

lemma allowed_lookup:
  assumes "users_ok s"
  shows "map_of (allowed_users (UsersForNode n s)) e = Some u \<longleftrightarrow>
    (\<exists>r \<in> set (users s). urID r = u \<and> urUsername r = e \<and> (u, n) \<in> set (user_nodes s))"
proof -
  have "map_of (allowed_users (UsersForNode n s)) e = map_option uID (find (\<lambda>x. uUsername x = e) (UsersForNode n s))"
    using map_of_fold_set [OF distinct_UsersForNode [OF assms, of n], of uID "[]" e]
    by (simp add: allowed_users_def split: option.splits)
  then have "map_of (allowed_users (UsersForNode n s)) e = Some u \<longleftrightarrow>
      (\<exists>x \<in> set (UsersForNode n s). uUsername x = e \<and> uID x = u)"
    using find_Some_unique_iff [OF distinct_UsersForNode [OF assms, of n], of e] by auto
  then show ?thesis by (auto simp: set_UsersForNode)
qed

text \<open>No e-mail other than a user's own leads to the user.\<close>

lemma allowed_only:
  assumes "assigned u e n s" "users_ok s"
  shows "map_of (allowed_users (UsersForNode n s)) e' = Some u \<longleftrightarrow> e' = e"
proof -
  from assms obtain r where r: "r \<in> set (users s)" "urID r = u" "urUsername r = e" "(u, n) \<in> set (user_nodes s)"
    by (auto simp: assigned_def)
  have "r' = r" if "r' \<in> set (users s)" "urID r' = u" for r'
    using that r assms(2) by (auto simp: users_ok_def distinct_map inj_on_def)
  with r show ?thesis unfolding allowed_lookup [OF assms(2)] by blast
qed

subsection \<open>What ingestion keeps\<close>

lemma AddTraffic_frame [simp]:
  "nodes (AddTraffic now u n up down s) = nodes s" "user_nodes (AddTraffic now u n up down s) = user_nodes s"
  by (simp_all add: AddTraffic_def Let_def)

lemma AddTraffic_users:
  "(\<exists>r \<in> set (users (AddTraffic now u' n' up down s)). urID r = u \<and> urUsername r = e) \<longleftrightarrow>
   (\<exists>r \<in> set (users s). urID r = u \<and> urUsername r = e)"
  by (simp add: AddTraffic_def Let_def bex_sql_update) (metis user_row.select_convs(1,2) user_row.surjective user_row.update_convs(6))

lemma assigned_AddTraffic: "assigned u e n s \<Longrightarrow> assigned u e n (AddTraffic now u' n' up down s)"
  by (simp add: assigned_def AddTraffic_users store_ok_AddTraffic)

lemma credit_AddTraffic:
  "credit_up u n (AddTraffic now u' n' up down s) = credit_up u n s + (if u' = u \<and> n' = n then up else 0)"
  "credit_down u n (AddTraffic now u' n' up down s) = credit_down u n s + (if u' = u \<and> n' = n then down else 0)"
  using sum_put_node_traffic [of "\<lambda>a b. a = u \<and> b = n" now u' n' up down "node_traffic s"]
  by (simp_all add: credit_up_def credit_down_def AddTraffic_def Let_def)

text \<open>The loop over a batch, for any property of the store that crediting keeps.\<close>

lemma ingest_fold_inv:
  assumes "P s" "\<And>u' up down s. P s \<Longrightarrow> P (AddTraffic now u' n up down s)"
  shows "P (fst (fold (ingest_item now n al) items (s, a, b)))"
  using assms(1)
proof (induction items arbitrary: s a b)
  case (Cons it items)
  then show ?case by (auto simp: ingest_item_def assms(2) split: option.splits)
qed simp

lemma ingest_fold_credit:
  assumes "\<And>e'. map_of al e' = Some u \<longleftrightarrow> e' = e"
  shows "credit_up u n (fst (fold (ingest_item now n al) items (s, a, b))) = credit_up u n s + email_up e items"
    "credit_down u n (fst (fold (ingest_item now n al) items (s, a, b))) = credit_down u n s + email_down e items"
proof (induction items arbitrary: s a b)
  case (Cons it items)
  have item: "fst (ingest_item now n al it (s, a, b)) =
      (if tiUp it = 0 \<and> tiDown it = 0 then s
       else case map_of al (tiEmail it) of None \<Rightarrow> s | Some v \<Rightarrow> AddTraffic now v n (tiUp it) (tiDown it) s)" for s a b
    by (simp add: ingest_item_def split: option.splits)
  have up: "credit_up u n (fst (ingest_item now n al it (s, a, b))) = credit_up u n s + (if tiEmail it = e then tiUp it else 0)"
   and down: "credit_down u n (fst (ingest_item now n al it (s, a, b))) = credit_down u n s + (if tiEmail it = e then tiDown it else 0)" for s a b
    unfolding item using assms [of "tiEmail it"] by (auto simp: credit_AddTraffic split: option.splits)
  { case 1 show ?case using Cons.IH(1) up [of s a b] by (cases "ingest_item now n al it (s, a, b)") simp
  next case 2 show ?case using Cons.IH(2) down [of s a b] by (cases "ingest_item now n al it (s, a, b)") simp }
qed simp_all

lemma SetNodeTrafficSeq_frame [simp]:
  "users (SetNodeTrafficSeq m q s) = users s" "user_nodes (SetNodeTrafficSeq m q s) = user_nodes s"
  "nrID ` set (nodes (SetNodeTrafficSeq m q s)) = nrID ` set (nodes s)"
  by (simp_all add: SetNodeTrafficSeq_def flip: set_map)

lemma assigned_SetNodeTrafficSeq: "assigned u e n s \<Longrightarrow> assigned u e n (SetNodeTrafficSeq m q s)"
  by (simp add: assigned_def store_ok_SetNodeTrafficSeq)

lemma assigned_ingest: "assigned u e n s \<Longrightarrow> assigned u e n (ingest_store m now seq items s)"
  using ingest_fold_inv [of "assigned u e n" s now m]
  by (auto simp: ingest_store_def Let_def assigned_AddTraffic assigned_SetNodeTrafficSeq split: sum.splits)

lemma NodeTrafficSeq_Set:
  assumes "n \<in> nrID ` set (nodes s)"
  shows "NodeTrafficSeq n (SetNodeTrafficSeq n q s) = Inr q"
proof -
  have "find (\<lambda>r. nrID r = n) (nodes s) \<noteq> None" using assms by (auto simp: find_None_iff)
  then show ?thesis
    by (auto simp: NodeTrafficSeq_def SetNodeTrafficSeq_def query_row_def find_sql_update split: option.splits dest: find_key_eq)
qed

lemma NodeTrafficSeq_known: "assigned u e n s \<Longrightarrow> NodeTrafficSeq n s = Inr (last_seq n s)"
  by (auto simp: last_seq_def assigned_def NodeTrafficSeq_def query_row_def find_None_iff split: option.splits)

lemma credit_SetNodeTrafficSeq [simp]:
  "credit_up u n (SetNodeTrafficSeq m q s) = credit_up u n s" "credit_down u n (SetNodeTrafficSeq m q s) = credit_down u n s"
  by (simp_all add: SetNodeTrafficSeq_def credit_up_def credit_down_def)

lemma ingest_last_seq:
  assumes "assigned u e n s" "seq \<noteq> 0"
  shows "last_seq n (ingest_store n now seq items s) = seq"
proof -
  have "NodeTrafficSeq n (SetNodeTrafficSeq n seq (fst (fold (ingest_item now n al) items (s, 0, 0)))) = Inr seq" for al
    using ingest_fold_inv [where P = "assigned u e n", OF assms(1) assigned_AddTraffic, of now n al items 0 0]
    by (intro NodeTrafficSeq_Set) (simp add: assigned_def)
  with assms NodeTrafficSeq_known [OF assms(1)] show ?thesis
    by (auto simp: ingest_store_def last_seq_def Let_def split: sum.splits)
qed

lemma ingest_credit:
  assumes "assigned u e n s"
  shows "credit_up u n (ingest_store n now seq items s) =
      (if seq \<noteq> 0 \<and> seq = last_seq n s then credit_up u n s else credit_up u n s + email_up e items)"
    "credit_down u n (ingest_store n now seq items s) =
      (if seq \<noteq> 0 \<and> seq = last_seq n s then credit_down u n s else credit_down u n s + email_down e items)"
proof -
  have "map_of (allowed_users (UsersForNode n s)) e' = Some u \<longleftrightarrow> e' = e" for e'
    using assms by (intro allowed_only) (auto simp: assigned_def store_ok_def)
  note fold = ingest_fold_credit [OF this]
  show "credit_up u n (ingest_store n now seq items s) =
      (if seq \<noteq> 0 \<and> seq = last_seq n s then credit_up u n s else credit_up u n s + email_up e items)"
    "credit_down u n (ingest_store n now seq items s) =
      (if seq \<noteq> 0 \<and> seq = last_seq n s then credit_down u n s else credit_down u n s + email_down e items)"
    by (auto simp: ingest_store_def NodeTrafficSeq_known [OF assms] Let_def fold)
qed

section \<open>The agent's buffer as a sender\<close>

definition s_inv :: "pending_state \<Rightarrow> bool" where
  "s_inv s \<longleftrightarrow> pending_ok (fst s) \<and> synced s \<and> ptPath (fst s) \<noteq> ''''"

definition s_inflight :: "pending_state \<Rightarrow> TrafficItem list option" where
  "s_inflight s = (if FlightAt (fst s) then Some (flight_items (Flight (fst s))) else None)"

abbreviation s_seq :: "pending_state \<Rightarrow> int" where
  "s_seq s \<equiv> Seq (fst s)"

lemma flight_items_Nil [simp]: "flight_items m = [] \<longleftrightarrow> m = []"
  by (simp add: flight_items_def)

lemma s_inv_ops:
  assumes "s_inv s"
  shows "s_inv (collect True xs s)" "s_inv (snd (batch True s))" "s_inv (ack True q s)"
  using assms unfolding s_inv_def by (simp_all add: synced_ops)

lemma collect_views:
  "Seq (fst (collect True xs s)) = Seq (fst s)" "s_inflight (collect True xs s) = s_inflight s"
  "Pend (fst (collect True xs s)) = mergeInto (Pend (fst s)) xs"
  by (cases s; cases xs; simp add: s_inflight_def Let_def)+

lemma batch_views:
  assumes "pending_ok (fst s)" "batch True s = ((q, f, ok), s')"
  shows "case s_inflight s of
      Some g \<Rightarrow> q = Seq (fst s) \<and> f = g \<and> ok \<and> s' = s
    | None \<Rightarrow> (if Pend (fst s) = [] then \<not> ok \<and> s' = s
               else ok \<and> q = wrap64 (Seq (fst s) + 1) \<and> Seq (fst s') = q \<and> f = flight_items (Pend (fst s)) \<and>
                    s_inflight s' = Some f \<and> Pend (fst s') = [])"
  using assms by (cases s) (auto simp: s_inflight_def pending_ok_def Let_def split: if_splits)

lemma ack_views:
  "Seq (fst (ack True q s)) = Seq (fst s)" "Pend (fst (ack True q s)) = Pend (fst s)"
  "s_inflight (ack True q s) = (if q = Seq (fst s) then None else s_inflight s)"
  by (cases s; simp add: s_inflight_def Let_def)+

lemma sender_laws:
  assumes merge: "\<And>m xs. pmap_ok m \<Longrightarrow> wrap64 (w (mergeInto m xs)) = wrap64 (w m + am xs)"
    and nil: "w [] = 0" and items: "\<And>m. gomap_wf m \<Longrightarrow> am (flight_items m) = w m"
  shows "traffic_sender (collect True) (batch True) (ack True) s_inv s_seq s_inflight (\<lambda>s. w (Pend (fst s))) am"
proof
  fix s s' :: pending_state and xs f q and g
  { show "s_inv s \<Longrightarrow> s_inv (collect True xs s)" by (rule s_inv_ops) }
  { show "s_inv s \<Longrightarrow> s_inv (ack True q s)" by (rule s_inv_ops) }
  show "Seq (fst (collect True xs s)) = Seq (fst s)" "s_inflight (collect True xs s) = s_inflight s"
    by (simp_all add: collect_views)
  show "s_inv s \<Longrightarrow> wrap64 (w (Pend (fst (collect True xs s)))) = wrap64 (w (Pend (fst s)) + am xs)"
    by (simp add: collect_views merge s_inv_def pending_ok_def)
  show "s_inv s \<Longrightarrow> s_inflight s = Some g \<Longrightarrow> batch True s = ((Seq (fst s), g, True), s)"
    using batch_views [of s] by (cases "batch True s") (auto simp: s_inv_def)
  show "s_inv s \<Longrightarrow> s_inflight s = None \<Longrightarrow> batch True s = ((q, f, False), s') \<Longrightarrow> s' = s \<and> w (Pend (fst s)) = 0"
    using batch_views [of s q f False s'] by (auto simp: s_inv_def nil split: if_splits)
  show "s_inv s \<Longrightarrow> s_inflight s = None \<Longrightarrow> batch True s = ((q, f, True), s') \<Longrightarrow>
      s_inv s' \<and> q = wrap64 (Seq (fst s) + 1) \<and> Seq (fst s') = q \<and> s_inflight s' = Some f \<and>
      w (Pend (fst s')) = 0 \<and> wrap64 (am f) = wrap64 (w (Pend (fst s)))"
    using batch_views [of s q f True s'] s_inv_ops(2) [of s]
    by (auto simp: s_inv_def pending_ok_def pmap_ok_def nil items split: if_splits)
  show "Seq (fst (ack True q s)) = Seq (fst s)" "w (Pend (fst (ack True q s))) = w (Pend (fst s))"
    "s_inflight (ack True q s) = (if q = Seq (fst s) then None else s_inflight s)"
    by (simp_all add: ack_views)
qed

interpretation up: delivery "collect True" "batch True" "ack True" s_inv s_seq s_inflight
    "\<lambda>s. pm_up (Pend (fst s)) e" "email_up e" "ingest_store n" "assigned u e n" "last_seq n" "credit_up u n" for u e n
proof (rule delivery.intro)
  show "traffic_sender (collect True) (batch True) (ack True) s_inv s_seq s_inflight (\<lambda>s. pm_up (Pend (fst s)) e) (email_up e)"
    by (rule sender_laws) (auto simp: pm_mergeInto)
  show "traffic_receiver (ingest_store n) (assigned u e n) (last_seq n) (credit_up u n) (email_up e)"
    by unfold_locales (auto simp: assigned_ingest ingest_last_seq ingest_credit)
qed

interpretation down: delivery "collect True" "batch True" "ack True" s_inv s_seq s_inflight
    "\<lambda>s. pm_down (Pend (fst s)) e" "email_down e" "ingest_store n" "assigned u e n" "last_seq n" "credit_down u n" for u e n
proof (rule delivery.intro)
  show "traffic_sender (collect True) (batch True) (ack True) s_inv s_seq s_inflight (\<lambda>s. pm_down (Pend (fst s)) e) (email_down e)"
    by (rule sender_laws) (auto simp: pm_mergeInto)
  show "traffic_receiver (ingest_store n) (assigned u e n) (last_seq n) (credit_down u n) (email_down e)"
    by unfold_locales (auto simp: assigned_ingest ingest_last_seq ingest_credit)
qed

section \<open>The system\<close>

text \<open>
  \<open>wireUp\<close> holds the traffic frames of the current websocket, \<open>wireDown\<close> its acknowledgements; \<open>got\<close> is
  everything the agent ever read from the engine's counters.
\<close>

record dsys =
  agent :: pending_state
  panel :: Store
  wireUp :: "(int64 \<times> TrafficItem list) list"
  wireDown :: "int64 list"
  got :: "TrafficItem list"

text \<open>
  The steps of the stats loop and the session of the agent (\<open>agent.go\<close>) and of the panel's read loop
  (\<open>hub.go\<close>). An acknowledgement may be dropped because the write queue is full; a connection that
  breaks loses what was sent last, a new one starts empty; a restarted agent reloads its buffer; the panel may do
  anything else that keeps the user assigned and leaves this node's books for the user alone.
\<close>

inductive dstep :: "int64 \<Rightarrow> string \<Rightarrow> int64 \<Rightarrow> dsys \<Rightarrow> dsys \<Rightarrow> bool" for u e n where
  stats: "dstep u e n d (d\<lparr>agent := collect True xs (agent d), got := got d @ xs\<rparr>)"
| send: "batch True (agent d) = ((q, f, ok), s') \<Longrightarrow> s_seq (agent d) < max_int64 \<Longrightarrow>
    dstep u e n d (d\<lparr>agent := s', wireUp := (if ok then wireUp d @ [(q, f)] else wireUp d)\<rparr>)"
| deliver: "wireUp d = (q, f) # w \<Longrightarrow>
    dstep u e n d (d\<lparr>panel := ingest_store n now q f (panel d), wireUp := w, wireDown := wireDown d @ [q]\<rparr>)"
| deliver_ack_dropped: "wireUp d = (q, f) # w \<Longrightarrow>
    dstep u e n d (d\<lparr>panel := ingest_store n now q f (panel d), wireUp := w\<rparr>)"
| acked: "wireDown d = q # w \<Longrightarrow> dstep u e n d (d\<lparr>agent := ack True q (agent d), wireDown := w\<rparr>)"
| lost: "dstep u e n d (d\<lparr>wireUp := take k (wireUp d), wireDown := take j (wireDown d)\<rparr>)"
| reconnect: "dstep u e n d (d\<lparr>wireUp := [], wireDown := []\<rparr>)"
| restart: "dstep u e n d (d\<lparr>agent := (loadPending (ptPath (fst (agent d))) (snd (agent d)), snd (agent d)), wireUp := [], wireDown := []\<rparr>)"
| panel_other: "assigned u e n s' \<Longrightarrow> last_seq n s' = last_seq n (panel d) \<Longrightarrow>
    credit_up u n s' = credit_up u n (panel d) \<Longrightarrow> credit_down u n s' = credit_down u n (panel d) \<Longrightarrow>
    dstep u e n d (d\<lparr>panel := s'\<rparr>)"

inductive_cases dstepE: "dstep u e n d d'"

definition dstart :: "int64 \<Rightarrow> string \<Rightarrow> int64 \<Rightarrow> dsys \<Rightarrow> bool" where
  "dstart u e n d \<longleftrightarrow> s_inv (agent d) \<and> assigned u e n (panel d) \<and> \<not> FlightAt (fst (agent d)) \<and>
     0 \<le> last_seq n (panel d) \<and> last_seq n (panel d) = s_seq (agent d) \<and> wireUp d = [] \<and> wireDown d = [] \<and> got d = []"

text \<open>What the batch in flight still has to be credited for.\<close>

definition unacked_up :: "int64 \<Rightarrow> string \<Rightarrow> dsys \<Rightarrow> int" where
  "unacked_up n e d = (if FlightAt (fst (agent d)) \<and> last_seq n (panel d) \<noteq> s_seq (agent d) then pm_up (Flight (fst (agent d))) e else 0)"

definition unacked_down :: "int64 \<Rightarrow> string \<Rightarrow> dsys \<Rightarrow> int" where
  "unacked_down n e d = (if FlightAt (fst (agent d)) \<and> last_seq n (panel d) \<noteq> s_seq (agent d) then pm_down (Flight (fst (agent d))) e else 0)"

abbreviation up_inv :: "int64 \<Rightarrow> string \<Rightarrow> int64 \<Rightarrow> dsys \<Rightarrow> int \<Rightarrow> bool" where
  "up_inv u e n d due \<equiv> up.dinv e u n (agent d) (panel d) (wireUp d) (wireDown d) due"

abbreviation down_inv :: "int64 \<Rightarrow> string \<Rightarrow> int64 \<Rightarrow> dsys \<Rightarrow> int \<Rightarrow> bool" where
  "down_inv u e n d due \<equiv> down.dinv e u n (agent d) (panel d) (wireUp d) (wireDown d) due"

lemma restart_id: "s_inv s \<Longrightarrow> (loadPending (ptPath (fst s)) (snd s), snd s) = s"
  by (cases s) (simp add: s_inv_def synced_def)

lemma dstep_inv:
  assumes "dstep u e n d d'"
  shows "up_inv u e n d (base + email_up e (got d)) \<Longrightarrow> up_inv u e n d' (base + email_up e (got d'))"
    and "down_inv u e n d (base + email_down e (got d)) \<Longrightarrow> down_inv u e n d' (base + email_down e (got d'))"
  using assms
proof (induction rule: dstep.induct)
  case (stats d xs)
  { case 1 then show ?case using up.dinv_collect [OF 1, of xs] by (simp add: add.assoc)
  next case 2 then show ?case using down.dinv_collect [OF 2, of xs] by (simp add: add.assoc) }
next
  case (send d q f ok s')
  { case 1 with send show ?case using up.dinv_batch [OF 1 send(1,2)] by simp
  next case 2 with send show ?case using down.dinv_batch [OF 2 send(1,2)] by simp }
next
  case (deliver d q f w now)
  { case 1 with deliver show ?case using up.dinv_deliver(1) [of e u n "agent d" "panel d" q f w] by simp
  next case 2 with deliver show ?case using down.dinv_deliver(1) [of e u n "agent d" "panel d" q f w] by simp }
next
  case (deliver_ack_dropped d q f w now)
  { case 1 with deliver_ack_dropped show ?case using up.dinv_deliver(2) [of e u n "agent d" "panel d" q f w] by simp
  next case 2 with deliver_ack_dropped show ?case using down.dinv_deliver(2) [of e u n "agent d" "panel d" q f w] by simp }
next
  case (acked d q w)
  { case 1 with acked show ?case using up.dinv_ack [of e u n "agent d" "panel d" _ q w] by simp
  next case 2 with acked show ?case using down.dinv_ack [of e u n "agent d" "panel d" _ q w] by simp }
next
  case (lost d k j)
  { case 1 then show ?case using up.dinv_lost [OF 1] by simp
  next case 2 then show ?case using down.dinv_lost [OF 2] by simp }
next
  case (reconnect d)
  { case 1 then show ?case using up.dinv_disconnect [OF 1] by simp
  next case 2 then show ?case using down.dinv_disconnect [OF 2] by simp }
next
  case (restart d)
  { case 1 then show ?case using up.dinv_disconnect [OF 1] restart_id [of "agent d"] by (simp add: up.dinv_def)
  next case 2 then show ?case using down.dinv_disconnect [OF 2] restart_id [of "agent d"] by (simp add: down.dinv_def) }
next
  case (panel_other s' d)
  { case 1 with panel_other show ?case using up.dinv_other [OF 1, of s'] by simp
  next case 2 with panel_other show ?case using down.dinv_other [OF 2, of s'] by simp }
qed

lemma dreach_inv:
  assumes "dstart u e n d0" "(dstep u e n)\<^sup>*\<^sup>* d0 d"
  shows "up_inv u e n d (credit_up u n (panel d0) + pm_up (Pend (fst (agent d0))) e + email_up e (got d))"
    and "down_inv u e n d (credit_down u n (panel d0) + pm_down (Pend (fst (agent d0))) e + email_down e (got d))"
  using assms(2)
proof (induction rule: rtranclp_induct)
  case base
  have "s_inflight (agent d0) = None" using assms(1) by (simp add: dstart_def s_inflight_def)
  note start = up.dinv_start [OF _ _ this, of u e n "panel d0"] down.dinv_start [OF _ _ this, of u e n "panel d0"]
  { case 1 show ?case using assms(1) start(1) by (simp add: dstart_def)
  next case 2 show ?case using assms(1) start(2) by (simp add: dstart_def) }
next
  case (step d d')
  { case 1 show ?case using dstep_inv(1) [OF step(2)] step.IH(1) by blast
  next case 2 show ?case using dstep_inv(2) [OF step(2)] step.IH(2) by blast }
qed

lemma owed_eq:
  assumes "s_inv (agent d)"
  shows "up.owed e n (agent d) (panel d) = unacked_up n e d" "down.owed e n (agent d) (panel d) = unacked_down n e d"
  using assms
  by (auto simp: up.owed_def down.owed_def unacked_up_def unacked_down_def s_inflight_def s_inv_def pending_ok_def pmap_ok_def)

lemma books_balance:
  assumes "dstart u e n d0" "(dstep u e n)\<^sup>*\<^sup>* d0 d"
  shows "wrap64 (credit_up u n (panel d) + unacked_up n e d + pm_up (Pend (fst (agent d))) e) =
      wrap64 (credit_up u n (panel d0) + pm_up (Pend (fst (agent d0))) e + email_up e (got d))"
    "wrap64 (credit_down u n (panel d) + unacked_down n e d + pm_down (Pend (fst (agent d))) e) =
      wrap64 (credit_down u n (panel d0) + pm_down (Pend (fst (agent d0))) e + email_down e (got d))"
proof -
  note inv = dreach_inv [OF assms]
  then have s: "s_inv (agent d)" by (simp add: up.dinv_def)
  show "wrap64 (credit_up u n (panel d) + unacked_up n e d + pm_up (Pend (fst (agent d))) e) =
      wrap64 (credit_up u n (panel d0) + pm_up (Pend (fst (agent d0))) e + email_up e (got d))"
    "wrap64 (credit_down u n (panel d) + unacked_down n e d + pm_down (Pend (fst (agent d))) e) =
      wrap64 (credit_down u n (panel d0) + pm_down (Pend (fst (agent d0))) e + email_down e (got d))"
    using up.dinv_books [OF inv(1)] down.dinv_books [OF inv(2)] by (simp_all add: owed_eq [OF s])
qed

section \<open>Progress\<close>

text \<open>
  Over a working connection one round (send, deliver, acknowledge) settles the batch in flight and
  takes the buffer along.
\<close>

lemma three_steps: "r a b \<Longrightarrow> r b c \<Longrightarrow> r c d \<Longrightarrow> r\<^sup>*\<^sup>* a d"
  by (metis converse_rtranclp_into_rtranclp r_into_rtranclp)

lemma round_settles:
  assumes inv: "up_inv u e n d due" and clear: "wireUp d = []" "wireDown d = []"
    and room: "s_seq (agent d) < max_int64" and b: "batch True (agent d) = ((q, f, True), s')"
  obtains d' where "(dstep u e n)\<^sup>*\<^sup>* d d'" "agent d' = ack True (s_seq s') s'" "wireUp d' = []" "wireDown d' = []" "got d' = got d"
proof -
  let ?d1 = "d\<lparr>agent := s', wireUp := [(q, f)]\<rparr>"
  let ?d2 = "?d1\<lparr>panel := ingest_store n 0 q f (panel ?d1), wireUp := [], wireDown := [q]\<rparr>"
  let ?d3 = "?d2\<lparr>agent := ack True q s', wireDown := []\<rparr>"
  have q: "q = s_seq s'"
    using b inv batch_views [of "agent d" q f True s'] by (auto simp: up.dinv_def s_inv_def split: option.splits if_splits)
  have 1: "dstep u e n d ?d1" using dstep.send [OF b room, of u e n] clear by simp
  have 2: "dstep u e n ?d1 ?d2" using dstep.deliver [of ?d1 q f "[]" u e n 0] clear by simp
  have 3: "dstep u e n ?d2 ?d3" using dstep.acked [of ?d2 q "[]" u e n] by simp
  have "(dstep u e n)\<^sup>*\<^sup>* d ?d3"
    by (rule three_steps [of "dstep u e n", OF 1 2 3])
  then show thesis using that [of ?d3] q by simp
qed

lemma drain_idle:
  assumes inv: "up_inv u e n d due" and clear: "wireUp d = []" "wireDown d = []"
    and room: "s_seq (agent d) < max_int64" and idle: "\<not> FlightAt (fst (agent d))"
  obtains d' where "(dstep u e n)\<^sup>*\<^sup>* d d'" "\<not> FlightAt (fst (agent d'))" "Pend (fst (agent d')) = []" "got d' = got d"
proof (cases "Pend (fst (agent d)) = []")
  case True
  with idle that [of d] show thesis by simp
next
  case False
  obtain q f ok s' where b: "batch True (agent d) = ((q, f, ok), s')" by (metis prod.exhaust)
  have ok: "ok" "Pend (fst s') = []"
    using batch_views [OF _ b] inv idle False by (auto simp: up.dinv_def s_inv_def s_inflight_def)
  with b have b': "batch True (agent d) = ((q, f, True), s')" by simp
  obtain d' where d': "(dstep u e n)\<^sup>*\<^sup>* d d'" "agent d' = ack True (s_seq s') s'" "got d' = got d"
    by (rule round_settles [OF inv clear room b'])
  moreover have "\<not> FlightAt (fst (agent d'))" "Pend (fst (agent d')) = []"
    using ok(2) d'(2) by (cases s'; simp add: Let_def)+
  ultimately show thesis using that by blast
qed

lemma dreach_keeps:
  assumes "(dstep u e n)\<^sup>*\<^sup>* d d'" "up_inv u e n d (base + email_up e (got d))"
  shows "up_inv u e n d' (base + email_up e (got d'))"
  using assms by (induction rule: rtranclp_induct) (auto intro: dstep_inv(1))

lemma drain:
  assumes inv: "up_inv u e n d (base + email_up e (got d))" and room: "s_seq (agent d) < max_int64"
  obtains d' where "(dstep u e n)\<^sup>*\<^sup>* d d'" "\<not> FlightAt (fst (agent d'))" "Pend (fst (agent d')) = []" "got d' = got d"
proof -
  let ?d = "d\<lparr>wireUp := [], wireDown := []\<rparr>"
  have re: "dstep u e n d ?d" by (rule dstep.reconnect)
  have inv': "up_inv u e n ?d (base + email_up e (got ?d))" using up.dinv_disconnect [OF inv] by simp
  show thesis
  proof (cases "FlightAt (fst (agent d))")
    case False
    obtain d' where "(dstep u e n)\<^sup>*\<^sup>* ?d d'" "\<not> FlightAt (fst (agent d'))" "Pend (fst (agent d')) = []" "got d' = got d"
      by (rule drain_idle [OF inv']) (use room False in auto)
    then show thesis using that [of d'] re by (meson converse_rtranclp_into_rtranclp)
  next
    case True
    then have b: "batch True (agent ?d) = ((s_seq (agent d), flight_items (Flight (fst (agent d))), True), agent d)"
      using inv up.batch_resend [of "agent d" "flight_items (Flight (fst (agent d)))"]
      by (simp add: up.dinv_def s_inflight_def)
    obtain d1 where d1: "(dstep u e n)\<^sup>*\<^sup>* ?d d1" "agent d1 = ack True (s_seq (agent d)) (agent d)"
      "wireUp d1 = []" "wireDown d1 = []" "got d1 = got d"
      by (rule round_settles [OF inv' _ _ _ b]) (use room in auto)
    have idle: "\<not> FlightAt (fst (agent d1))" "s_seq (agent d1) = s_seq (agent d)"
      using d1(2) by (cases "agent d"; simp add: Let_def)+
    have "up_inv u e n d1 (base + email_up e (got d1))" by (rule dreach_keeps [OF d1(1) inv'])
    then obtain d' where d': "(dstep u e n)\<^sup>*\<^sup>* d1 d'" "\<not> FlightAt (fst (agent d'))" "Pend (fst (agent d')) = []" "got d' = got d1"
      by (rule drain_idle) (use d1 idle room in auto)
    have "(dstep u e n)\<^sup>*\<^sup>* d d'"
      by (rule converse_rtranclp_into_rtranclp [of "dstep u e n", OF re rtranclp_trans [OF d1(1) d'(1)]])
    with d' d1(5) that show thesis by simp
  qed
qed

section \<open>The trust boundary\<close>

lemma filter_upsert:
  assumes "\<not> Q new" "\<And>r. key r = key new \<Longrightarrow> \<not> Q r \<and> \<not> Q (upd r)"
  shows "filter Q (upsert key upd new t) = filter Q t"
  using assms by (induction t) auto

text \<open>What the store holds about one user.\<close>

definition user_books :: "int64 \<Rightarrow> Store \<Rightarrow> user_row list \<times> node_traffic_row list \<times> traffic_daily_row list \<times> device_row list" where
  "user_books u s = (filter (\<lambda>r. urID r = u) (users s), filter (\<lambda>r. ntUser r = u) (node_traffic s),
     filter (\<lambda>r. tdUser r = u) (traffic_daily s), filter (\<lambda>d. dvUser d = u) (user_devices s))"

lemma user_books_AddTraffic: "v \<noteq> u \<Longrightarrow> user_books u (AddTraffic now v n up down s) = user_books u s"
proof -
  assume v: "v \<noteq> u"
  have upd: "filter (\<lambda>r. urID r = u) (sql_update (\<lambda>r. urID r = v) f t) = filter (\<lambda>r. urID r = u) t"
    if "\<And>r. urID (f r) = urID r" for f t
    using v that by (induction t) auto
  have "filter (\<lambda>r. urID r = u) (users (AddTraffic now v n up down s)) = filter (\<lambda>r. urID r = u) (users s)"
    unfolding AddTraffic_def Let_def by simp (rule upd, simp)
  moreover have "filter (\<lambda>r. ntUser r = u) (put_node_traffic now v n up down t) = filter (\<lambda>r. ntUser r = u) t" for t
    unfolding put_node_traffic_def using v by (intro filter_upsert) auto
  moreover have "filter (\<lambda>r. tdUser r = u) (put_traffic_daily day v up down t) = filter (\<lambda>r. tdUser r = u) t" for day t
    unfolding put_traffic_daily_def using v by (intro filter_upsert) auto
  ultimately show ?thesis by (simp add: user_books_def AddTraffic_def Let_def)
qed

lemma user_books_SetNodeTrafficSeq [simp]: "user_books u (SetNodeTrafficSeq n q s) = user_books u s"
  by (simp add: user_books_def SetNodeTrafficSeq_def)

lemma user_books_UpsertDevice: "v \<noteq> u \<Longrightarrow> user_books u (UpsertDevice v n ip inb c seen s) = user_books u s"
  by (auto simp: user_books_def UpsertDevice_def intro!: filter_upsert)

lemma ingest_fold_books:
  assumes "\<And>e. map_of al e \<noteq> Some u"
  shows "user_books u (fst (fold (ingest_item now n al) items (s, a, b))) = user_books u s"
proof (induction items arbitrary: s a b)
  case (Cons it items)
  have "user_books u (fst (ingest_item now n al it (s, a, b))) = user_books u s"
    using assms [of "tiEmail it"] by (auto simp: ingest_item_def user_books_AddTraffic split: option.splits)
  with Cons show ?case by (cases "ingest_item now n al it (s, a, b)") simp
qed simp

lemma ingest_device_books:
  assumes "\<And>e. map_of al e \<noteq> Some u"
  shows "user_books u (fold (ingest_device now n al) items s) = user_books u s"
proof (induction items arbitrary: s)
  case (Cons it items)
  have "user_books u (ingest_device now n al it s) = user_books u s"
    using assms [of "diEmail it"] by (auto simp: ingest_device_def user_books_UpsertDevice Let_def split: option.splits)
  with Cons show ?case by simp
qed simp

lemma store_handleMsg_books:
  assumes ok: "store_ok (store a)" and no: "(u, ncNode (objs a ! c)) \<notin> set (user_nodes (store a))"
  shows "user_books u (store (handleMsg now c m a)) = user_books u (store a)"
proof -
  let ?n = "ncNode (objs a ! c)"
  have al: "map_of (allowed_users (UsersForNode ?n (store a))) e \<noteq> Some u" for e
    using no allowed_lookup [of "store a" ?n e u] ok by (auto simp: store_ok_def)
  have "user_books u (ingest_store ?n now (msgSeq m) (msgItems m) (store a)) = user_books u (store a)"
    by (auto simp: ingest_store_def Let_def ingest_fold_books [OF al] split: sum.splits)
  moreover have "user_books u (TouchNode now ?n (store a)) = user_books u (store a)"
    by (simp add: user_books_def TouchNode_def)
  ultimately show ?thesis
    using ingest_device_books [OF al]
    by (auto simp: handleMsg_def Let_def store_ingestTraffic setNodeMetrics_def ingestDevices_def split: option.splits)
qed

section \<open>Properties\<close>

definition demo_sys :: dsys where
  "demo_sys = \<lparr>agent = (newPending ''p'', PMissing), panel = demo_store, wireUp = [], wireDown = [], got = []\<rparr>"

definition demo_item :: TrafficItem where
  "demo_item = \<lparr>tiEmail = ''al'', tiUp = 7, tiDown = 9\<rparr>"

lemma demo_sys_start: "dstart 1 ''al'' 1 demo_sys"
  using demo_store_ok
  by (simp add: dstart_def demo_sys_def s_inv_def synced_def newPending_def pending_ok_def assigned_def last_seq_def
      NodeTrafficSeq_def query_row_def) (simp add: demo_defs)

lemma demo_books: "credit_up 1 1 (panel demo_sys) = 0" "credit_down 1 1 (panel demo_sys) = 0"
  "Pend (fst (agent demo_sys)) = []" "s_seq (agent demo_sys) = 0" "got demo_sys = []"
  by (simp_all add: demo_sys_def credit_up_def credit_down_def demo_defs newPending_def)

lemma demo_run: "\<exists>d. (dstep 1 ''al'' 1)\<^sup>*\<^sup>* demo_sys d \<and> got d = [demo_item] \<and> s_seq (agent d) = 0"
proof -
  let ?d = "demo_sys\<lparr>agent := collect True [demo_item] (agent demo_sys), got := got demo_sys @ [demo_item]\<rparr>"
  have "(dstep 1 ''al'' 1)\<^sup>*\<^sup>* demo_sys ?d" by (rule r_into_rtranclp, rule dstep.stats)
  moreover have "s_seq (agent ?d) = 0" by (simp add: collect_views demo_books)
  ultimately show ?thesis by (force simp: demo_books)
qed





text \<open>C3: The trust boundary of a node. Whatever frame an authenticated node sends (traffic for any e-mails, device reports,
  heartbeats, unknown types), the stored record of a user who is not assigned to that node does not change: not the account
  row with its counter and limits, not the per-node and per-day totals, not the device list.\<close>

theorem node_cannot_touch_foreign_users:
  assumes "panel_reach a" "(u, ncNode (objs a ! c)) \<notin> set (user_nodes (store a))"
  shows "user_books u (store (handleMsg now c m a)) = user_books u (store a)"
  using assms panel_reach_ok [OF assms(1)] by (intro store_handleMsg_books) (simp_all add: panel_ok_def)

theorem node_cannot_touch_foreign_users_witness:
  "\<exists>a m. panel_reach a \<and> msgType m = TypeTraffic \<and> user_books 2 (store (handleMsg 0 0 m a)) = user_books 2 (store a)"
proof -
  obtain a where a: "panel_reach a" "user_nodes (store a) = [(1, 1)]" by (rule demo_connected)
  have "user_books 2 (store (handleMsg 0 0 (empty_msg TypeTraffic) a)) = user_books 2 (store a)"
    by (rule node_cannot_touch_foreign_users [OF a(1)]) (simp add: a(2))
  with a(1) show ?thesis by (intro exI [of _ a] exI [of _ "empty_msg TypeTraffic"]) (simp add: empty_msg_def)
qed

text \<open>A resent batch (its number equals the last one applied) changes nothing on the panel except that an acknowledgement is queued, so a
  lost acknowledgement is repaired without double counting. The same rule drops the first batch of an agent that lost its
  buffer and starts again at number 1 when the last applied number was 1.\<close>

theorem resent_batch_only_acked:
  assumes "msgType m = TypeTraffic" "msgSeq m \<noteq> 0" "NodeTrafficSeq (ncNode (objs a ! c)) (store a) = Inr (msgSeq m)"
  shows "handleMsg now c m a = snd (trySend c ((empty_msg TypeAck)\<lparr>msgSeq := msgSeq m\<rparr>) a)"
  using assms by (simp add: handleMsg_def ingestTraffic_def msg_type_defs)

theorem resent_batch_only_acked_witness:
  "\<exists>a m. panel_reach a \<and> msgItems m = [demo_item] \<and> store (handleMsg 0 0 m a) = store a"
proof -
  obtain a0 where a0: "panel_reach a0" "map_of (conns a0) 1 = Some 0"
    "GetNode 0 1 (store a0) = Inr (scanNode 0 (store a0) (demo_node\<lparr>nrAgentVersion := ''v1''\<rparr>))" by (rule demo_connected)
  let ?m = "(empty_msg TypeTraffic)\<lparr>msgSeq := 1, msgItems := [demo_item]\<rparr>"
  let ?a = "with_store (SetNodeTrafficSeq 1 1) a0"
  have ok: "hub_ok a0" "users_valid (store a0)" using panel_reach_ok [OF a0(1)] by (simp_all add: panel_ok_def)
  have r: "panel_reach ?a"
    using ok(2) by (intro panel_reach.stepped [OF a0(1)] panel_step.stored store_step.set_seq) simp
  have "1 \<in> nrID ` set (nodes (store a0))"
    using a0(3) by (auto simp: GetNode_def query_row_def split: option.splits dest: find_key_eq)
  then have q: "NodeTrafficSeq 1 (store ?a) = Inr 1" by (simp add: NodeTrafficSeq_Set)
  have n: "ncNode (objs ?a ! 0) = 1" using hub_okD(2) [OF ok(1) a0(2)] by simp
  have "handleMsg 0 0 ?m ?a = snd (trySend 0 ((empty_msg TypeAck)\<lparr>msgSeq := msgSeq ?m\<rparr>) ?a)"
    by (rule resent_batch_only_acked) (use n q in \<open>simp_all add: empty_msg_def\<close>)
  with r show ?thesis by (intro exI [of _ ?a] exI [of _ ?m]) simp
qed

end
