(* ===== verification/End_to_End.thy ===== *)
theory End_to_End
  imports Push Agent Delivery
begin

text \<open>
  Panel and agent together: what the panel pushes is what the engine of the node runs, and the sessions
  of agents carry traffic the way the delivery protocol of \<open>Delivery\<close> assumes.
\<close>

section \<open>From the database to the engine\<close>

lemma UsersForNode_names:
  assumes "store_ok s"
  shows "distinct (map uUsername (UsersForNode n s))"
proof -
  have "distinct (map urUsername (users s))" "distinct (map urID (users s))" using assms by (simp_all add: store_ok_def users_ok_def)
  then have "distinct (map urUsername (sort_key urID (filter (\<lambda>r. (urID r, n) \<in> set (user_nodes s)) (users s))))"
    by (auto simp: distinct_map inj_on_def)
  then show ?thesis by (simp add: UsersForNode_def scanUser_def comp_def)
qed

lemma active_clients_ok:
  assumes "sys_ok s"
  shows "clients_ok (active_clients now (UsersForNode n s))"
proof -
  have ok: "store_ok s" "data_ok s" using assms by (simp_all add: sys_ok_def)
  have "\<forall>r \<in> set (users s). urUsername r \<noteq> ''''"
    using ok(2) username_safe(5) unfolding data_ok_def user_row_ok_def by blast
  then have "'''' \<notin> cEmail ` set (active_clients now (UsersForNode n s))" by (force simp: users_active_clients)
  with UsersForNode_names [OF ok(1), of n] show ?thesis
    by (auto simp: clients_ok_def active_clients_def comp_def distinct_map_filter)
qed

lemma clients_ok_mset: "mset cs = mset cs' \<Longrightarrow> clients_ok cs = clients_ok cs'"
  unfolding clients_ok_def by (metis mset_eq_imp_distinct_iff mset_map set_mset_mset)

text \<open>The agent's state when it applies the configuration of a frame.\<close>

definition domain_published :: "edge_io \<Rightarrow> Msg \<Rightarrow> 'e managed \<Rightarrow> 'e agent" where
  "domain_published eio f m = (mgAgent m)\<lparr>agEdge := writeACMEDomain eio (msgTLSDomain f) (agEdge (mgAgent m))\<rparr>"

lemma published_frame [simp]:
  "described runs (domain_published eio f m) = described runs (mgAgent m)" "agCertPath (domain_published eio f m) = agCertPath (mgAgent m)"
  by (simp_all add: domain_published_def described_def)

lemma recv_config:
  "msgType f = TypeConfig \<Longrightarrow> mgAgent (session_recv E io eio wok f m) = snd (applyConfig E io (msgConfig f) (domain_published eio f m))"
  by (simp add: session_recv_def domain_published_def Let_def)

lemma config_frame_type: "last_config ms = Some f \<Longrightarrow> msgType f = TypeConfig"
  by (auto simp: last_config_def dest: find_key_eq)

text \<open>Whatever frame for the clients to be served an agent applies with success, its engine then runs exactly those.\<close>

lemma frame_applied:
  assumes ok: "full_ok a" and f: "msgType f = TypeConfig" "msgConfig f = Some (Build p cl)"
    and cl: "mset cl = mset (active_clients now (UsersForNode n (store a)))"
    and E: "engine_ok E runs" "described runs (mgAgent m)" "fst (applyConfig E io (msgConfig f) (domain_published eio f m))"
    and tag: "tag \<in> {tagTLS, tagReality}"
  shows "runs (agEngine (mgAgent (session_recv E io eio wok f m))) tag email = Some u \<longleftrightarrow>
    opens (effective (ioCert io) (agCertPath (mgAgent m)) p) tag
    \<and> (\<exists>r \<in> set (users (store a)). (urID r, n) \<in> set (user_nodes (store a)) \<and> active (scanUser r) now \<and> urUUID r = u \<and> urUsername r = email)"
proof -
  let ?cs = "active_clients now (UsersForNode n (store a))"
  have "sys_ok (store a)" using ok by (simp add: full_ok_def)
  then have "clients_ok cl" using active_clients_ok clients_ok_mset [OF cl] by blast
  moreover obtain ag where "applyConfig E io (Some (Build p cl)) (domain_published eio f m) = (True, ag)"
    using E(3) f by (metis prod.collapse)
  ultimately have "runs (agEngine (mgAgent (session_recv E io eio wok f m))) tag email = Some u \<longleftrightarrow>
      opens (effective (ioCert io) (agCertPath (mgAgent m)) p) tag \<and> \<lparr>cUUID = u, cEmail = email\<rparr> \<in> set cl"
    using applied_engine(3) [OF E(1) _ _ _ tag, of "domain_published eio f m" cl io p ag email u] E(2) f
      recv_config [OF f(1), of E io eio wok m] by simp
  moreover have "set cl = set ?cs" using cl by (metis set_mset_mset)
  ultimately show ?thesis using users_active_clients [of "\<lparr>cUUID = u, cEmail = email\<rparr>" now n "store a"] by auto
qed

section \<open>Properties\<close>


definition demo_managed :: "toy managed" where
  "demo_managed = \<lparr>mgPanelURL = ''http://p'', mgToken = ''tok'', mgXrayContainer = ''xray'', mgGRPCAddr = ''xray:10085'',
     mgNginxContainer = ''nginx-edge'', mgStatsInterval = 60000000000, mgAgent = demo_agent (Some 5),
     mgPend = (newPending ''p'', PMissing), mgAcc = (newAccessWatcher '''' '''' None, None), mgSampler = fresh_sampler 0\<rparr>"

definition demo_eio :: edge_io where
  "demo_eio = \<lparr>eMkdir = True, eWrite = True, eNginxRunning = True\<rparr>"


end
