(* ===== verification/Sessions.thy ===== *)
theory Sessions
  imports End_to_End
begin

text \<open>
  One node's sessions with the panel: the agent process of \<open>Agent\<close>, the panel with its connection of
  \<open>Hub\<close>, and the two directions of the websocket between them. Seen through the buffer, the database and
  the traffic frames and acknowledgements that are under way, every step of this system is a sequence of
  steps of the delivery protocol of \<open>Delivery\<close>, so what is proved there holds for the session code.
\<close>

section \<open>The system\<close>

text \<open>\<open>ntUp\<close>: frames the agent sent and the panel has not read; \<open>ntSeen\<close>: how many messages of the connection the agent has
  read; \<open>ntGot\<close>: everything the engine's counters ever gave.\<close>

record 'e net =
  ntNode :: "'e managed"
  ntPanel :: App
  ntConn :: nat
  ntUp :: "Msg list"
  ntSeen :: nat
  ntGot :: "TrafficItem list"

definition traffic_frames :: "Msg list \<Rightarrow> (int64 \<times> TrafficItem list) list" where
  "traffic_frames ms = map (\<lambda>m. (msgSeq m, msgItems m)) (filter (\<lambda>m. msgType m = TypeTraffic) ms)"

definition ack_frames :: "Msg list \<Rightarrow> int64 list" where
  "ack_frames ms = map msgSeq (filter (\<lambda>m. msgType m = TypeAck) ms)"

definition unread :: "'e net \<Rightarrow> Msg list" where
  "unread s = drop (ntSeen s) (stream (ntConn s) (ntPanel s))"

definition abs_net :: "'e net \<Rightarrow> dsys" where
  "abs_net s = \<lparr>agent = mgPend (ntNode s), panel = store (ntPanel s), wireUp = traffic_frames (ntUp s),
     wireDown = ack_frames (unread s), got = ntGot s\<rparr>"

text \<open>
  The steps: a tick of the agent's tickers, the panel reads a frame or writes one, the agent reads one, the
  connection loses its tail, a new session begins, the agent restarts, and anything else that the panel does
  that keeps the user assigned, the books of this node for the user and the messages of this connection.
  The buffer file can be written; \<open>up\<close> says whether the session is alive.
\<close>

inductive nstep :: "'e engine_api \<Rightarrow> int64 \<Rightarrow> string \<Rightarrow> int64 \<Rightarrow> 'e net \<Rightarrow> 'e net \<Rightarrow> bool" for E u e n where
  tick: "stats_tick io (ntNode s) = (alive, ms, m') \<Longrightarrow> siSaved io \<Longrightarrow> siSaved2 io \<Longrightarrow> s_seq (mgPend (ntNode s)) < max_int64 \<Longrightarrow>
    nstep E u e n s (s\<lparr>ntNode := m', ntUp := ntUp s @ ms, ntGot := ntGot s @ collectTraffic (siCounters io)\<rparr>)"
| heartbeat: "heartbeat_tick now h sok (ntNode s) = (alive, ms, m') \<Longrightarrow>
    nstep E u e n s (s\<lparr>ntNode := m', ntUp := ntUp s @ ms\<rparr>)"
| read: "ntUp s = f # fs \<Longrightarrow> nstep E u e n s (s\<lparr>ntPanel := handleMsg now (ntConn s) f (ntPanel s), ntUp := fs\<rparr>)"
| written: "nstep E u e n s (s\<lparr>ntPanel := write_one (ntConn s) (ntPanel s)\<rparr>)"
| recv: "ntSeen s < length (ncOut (objs (ntPanel s) ! ntConn s)) \<Longrightarrow> f = ncOut (objs (ntPanel s) ! ntConn s) ! ntSeen s \<Longrightarrow>
    nstep E u e n s (s\<lparr>ntNode := session_recv E io eio True f (ntNode s), ntSeen := Suc (ntSeen s)\<rparr>)"
| lost: "nstep E u e n s (s\<lparr>ntUp := take k (ntUp s)\<rparr>)"
| session: "handleWS now reg (ntPanel s) = Some (c, a') \<Longrightarrow> ncNode (objs a' ! c) = n \<Longrightarrow>
    session_open ver True True sok (ntNode s) = (alive, reg # ms, m') \<Longrightarrow> s_seq (mgPend (ntNode s)) < max_int64 \<Longrightarrow>
    nstep E u e n s (s\<lparr>ntNode := m', ntPanel := a', ntConn := c, ntUp := ms, ntSeen := 0\<rparr>)"
| restart: "mgPend m' = (loadPending (ptPath (fst (mgPend (ntNode s)))) (snd (mgPend (ntNode s))), snd (mgPend (ntNode s))) \<Longrightarrow>
    nstep E u e n s (s\<lparr>ntNode := m', ntUp := [], ntSeen := length (stream (ntConn s) (ntPanel s))\<rparr>)"
| panel_other: "panel_ok a' \<Longrightarrow> assigned u e n (store a') \<Longrightarrow> last_seq n (store a') = last_seq n (store (ntPanel s)) \<Longrightarrow>
    credit_up u n (store a') = credit_up u n (store (ntPanel s)) \<Longrightarrow> credit_down u n (store a') = credit_down u n (store (ntPanel s)) \<Longrightarrow>
    ntConn s < length (objs a') \<Longrightarrow> ncNode (objs a' ! ntConn s) = n \<Longrightarrow>
    (\<exists>cs. stream (ntConn s) a' = stream (ntConn s) (ntPanel s) @ cs \<and> ack_frames cs = []) \<Longrightarrow>
    length (ncOut (objs (ntPanel s) ! ntConn s)) \<le> length (ncOut (objs a' ! ntConn s)) \<Longrightarrow>
    nstep E u e n s (s\<lparr>ntPanel := a'\<rparr>)"

definition net_ok :: "int64 \<Rightarrow> string \<Rightarrow> int64 \<Rightarrow> 'e net \<Rightarrow> bool" where
  "net_ok u e n s \<longleftrightarrow> panel_ok (ntPanel s) \<and> assigned u e n (store (ntPanel s)) \<and> ntConn s < length (objs (ntPanel s))
     \<and> ncNode (objs (ntPanel s) ! ntConn s) = n \<and> ntSeen s \<le> length (stream (ntConn s) (ntPanel s))"

lemma frames_simps [simp]:
  "traffic_frames [] = []" "traffic_frames (xs @ ys) = traffic_frames xs @ traffic_frames ys"
  "ack_frames [] = []" "ack_frames (xs @ ys) = ack_frames xs @ ack_frames ys"
  by (simp_all add: traffic_frames_def ack_frames_def)

lemma frames_Cons [simp]:
  "traffic_frames (m # ms) = (if msgType m = TypeTraffic then [(msgSeq m, msgItems m)] else []) @ traffic_frames ms"
  "ack_frames (m # ms) = (if msgType m = TypeAck then [msgSeq m] else []) @ ack_frames ms"
  by (simp_all add: traffic_frames_def ack_frames_def)

lemma msg_types_differ [simp]:
  "TypeHeartbeat \<noteq> TypeTraffic" "TypeDevices \<noteq> TypeTraffic" "TypeRegister \<noteq> TypeTraffic" "TypeConfig \<noteq> TypeAck" "TypeAck \<noteq> TypeConfig"
  "TypeTraffic \<noteq> TypeHeartbeat" "TypeTraffic \<noteq> TypeDevices" "TypeDevices \<noteq> TypeHeartbeat" "TypeHeartbeat \<noteq> TypeDevices"
  by (simp_all add: msg_type_defs)

lemma msgType_empty [simp]: "msgType (empty_msg t) = t" "msgType (traffic_msg q xs) = TypeTraffic" "msgSeq (traffic_msg q xs) = q"
    "msgItems (traffic_msg q xs) = xs"
  by (simp_all add: empty_msg_def traffic_msg_def)

section \<open>What the panel's steps do to the connection\<close>

text \<open>\<open>b\<close> comes from \<open>a\<close> by appending frames to connection \<open>c\<close> whose acknowledgements are \<open>qs\<close>.\<close>

definition extends :: "nat \<Rightarrow> int64 list \<Rightarrow> App \<Rightarrow> App \<Rightarrow> bool" where
  "extends c qs a b \<longleftrightarrow> length (objs b) = length (objs a) \<and> ncNode (objs b ! c) = ncNode (objs a ! c)
     \<and> (\<exists>cs. stream c b = stream c a @ cs \<and> ack_frames cs = qs)"

lemma extends_refl [simp]: "extends c [] a a"
  by (simp add: extends_def)

lemma extends_cong: "objs b = objs a \<Longrightarrow> extends c [] a b"
  by (simp add: extends_def stream_def)

lemma extends_trans: "extends c qs a b \<Longrightarrow> extends c rs b d \<Longrightarrow> extends c (qs @ rs) a d"
  by (force simp: extends_def)

lemma extends_trySend:
  assumes "c' < length (objs a)" "trySend c' m a = (True, a')"
  shows "extends c (if c = c' then ack_frames [m] else []) a a'"
  using stream_trySend [OF assms] assms by (auto simp: extends_def trySend_def nth_list_update split: if_splits)

lemma trySend_refused: "trySend c m a = (False, a') \<Longrightarrow> a' = a"
  by (auto simp: trySend_def split: if_splits)

lemma extends_PushConfig:
  assumes "hub_ok a"
  shows "extends c [] a (snd (PushConfig now n a))"
proof -
  obtain b a' where p: "PushConfig now n a = (b, a')" by fastforce
  from assms p show ?thesis
  proof (cases rule: PushConfig_cases)
    case (sent c' node)
    then show ?thesis using extends_trySend [OF sent(4,5), of c] by (simp add: p split: if_splits)
  qed (simp add: p)
qed

lemma extends_syncNode: "hub_ok a \<Longrightarrow> extends c [] a (syncNode now n a)"
  using extends_PushConfig [of a c now n]
  by (cases "PushConfig now n a") (auto simp: syncNode_def Let_def extends_def stream_def)

lemma extends_forceSyncNode: "hub_ok a \<Longrightarrow> extends c [] a (forceSyncNode now n a)"
  using extends_PushConfig [of a c now n]
  by (cases "PushConfig now n a") (auto simp: forceSyncNode_def Let_def extends_def stream_def)

lemma extends_ingest:
  assumes "hub_ok a"
  shows "extends c [] a (ingestTraffic now n q items a)"
proof -
  let ?st = "fold (ingest_item now n (allowed_users (UsersForNode n (store a)))) items (store a, 0, 0)"
  let ?b = "recordRate now n (fst (snd ?st)) (snd (snd ?st)) (a\<lparr>store := fst ?st\<rparr>)"
  have sync: "extends c [] a (syncNode now n b)" if "objs b = objs a" "conns b = conns a" for b
  proof -
    have "hub_ok b" using assms that by (subst hub_ok_cong [of _ a]) simp_all
    with extends_trans [OF extends_cong [OF that(1)] extends_syncNode] show ?thesis by simp
  qed
  have "extends c [] a (syncNode now n ?b)" "extends c [] a (syncNode now n (with_store (SetNodeTrafficSeq n q) ?b))"
    by (rule sync, simp_all)+
  then show ?thesis by (auto simp: ingestTraffic_def Let_def case_prod_beta split: sum.split)
qed

text \<open>What anything but traffic leaves alone.\<close>

definition books_kept :: "int64 \<Rightarrow> string \<Rightarrow> int64 \<Rightarrow> Store \<Rightarrow> Store \<Rightarrow> bool" where
  "books_kept u e n s s' \<longleftrightarrow> (store_ok s' \<longrightarrow> assigned u e n s \<longrightarrow> assigned u e n s') \<and> last_seq n s' = last_seq n s
     \<and> credit_up u n s' = credit_up u n s \<and> credit_down u n s' = credit_down u n s"

lemma books_kept_refl [simp]: "books_kept u e n s s"
  by (simp add: books_kept_def)

lemma books_kept_trans: "books_kept u e n s s' \<Longrightarrow> store_ok s' \<Longrightarrow> books_kept u e n s' s'' \<Longrightarrow> books_kept u e n s s''"
  by (auto simp: books_kept_def)

lemma books_kept_node_op:
  assumes "\<And>r. nrID (f r) = nrID r" "\<And>r. nrTrafficSeq (f r) = nrTrafficSeq r"
  shows "books_kept u e n s (s\<lparr>nodes := sql_update p f (nodes s)\<rparr>)"
proof -
  have "map nrID (sql_update p f (nodes s)) = map nrID (nodes s)" by (rule map_sql_update) (rule assms)
  then have "nrID ` set (sql_update p f (nodes s)) = nrID ` set (nodes s)" by (metis list.set_map)
  with assms show ?thesis
    by (auto simp: books_kept_def assigned_def last_seq_def NodeTrafficSeq_def query_row_def find_sql_update credit_up_def credit_down_def
      split: option.split)
qed

lemma books_kept_ops:
  "books_kept u e n s (TouchNode now m s)" "books_kept u e n s (SetNodeAgentVersion m v s)" "books_kept u e n s (UpsertDevice x m ip inb k seen s)"
  unfolding TouchNode_def SetNodeAgentVersion_def
  by (simp_all add: books_kept_node_op)
    (auto simp: UpsertDevice_def books_kept_def assigned_def last_seq_def NodeTrafficSeq_def credit_up_def credit_down_def)

section \<open>Every step is a sequence of protocol steps\<close>

abbreviation dsteps :: "int64 \<Rightarrow> string \<Rightarrow> int64 \<Rightarrow> dsys \<Rightarrow> dsys \<Rightarrow> bool" where
  "dsteps u e n \<equiv> (dstep u e n)\<^sup>*\<^sup>*"

lemma dstep_then: "dstep u e n a b \<Longrightarrow> dsteps u e n b c \<Longrightarrow> dsteps u e n a c"
  by (rule converse_rtranclp_into_rtranclp)

lemma take_traffic_frames: "\<exists>j. traffic_frames (take k ms) = take j (traffic_frames ms)"
proof -
  have "traffic_frames ms = traffic_frames (take k ms) @ traffic_frames (drop k ms)"
    by (metis append_take_drop_id frames_simps(2))
  then show ?thesis by (metis append_eq_conv_conj)
qed

lemma batch_sent:
  assumes "s_seq p < max_int64" "send_batch True sok m = (alive, ms, m')" "mgPend m = p"
  shows "dsteps u e n \<lparr>agent = p, panel = st, wireUp = w, wireDown = v, got = g\<rparr>
     \<lparr>agent = mgPend m', panel = st, wireUp = w @ traffic_frames ms, wireDown = v, got = g\<rparr>"
proof -
  obtain q f ok p' where b: "batch True p = ((q, f, ok), p')" by (metis prod.collapse)
  let ?d = "\<lparr>agent = p, panel = st, wireUp = w, wireDown = v, got = g\<rparr>"
  have 1: "dstep u e n ?d (?d\<lparr>agent := p', wireUp := (if ok then w @ [(q, f)] else w)\<rparr>)"
    using dstep.send [of ?d q f ok p' u e n] b assms(1) by (cases ok) simp_all
  let ?d1 = "?d\<lparr>agent := p', wireUp := (if ok then w @ [(q, f)] else w)\<rparr>"
  have "dstep u e n ?d1 (?d1\<lparr>wireUp := w\<rparr>)"
    using dstep.lost [where d = ?d1 and k = "length w" and j = "length v"] by (cases ok) simp_all
  then have 2: "dsteps u e n ?d (?d1\<lparr>wireUp := w\<rparr>)" by (intro dstep_then [OF 1] r_into_rtranclp)
  have 3: "dsteps u e n ?d ?d1" by (rule r_into_rtranclp) (rule 1)
  have m: "mgPend m' = p'" "traffic_frames ms = (if ok \<and> sok then [(q, f)] else [])"
    using assms(2,3) b by (auto simp: send_batch_def Let_def split: if_splits)
  show ?thesis
  proof (cases "ok \<and> sok")
    case True
    with 3 m show ?thesis by simp
  next
    case False
    with 2 m show ?thesis by simp
  qed
qed

lemma tick_refines:
  assumes "stats_tick io (ntNode s) = (alive, ms, m')" "siSaved io" "siSaved2 io" "s_seq (mgPend (ntNode s)) < max_int64"
  shows "dsteps u e n (abs_net s) (abs_net (s\<lparr>ntNode := m', ntUp := ntUp s @ ms, ntGot := ntGot s @ collectTraffic (siCounters io)\<rparr>))"
proof -
  let ?xs = "collectTraffic (siCounters io)"
  let ?m1 = "(ntNode s)\<lparr>mgPend := collect True ?xs (mgPend (ntNode s))\<rparr>"
  obtain al ms0 m2 where sb: "send_batch True (siSent io) ?m1 = (al, ms0, m2)" by (metis prod.collapse)
  have m: "mgPend m' = mgPend m2" "traffic_frames ms = traffic_frames ms0"
    using assms(1) sb by (auto simp: stats_tick_def Let_def assms(2,3) split: prod.splits bool.splits if_splits)
  have "s_seq (collect True ?xs (mgPend (ntNode s))) < max_int64"
    using assms(4) by (cases "mgPend (ntNode s)") (simp add: Let_def)
  then have "dsteps u e n \<lparr>agent = collect True ?xs (mgPend (ntNode s)), panel = store (ntPanel s), wireUp = traffic_frames (ntUp s),
      wireDown = ack_frames (unread s), got = ntGot s @ ?xs\<rparr>
     \<lparr>agent = mgPend m2, panel = store (ntPanel s), wireUp = traffic_frames (ntUp s) @ traffic_frames ms0,
      wireDown = ack_frames (unread s), got = ntGot s @ ?xs\<rparr>"
    using batch_sent [OF _ sb] by simp
  with dstep_then [OF dstep.stats [of u e n "abs_net s" ?xs]] show ?thesis
    by (simp add: abs_net_def unread_def m)
qed

lemma hub_of: "net_ok u e n s \<Longrightarrow> hub_ok (ntPanel s)"
  by (simp add: net_ok_def panel_ok_def)

lemma net_okD:
  assumes "net_ok u e n s"
  shows "panel_ok (ntPanel s)" "hub_ok (ntPanel s)" "assigned u e n (store (ntPanel s))" "ntConn s < length (objs (ntPanel s))"
    "ncNode (objs (ntPanel s) ! ntConn s) = n" "ntSeen s \<le> length (stream (ntConn s) (ntPanel s))"
  using assms by (simp_all add: net_ok_def panel_ok_def)

text \<open>A step of the panel that appends to the connection, seen from outside.\<close>

lemma panel_extended:
  assumes "net_ok u e n s" "extends (ntConn s) qs (ntPanel s) a'" "panel_ok a'" "assigned u e n (store a')"
  shows "net_ok u e n (s\<lparr>ntPanel := a', ntUp := ms\<rparr>)"
    and "abs_net (s\<lparr>ntPanel := a', ntUp := ms\<rparr>) =
      (abs_net s)\<lparr>panel := store a', wireUp := traffic_frames ms, wireDown := wireDown (abs_net s) @ qs\<rparr>"
  using assms by (auto simp: extends_def net_ok_def abs_net_def unread_def)

lemma books_fold:
  assumes "\<And>s x. books_kept u e n s (f x s)" "\<And>s x. store_ok s \<Longrightarrow> store_ok (f x s)"
  shows "store_ok s \<Longrightarrow> books_kept u e n s (fold f xs s) \<and> store_ok (fold f xs s)"
proof (induction xs arbitrary: s)
  case (Cons x xs)
  have "store_ok (f x s)" using assms(2) Cons.prems by blast
  then show ?case using books_kept_trans [OF assms(1)] Cons.IH by simp
qed simp

lemma ingest_device_kept: "books_kept u e n s (ingest_device now m al it s)" "store_ok s \<Longrightarrow> store_ok (ingest_device now m al it s)"
  by (auto simp: ingest_device_def Let_def books_kept_ops store_ok_UpsertDevice split: option.split)

lemma handleMsg_other:
  assumes "msgType f \<noteq> TypeTraffic" "store_ok (store a)"
  shows "books_kept u e n (store a) (store (handleMsg now c f a))" "objs (handleMsg now c f a) = objs a"
proof -
  have "books_kept u e n (store a) (store (ingestDevices now m items a)) \<and> objs (ingestDevices now m items a) = objs a" for m items
    using books_fold [where f = "ingest_device now m (allowed_users (UsersForNode m (store a)))", OF ingest_device_kept assms(2)]
    by (simp add: ingestDevices_def)
  with assms(1) show "books_kept u e n (store a) (store (handleMsg now c f a))" "objs (handleMsg now c f a) = objs a"
    by (cases "msgMetrics f"; simp add: handleMsg_def Let_def setNodeMetrics_def books_kept_ops)+
qed

lemma panel_other_step:
  assumes "books_kept u e n (panel d) st" "assigned u e n (panel d)" "store_ok st"
  shows "dsteps u e n d (d\<lparr>panel := st\<rparr>)"
  using assms by (intro r_into_rtranclp dstep.panel_other) (auto simp: books_kept_def)

lemma read_traffic:
  assumes ok: "net_ok u e n s" and up: "ntUp s = f # fs" "msgType f = TypeTraffic"
  shows "dsteps u e n (abs_net s) (abs_net (s\<lparr>ntPanel := handleMsg now (ntConn s) f (ntPanel s), ntUp := fs\<rparr>))"
    and "net_ok u e n (s\<lparr>ntPanel := handleMsg now (ntConn s) f (ntPanel s), ntUp := fs\<rparr>)"
proof -
  let ?c = "ntConn s" and ?a = "ntPanel s"
  let ?i = "ingestTraffic now n (msgSeq f) (msgItems f) ?a" and ?ack = "(empty_msg TypeAck)\<lparr>msgSeq := msgSeq f\<rparr>"
  note ok' = net_okD [OF ok]
  have ext: "extends ?c [] ?a ?i" by (rule extends_ingest) (rule ok')
  have len: "?c < length (objs ?i)" using ok' by simp
  obtain sent a' where t: "trySend ?c ?ack ?i = (sent, a')" by fastforce
  have h: "handleMsg now ?c f ?a = a'" using ok'(5) up(2) t by (simp add: handleMsg_def msg_type_defs)
  have st: "store a' = ingest_store n now (msgSeq f) (msgItems f) (store ?a)"
    using store_trySend [of ?c ?ack ?i] t by (simp add: store_ingestTraffic)
  have asg: "assigned u e n (store a')" using ok'(3) by (simp add: st assigned_ingest)
  have p: "panel_ok a'" using panel_ok_handleMsg [OF ok'(1,4), of now f] by (simp add: h)
  have w: "wireUp (abs_net s) = (msgSeq f, msgItems f) # traffic_frames fs" using up by (simp add: abs_net_def)
  have "\<exists>qs. extends ?c qs ?a a' \<and> dstep u e n (abs_net s)
      ((abs_net s)\<lparr>panel := store a', wireUp := traffic_frames fs, wireDown := wireDown (abs_net s) @ qs\<rparr>)"
  proof (cases sent)
    case True
    have "extends ?c [msgSeq f] ?i a'" using extends_trySend [OF len, of ?ack a' ?c] t True by simp
    then have "extends ?c [msgSeq f] ?a a'" using extends_trans [OF ext] by simp
    moreover have "panel (abs_net s) = store ?a" by (simp add: abs_net_def)
    ultimately show ?thesis using dstep.deliver [OF w, of u e n now] by (intro exI [of _ "[msgSeq f]"]) (simp add: st)
  next
    case False
    then have "a' = ?i" using t trySend_refused [of ?c ?ack ?i a'] by simp
    moreover have "panel (abs_net s) = store ?a" by (simp add: abs_net_def)
    ultimately show ?thesis using ext dstep.deliver_ack_dropped [OF w, of u e n now] st by (intro exI [of _ "[]"]) simp
  qed
  then obtain qs where "extends ?c qs ?a a'" and step: "dstep u e n (abs_net s)
      ((abs_net s)\<lparr>panel := store a', wireUp := traffic_frames fs, wireDown := wireDown (abs_net s) @ qs\<rparr>)" by blast
  note x = panel_extended [OF ok this(1) p asg, of fs]
  show "dsteps u e n (abs_net s) (abs_net (s\<lparr>ntPanel := handleMsg now ?c f ?a, ntUp := fs\<rparr>))"
    unfolding h x(2) by (rule r_into_rtranclp) (rule step)
  show "net_ok u e n (s\<lparr>ntPanel := handleMsg now ?c f ?a, ntUp := fs\<rparr>)" unfolding h by (rule x(1))
qed

lemma read_other:
  assumes ok: "net_ok u e n s" and up: "ntUp s = f # fs" "msgType f \<noteq> TypeTraffic"
  shows "dsteps u e n (abs_net s) (abs_net (s\<lparr>ntPanel := handleMsg now (ntConn s) f (ntPanel s), ntUp := fs\<rparr>))"
    and "net_ok u e n (s\<lparr>ntPanel := handleMsg now (ntConn s) f (ntPanel s), ntUp := fs\<rparr>)"
proof -
  let ?a' = "handleMsg now (ntConn s) f (ntPanel s)"
  note ok' = net_okD [OF ok]
  have so: "store_ok (store (ntPanel s))" using ok'(1) by (simp add: panel_ok_def)
  note o = handleMsg_other [OF up(2) so]
  have p: "panel_ok ?a'" using ok' by (intro panel_ok_handleMsg)
  then have so': "store_ok (store ?a')" by (simp add: panel_ok_def)
  have asg: "assigned u e n (store ?a')" using o(1) [of u e n now "ntConn s"] so' ok'(3) by (simp add: books_kept_def)
  note x = panel_extended [OF ok extends_cong [OF o(2)] p asg, of fs]
  have "dsteps u e n (abs_net s) ((abs_net s)\<lparr>panel := store ?a'\<rparr>)"
    using o(1) ok'(3) so' by (intro panel_other_step) (simp_all add: abs_net_def)
  moreover have "wireUp (abs_net s) = traffic_frames fs" using up by (simp add: abs_net_def)
  ultimately show "dsteps u e n (abs_net s) (abs_net (s\<lparr>ntPanel := ?a', ntUp := fs\<rparr>))" unfolding x(2) by (simp add: abs_net_def)
  show "net_ok u e n (s\<lparr>ntPanel := ?a', ntUp := fs\<rparr>)" by (rule x(1))
qed

lemma recv_refines:
  assumes ok: "net_ok u e n s" and seen: "ntSeen s < length (ncOut (objs (ntPanel s) ! ntConn s))" and f: "f = ncOut (objs (ntPanel s) ! ntConn s) ! ntSeen s"
  shows "dsteps u e n (abs_net s) (abs_net (s\<lparr>ntNode := session_recv E io eio True f (ntNode s), ntSeen := Suc (ntSeen s)\<rparr>))"
    and "net_ok u e n (s\<lparr>ntNode := session_recv E io eio True f (ntNode s), ntSeen := Suc (ntSeen s)\<rparr>)"
proof -
  have un: "unread s = f # drop (Suc (ntSeen s)) (stream (ntConn s) (ntPanel s))"
    using seen f by (simp add: unread_def stream_def Cons_nth_drop_Suc [symmetric] nth_append)
  have "mgPend (session_recv E io eio True f (ntNode s)) = (if msgType f = TypeAck then ack True (msgSeq f) (mgPend (ntNode s)) else mgPend (ntNode s))"
    by (simp add: session_recv_def Let_def)
  moreover have "dsteps u e n (abs_net s) ((abs_net s)\<lparr>agent := ack True (msgSeq f) (mgPend (ntNode s)),
      wireDown := ack_frames (drop (Suc (ntSeen s)) (stream (ntConn s) (ntPanel s)))\<rparr>)" if "msgType f = TypeAck"
    using dstep.acked [of "abs_net s" "msgSeq f" "ack_frames (drop (Suc (ntSeen s)) (stream (ntConn s) (ntPanel s)))" u e n] un that
    by (intro r_into_rtranclp) (simp add: abs_net_def)
  ultimately show "dsteps u e n (abs_net s) (abs_net (s\<lparr>ntNode := session_recv E io eio True f (ntNode s), ntSeen := Suc (ntSeen s)\<rparr>))"
    using un by (simp add: abs_net_def) (simp add: unread_def)
  show "net_ok u e n (s\<lparr>ntNode := session_recv E io eio True f (ntNode s), ntSeen := Suc (ntSeen s)\<rparr>)"
    using ok seen by (simp add: net_ok_def stream_def)
qed

lemma session_refines:
  assumes ok: "net_ok u e n s" and ws: "handleWS now reg (ntPanel s) = Some (c, a')" and n: "ncNode (objs a' ! c) = n"
    and open': "session_open ver True True sok (ntNode s) = (alive, reg # ms, m')" and room: "s_seq (mgPend (ntNode s)) < max_int64"
  shows "dsteps u e n (abs_net s) (abs_net (s\<lparr>ntNode := m', ntPanel := a', ntConn := c, ntUp := ms, ntSeen := 0\<rparr>))"
    and "net_ok u e n (s\<lparr>ntNode := m', ntPanel := a', ntConn := c, ntUp := ms, ntSeen := 0\<rparr>)"
proof -
  note ok' = net_okD [OF ok]
  let ?a = "ntPanel s"
  obtain node where reg: "msgType reg = TypeRegister" "GetNodeByToken now (msgToken reg) (store ?a) = Inr node"
    using ws by (auto simp: handleWS_eq split: if_splits sum.splits)
  have node: "c = length (objs ?a)" "a' = forceSyncNode now (nID node) (noticeOnline (nID node) (nName node)
      (with_store (SetNodeAgentVersion (nID node) (msgVersion reg)) (with_store (TouchNode now (nID node)) (connect (nID node) ?a))))"
    using ws reg by (simp_all add: handleWS_eq)
  let ?b = "noticeOnline (nID node) (nName node)
      (with_store (SetNodeAgentVersion (nID node) (msgVersion reg)) (with_store (TouchNode now (nID node)) (connect (nID node) ?a)))"
  have p: "panel_ok a'" by (rule panel_ok_handleWS [OF ok'(1) ws])
  have "hub_ok ?b" using hub_ok_connect [OF ok'(2)] by (subst hub_ok_cong [of _ "connect (nID node) ?a"]) simp_all
  then have ext: "extends c [] ?b a'" unfolding node(2) by (rule extends_forceSyncNode)
  have fresh: "stream c ?b = []" "c < length (objs ?b)"
    by (auto simp: stream_def objs_connect [OF ok'(2)] node(1) nth_append split: option.split)
  with ext have c: "ack_frames (stream c a') = []" "c < length (objs a')" by (auto simp: extends_def)
  have st: "store a' = SetNodeAgentVersion (nID node) (msgVersion reg) (TouchNode now (nID node) (store ?a))" by (simp add: node(2))
  have so: "store_ok (store ?a)" "store_ok (store a')" using ok'(1) p by (simp_all add: panel_ok_def)
  have "books_kept u e n (store ?a) (store a')"
    unfolding st by (rule books_kept_trans [OF books_kept_ops(1) store_step_ok [OF store_step.touch_node so(1)] books_kept_ops(2)])
  then have kept: "dsteps u e n ((abs_net s)\<lparr>wireUp := [], wireDown := []\<rparr>) ((abs_net s)\<lparr>panel := store a', wireUp := [], wireDown := []\<rparr>)"
    "assigned u e n (store a')"
    using panel_other_step [of u e n "(abs_net s)\<lparr>wireUp := [], wireDown := []\<rparr>" "store a'"] ok'(3) so(2)
    by (simp_all add: abs_net_def books_kept_def)
  have "send_batch True sok (ntNode s) = (alive, ms, m')"
    using open' by (auto simp: session_open_def split: prod.splits)
  from batch_sent [OF room this refl, of u e n "store a'" "[]" "[]" "ntGot s"]
  have "dsteps u e n ((abs_net s)\<lparr>panel := store a', wireUp := [], wireDown := []\<rparr>)
      (abs_net (s\<lparr>ntNode := m', ntPanel := a', ntConn := c, ntUp := ms, ntSeen := 0\<rparr>))"
    by (simp add: abs_net_def unread_def c)
  from dstep_then [OF dstep.reconnect rtranclp_trans [OF kept(1) this]]
  show "dsteps u e n (abs_net s) (abs_net (s\<lparr>ntNode := m', ntPanel := a', ntConn := c, ntUp := ms, ntSeen := 0\<rparr>))" .
  show "net_ok u e n (s\<lparr>ntNode := m', ntPanel := a', ntConn := c, ntUp := ms, ntSeen := 0\<rparr>)"
    using p kept(2) c(2) n by (simp add: net_ok_def)
qed

lemma nstep_refines:
  assumes "nstep E u e n s s'" "net_ok u e n s"
  shows "dsteps u e n (abs_net s) (abs_net s') \<and> net_ok u e n s'"
  using assms
proof (induction rule: nstep.induct)
  case (tick io s alive ms m')
  have "dsteps u e n (abs_net s) (abs_net (s\<lparr>ntNode := m', ntUp := ntUp s @ ms, ntGot := ntGot s @ collectTraffic (siCounters io)\<rparr>))"
    by (rule tick_refines [OF tick(1-4)])
  with tick show ?case by (simp add: net_ok_def)
next
  case (heartbeat now h sok s alive ms m')
  then have "mgPend m' = mgPend (ntNode s)" "traffic_frames ms = []"
    by (auto simp: heartbeat_tick_def Let_def split: prod.splits if_splits)
  with heartbeat show ?case by (simp add: net_ok_def abs_net_def unread_def)
next
  case (read s f fs now)
  then show ?case using read_traffic [of u e n s f fs now] read_other [of u e n s f fs now] by (cases "msgType f = TypeTraffic") simp_all
next
  case (written s)
  note ok = net_okD [OF written]
  have "extends (ntConn s) [] (ntPanel s) (write_one (ntConn s) (ntPanel s))" "store (write_one (ntConn s) (ntPanel s)) = store (ntPanel s)"
    using ok(4) by (auto simp: extends_def stream_def write_one_def split: list.split)
  with panel_extended [OF written this(1) panel_ok_write_one [OF ok(1,4)], of "ntUp s"] ok(3) show ?case
    by (simp add: abs_net_def)
next
  case (recv s f io eio)
  then show ?case using recv_refines [of u e n s f E io eio] by simp
next
  case (lost s k)
  obtain j where "traffic_frames (take k (ntUp s)) = take j (traffic_frames (ntUp s))" using take_traffic_frames by blast
  then have eq: "abs_net (s\<lparr>ntUp := take k (ntUp s)\<rparr>) = (abs_net s)\<lparr>wireUp := take j (wireUp (abs_net s)),
      wireDown := take (length (wireDown (abs_net s))) (wireDown (abs_net s))\<rparr>" by (simp add: abs_net_def unread_def)
  have "dsteps u e n (abs_net s) (abs_net (s\<lparr>ntUp := take k (ntUp s)\<rparr>))" unfolding eq by (rule r_into_rtranclp) (rule dstep.lost)
  with lost show ?case by (simp add: net_ok_def)
next
  case (session now reg s c a' ver sok alive ms m')
  then show ?case using session_refines [of u e n s now reg c a' ver sok alive ms m'] by simp
next
  case (restart m' s)
  have "abs_net (s\<lparr>ntNode := m', ntUp := [], ntSeen := length (stream (ntConn s) (ntPanel s))\<rparr>) = (abs_net s)\<lparr>
      agent := (loadPending (ptPath (fst (agent (abs_net s)))) (snd (agent (abs_net s))), snd (agent (abs_net s))), wireUp := [], wireDown := []\<rparr>"
    by (simp add: abs_net_def unread_def restart(1))
  then show ?case using restart(2) dstep.restart [of u e n "abs_net s"] by (simp add: net_ok_def r_into_rtranclp)
next
  case (panel_other a' s)
  then obtain cs where cs: "stream (ntConn s) a' = stream (ntConn s) (ntPanel s) @ cs" "ack_frames cs = []" by blast
  have "abs_net (s\<lparr>ntPanel := a'\<rparr>) = (abs_net s)\<lparr>panel := store a'\<rparr>"
    using cs net_okD(6) [OF panel_other.prems] by (simp add: abs_net_def unread_def)
  moreover have "dstep u e n (abs_net s) ((abs_net s)\<lparr>panel := store a'\<rparr>)"
    using panel_other by (intro dstep.panel_other) (simp_all add: abs_net_def)
  moreover have "net_ok u e n (s\<lparr>ntPanel := a'\<rparr>)" using panel_other cs net_okD(6) [OF panel_other.prems] by (simp add: net_ok_def)
  ultimately show ?case by (simp add: r_into_rtranclp)
qed

lemma nsteps_refine:
  assumes "(nstep E u e n)\<^sup>*\<^sup>* s0 s" "net_ok u e n s0"
  shows "dsteps u e n (abs_net s0) (abs_net s) \<and> net_ok u e n s"
  using assms(1)
proof (induction rule: rtranclp_induct)
  case base
  with assms(2) show ?case by simp
next
  case (step s s')
  then show ?case using nstep_refines [OF step(2)] rtranclp_trans [of "dstep u e n"] by blast
qed

section \<open>Properties\<close>


definition demo_net :: "App \<Rightarrow> toy net" where
  "demo_net a = \<lparr>ntNode = demo_managed, ntPanel = a, ntConn = 0, ntUp = [], ntSeen = length (stream 0 a), ntGot = []\<rparr>"

definition demo_tick :: stats_io where
  "demo_tick = \<lparr>siCounters = Some [(''user>>>al>>>traffic>>>uplink'', 7)], siSaved = True, siSaved2 = True, siSent = True,
     siZone = (\<lambda>_. 0), siNow = 0, siLog = None, siLogOk = True, siOffsetOk = True, siSent2 = True\<rparr>"

lemma demo_counters: "collectTraffic (siCounters demo_tick) = [\<lparr>tiEmail = ''al'', tiUp = 7, tiDown = 0\<rparr>]"
  by (simp add: demo_tick_def) code_simp

lemma demo_boot_traffic: "demo_boot = Some a0 \<Longrightarrow> nodes (store a0) = [demo_node] \<and> node_traffic (store a0) = []"
  by (simp add: demo_boot_def boot_def validateSecrets_def validateUsername_iff demo_config_def ConfigFromEnv_def env_def
      cls_alnum_def hashPassword_def demo_externs_def EnsureAdmin_def query_row_def insert_admin_def encryptExisting_def
      newCrypter_def demo_store_def OpenStore_def restartBot_def setTelegram_def Let_def reencrypt_def demo_node_def)
    auto

lemma demo_net_start:
  obtains a where "net_ok 1 ''al'' 1 (demo_net a)" "dstart 1 ''al'' 1 (abs_net (demo_net a))" "credit_up 1 1 (store a) = 0"
proof -
  obtain a0 a where a: "demo_boot = Some a0" "handleWS 0 demo_register a0 = Some (0, a)" "panel_reach a"
    "map_of (conns a) 1 = Some 0" "users (store a) = [demo_user]" "user_nodes (store a) = [(1, 1)]"
    by (rule demo_connecting)
  have ok: "panel_ok a" by (rule panel_reach_ok) (rule a(3))
  then have hub: "hub_ok a" "store_ok (store a)" by (simp_all add: panel_ok_def)
  obtain st where st: "nodes st = [demo_node]" "node_traffic st = []" "GetNodeByToken 0 ''tok'' st = Inr (scanNode 0 st demo_node)" "store a0 = st"
    using demo_boot_traffic a(1) by (auto simp: GetNodeByToken_def query_row_def demo_node_def)
  have "store a = SetNodeAgentVersion 1 ''v1'' (TouchNode 0 1 st)"
    using a(2) st(3,4) by (simp add: handleWS_eq demo_register_def empty_msg_def) (auto simp: scanNode_def demo_node_def)
  then have n: "nrID ` set (nodes (store a)) = {1}" "NodeTrafficSeq 1 (store a) = Inr 0" "node_traffic (store a) = []"
    using st(1,2) by (simp_all add: SetNodeAgentVersion_def TouchNode_def NodeTrafficSeq_def query_row_def demo_node_def)
  have asg: "assigned 1 ''al'' 1 (store a)" using hub(2) n a(5,6) by (simp add: assigned_def demo_user_def)
  show thesis
  proof (rule that)
    show "net_ok 1 ''al'' 1 (demo_net a)"
      using ok asg hub_okD [OF hub(1) a(4)] by (simp add: net_ok_def demo_net_def)
    show "dstart 1 ''al'' 1 (abs_net (demo_net a))"
      using asg n(2) by (simp add: dstart_def abs_net_def demo_net_def demo_managed_def unread_def s_inv_def synced_def newPending_def
        pending_ok_def last_seq_def)
    show "credit_up 1 1 (store a) = 0" using n(3) by (simp add: credit_up_def)
  qed
qed

lemma demo_ticked: "\<exists>s. nstep toy_engine 1 ''al'' 1 (demo_net a) s \<and> ntGot s = [\<lparr>tiEmail = ''al'', tiUp = 7, tiDown = 0\<rparr>]"
proof -
  obtain alive ms m' where t: "stats_tick demo_tick (ntNode (demo_net a)) = (alive, ms, m')" by (metis prod.collapse)
  have "nstep toy_engine 1 ''al'' 1 (demo_net a) ((demo_net a)\<lparr>ntNode := m', ntUp := ntUp (demo_net a) @ ms,
      ntGot := ntGot (demo_net a) @ collectTraffic (siCounters demo_tick)\<rparr>)"
    by (rule nstep.tick [OF t]) (simp_all add: demo_tick_def demo_net_def demo_managed_def newPending_def max_int64_def)
  then show ?thesis unfolding demo_counters by (intro exI conjI) (assumption, simp add: demo_net_def)
qed


end
