(* ===== verification/Frames.thy ===== *)
theory Frames
  imports Sessions
begin

text \<open>
  The types of the protocol: which frames each side ever puts on the wire (\<open>src/internal/wire/wire.go\<close> has one
  envelope for all of them), and that the receiving side reads every one of them as it was meant.
\<close>

section \<open>Frames of the panel\<close>

text \<open>An acknowledgement, or the configuration of the connection's own node: \<open>Build\<close> on the parameters of that node and distinct,
  named clients, with its TLS domain.\<close>

definition config_for :: "int64 \<Rightarrow> Node \<Rightarrow> Client list \<Rightarrow> bool" where
  "config_for n node cl \<longleftrightarrow> nID node = n \<and> host_or_empty (nTLSDomain node) \<and> host_or_empty (nRealityServerName node) \<and> clients_ok cl"

definition panel_frame :: "int64 \<Rightarrow> Msg \<Rightarrow> bool" where
  "panel_frame n m \<longleftrightarrow> (\<exists>q. m = (empty_msg TypeAck)\<lparr>msgSeq := q\<rparr>) \<or> (\<exists>node cl. m = config_msg node (Build (node_params node) cl) \<and> config_for n node cl)"

definition typed :: "App \<Rightarrow> bool" where
  "typed a \<longleftrightarrow> (\<forall>c < length (objs a). \<forall>m \<in> set (stream c a). panel_frame (ncNode (objs a ! c)) m)"

text \<open>What the hub relies on at every step.\<close>

definition hub_typed :: "App \<Rightarrow> bool" where
  "hub_typed a \<longleftrightarrow> sys_ok (store a) \<and> hub_ok a \<and> typed a"

lemma typed_cong: "objs b = objs a \<Longrightarrow> typed b = typed a"
  by (simp add: typed_def stream_def)

lemma hub_typed_cong: "objs b = objs a \<Longrightarrow> conns b = conns a \<Longrightarrow> sys_ok (store b) \<Longrightarrow> hub_typed a \<Longrightarrow> hub_typed b"
  using typed_cong hub_ok_cong unfolding hub_typed_def by blast

lemma typed_put:
  assumes "typed a" "c < length (objs a)" "ncNode x = ncNode (objs a ! c)"
    and "\<And>m. m \<in> set (ncOut x) \<union> set (ncSend x) \<Longrightarrow> m \<in> set (stream c a) \<or> panel_frame (ncNode (objs a ! c)) m"
  shows "typed (a\<lparr>objs := (objs a)[c := x]\<rparr>)"
  unfolding typed_def
proof (intro allI impI ballI)
  let ?b = "a\<lparr>objs := (objs a)[c := x]\<rparr>"
  fix c' m
  assume c': "c' < length (objs ?b)" and m: "m \<in> set (stream c' ?b)"
  show "panel_frame (ncNode (objs ?b ! c')) m"
  proof (cases "c' = c")
    case True
    with m assms(2) have "m \<in> set (ncOut x) \<union> set (ncSend x)" by (simp add: stream_def)
    with assms True show ?thesis unfolding typed_def by fastforce
  next
    case False
    with m c' assms(1) show ?thesis by (simp add: typed_def stream_def)
  qed
qed

lemma typed_trySend: "typed a \<Longrightarrow> c < length (objs a) \<Longrightarrow> panel_frame (ncNode (objs a ! c)) m \<Longrightarrow> typed (snd (trySend c m a))"
  unfolding trySend_def by (auto intro!: typed_put simp: stream_def)

lemma typed_write_one: "typed a \<Longrightarrow> c < length (objs a) \<Longrightarrow> typed (write_one c a)"
  unfolding write_one_def by (auto intro!: typed_put simp: stream_def split: list.split)

lemma typed_close: "typed a \<Longrightarrow> c < length (objs a) \<Longrightarrow> typed (close_conn c a)"
  unfolding close_conn_def by (auto intro!: typed_put simp: stream_def)

lemma typed_connect:
  assumes "typed a" "hub_ok a"
  shows "typed (connect n a)"
proof -
  have add: "typed b \<Longrightarrow> typed (a'\<lparr>objs := objs b @ [fresh_conn n]\<rparr>)" for a' b
    by (auto simp: typed_def stream_def nth_append less_Suc_eq)
  show ?thesis
  proof (cases "map_of (conns a) n")
    case None
    have "typed (connect n a) = typed (a\<lparr>objs := objs a @ [fresh_conn n]\<rparr>)"
      using None by (intro typed_cong) (simp add: objs_connect [OF assms(2)])
    with add [OF assms(1)] show ?thesis by blast
  next
    case (Some old)
    have "typed (connect n a) = typed (a\<lparr>objs := objs (close_conn old a) @ [fresh_conn n]\<rparr>)"
      using Some by (intro typed_cong) (simp add: objs_connect [OF assms(2)] close_conn_def)
    with add [OF typed_close [OF assms(1) hub_okD(1) [OF assms(2) Some]]] show ?thesis by blast
  qed
qed

section \<open>Every step of the panel\<close>

lemma pushed_config:
  assumes "sys_ok s" "GetNode now n s = Inr node"
  shows "panel_frame n (config_msg node (buildXrayConfig now node (UsersForNode n s)))"
proof -
  from assms(2) obtain r where r: "r \<in> set (nodes s)" "nrID r = n" "node = scanNode now s r"
    by (auto simp: GetNode_def query_row_def dest: find_key_eq split: option.splits)
  with assms(1) have "node_row_ok r" by (auto simp: sys_ok_def data_ok_def)
  with r active_clients_ok [OF assms(1), of now n] have "config_for n node (active_clients now (UsersForNode n s))"
    by (simp add: config_for_def node_row_ok_def scanNode_def)
  then show ?thesis unfolding panel_frame_def buildXrayConfig_def by blast
qed

lemma hub_typed_PushConfig:
  assumes "hub_typed a"
  shows "hub_typed (snd (PushConfig now n a))"
proof -
  have ok: "sys_ok (store a)" "hub_ok a" "typed a" using assms by (simp_all add: hub_typed_def)
  obtain b a' where p: "PushConfig now n a = (b, a')" by fastforce
  from ok(2) p have "typed a'"
  proof (cases rule: PushConfig_cases)
    case (sent c node)
    then have "panel_frame (ncNode (objs a ! c)) (config_msg node (buildXrayConfig now node (UsersForNode n (store a))))"
      using pushed_config [OF ok(1)] hub_okD(2) [OF ok(2)] by simp
    with typed_trySend [OF ok(3)] sent show ?thesis by (metis snd_conv)
  qed (simp add: ok)
  with ok(1) hub_ok_PushConfig [OF ok(2), of now n] store_PushConfig [of now n a] p show ?thesis by (simp add: hub_typed_def)
qed

lemma hub_typed_cache [simp]: "hub_typed (a\<lparr>activeCache := ch\<rparr>) = hub_typed a"
  by (simp add: hub_typed_def typed_def stream_def)

lemma hub_typed_sync: "hub_typed a \<Longrightarrow> hub_typed (syncNode now n a)" "hub_typed a \<Longrightarrow> hub_typed (forceSyncNode now n a)"
  using hub_typed_PushConfig [of a now n] by (cases "PushConfig now n a"; simp add: syncNode_def forceSyncNode_def Let_def)+

lemma hub_typed_syncNodes: "hub_typed a \<Longrightarrow> hub_typed (syncNodes now ns a)"
  unfolding syncNodes_def by (rule fold_keeps [where P = hub_typed]) (rule hub_typed_sync)

lemma hub_typed_stores: "hub_typed a \<Longrightarrow> agent_stores (store a) s \<Longrightarrow> hub_typed (a\<lparr>store := s\<rparr>)"
  using sys.agents hub_typed_cong [of "a\<lparr>store := s\<rparr>" a] by (auto simp: hub_typed_def)

lemma hub_typed_stored: "hub_typed a \<Longrightarrow> agent_store (store a) s \<Longrightarrow> hub_typed (a\<lparr>store := s\<rparr>)"
  using hub_typed_stores by (auto intro: agent_ops_after)

lemma hub_typed_ingestTraffic:
  assumes "hub_typed a"
  shows "hub_typed (ingestTraffic now n q items a)"
proof -
  let ?f = "fold (ingest_item now n (allowed_users (UsersForNode n (store a)))) items (store a, 0, 0)"
  have f: "agent_stores (store a) (fst ?f)" by (rule ingest_agent) simp
  have ok: "sys_ok (store a)" using assms by (simp add: hub_typed_def)
  have 1: "hub_typed (recordRate now n x y (a\<lparr>store := fst ?f\<rparr>))" for x y
    using f ok sys.agents by (intro hub_typed_cong [OF _ _ _ assms]) (auto simp: recordRate_def Let_def split: option.splits)
  have 2: "hub_typed (with_store (SetNodeTrafficSeq n q) (recordRate now n x y (a\<lparr>store := fst ?f\<rparr>)))" for x y
    by (rule hub_typed_stored [OF 1]) (rule agent_store.intros)
  show ?thesis
    using assms hub_typed_sync(1) [OF 1] hub_typed_sync(1) [OF 2] by (cases ?f) (auto simp: ingestTraffic_def Let_def split: sum.splits)
qed

lemma ncNode_syncNode: "ncNode (objs (syncNode now n a) ! c) = ncNode (objs a ! c)"
proof -
  have t: "ncNode (objs (snd (trySend c' m a)) ! c) = ncNode (objs a ! c)" for c' m
    by (cases "c' < length (objs a)") (auto simp: trySend_def nth_list_update list_update_beyond)
  have "ncNode (objs (snd (PushConfig now n a)) ! c) = ncNode (objs a ! c)"
    unfolding PushConfig_def using t by (simp split: option.split sum.split)
  then show ?thesis by (cases "PushConfig now n a") (auto simp: syncNode_def Let_def)
qed

lemma hub_typed_handleMsg:
  assumes "hub_typed a" "c < length (objs a)"
  shows "hub_typed (handleMsg now c m a)"
proof -
  let ?b = "ingestTraffic now (ncNode (objs a ! c)) (msgSeq m) (msgItems m) a"
  have b: "hub_typed ?b" "c < length (objs ?b)" using hub_typed_ingestTraffic [OF assms(1)] assms(2) by simp_all
  have "typed (snd (trySend c ((empty_msg TypeAck)\<lparr>msgSeq := msgSeq m\<rparr>) ?b))"
    using b by (intro typed_trySend) (auto simp: hub_typed_def panel_frame_def)
  then have 1: "hub_typed (snd (trySend c ((empty_msg TypeAck)\<lparr>msgSeq := msgSeq m\<rparr>) ?b))"
    using b hub_ok_trySend by (simp add: hub_typed_def)
  have 2: "hub_typed (with_store (TouchNode now k) a)" for k
    by (rule hub_typed_stored [OF assms(1)]) (rule agent_store.intros)
  then have 3: "hub_typed (setNodeMetrics k mt (with_store (TouchNode now k) a))" for k mt
    by (intro hub_typed_cong [OF _ _ _ 2 [of k]]) (auto simp: setNodeMetrics_def hub_typed_def)
  have 4: "hub_typed (ingestDevices now k xs a)" for k xs
    using hub_typed_stores [OF assms(1) ingestDevices_agent] by (simp add: ingestDevices_def)
  show ?thesis unfolding handleMsg_def Let_def using assms(1) 1 2 3 4 by (simp split: option.split)
qed

lemma conns_syncNodes: "conns (syncNodes now ns a) = conns a"
  unfolding syncNodes_def by (rule fold_keeps [where P = "\<lambda>b. conns b = conns a"]) simp_all

lemma hub_typed_api:
  assumes "api_step a b" "hub_typed a"
  shows "hub_typed b"
  using assms
proof (induction rule: api_step.induct)
  case (stored a s)
  then show ?case using api_store_sys hub_typed_cong [of "a\<lparr>store := s\<rparr>" a] by (auto simp: hub_typed_def)
next
  case (other a' a)
  then show ?case using hub_typed_cong [of a' a] by (simp add: hub_typed_def)
qed (simp_all add: hub_typed_sync)

lemma hub_typed_api_steps: "api_steps a b \<Longrightarrow> hub_typed a \<Longrightarrow> hub_typed b"
  by (induction rule: rtranclp_induct) (auto intro: hub_typed_api)

lemma hub_typed_handleWS:
  assumes "hub_typed a" "handleWS now reg a = Some (c, a')"
  shows "hub_typed a'"
proof -
  obtain node where "msgType reg = TypeRegister" "GetNodeByToken now (msgToken reg) (store a) = Inr node"
    using assms(2) by (auto simp: handleWS_eq split: if_splits sum.splits)
  then have a': "a' = forceSyncNode now (nID node) (noticeOnline (nID node) (nName node)
      (with_store (SetNodeAgentVersion (nID node) (msgVersion reg)) (with_store (TouchNode now (nID node)) (connect (nID node) a))))"
    using assms(2) by (simp add: handleWS_eq)
  have "hub_typed (connect n a)" for n
    using assms(1) typed_connect hub_ok_connect by (simp add: hub_typed_def)
  then have "hub_typed (with_store (TouchNode now n) (connect n a))" for n
    by (rule hub_typed_stored) (rule agent_store.intros)
  then have "hub_typed (with_store (SetNodeAgentVersion n v) (with_store (TouchNode now n) (connect n a)))" for n v
    by (rule hub_typed_stored) (rule agent_store.intros)
  then have "hub_typed b \<Longrightarrow> hub_typed (noticeOnline n t b)" "hub_typed (with_store (SetNodeAgentVersion n v) (with_store (TouchNode now n) (connect n a)))" for n t v b
    using hub_typed_cong [of "noticeOnline n t b" b] by (simp_all add: hub_typed_def)
  then have "hub_typed (noticeOnline n t (with_store (SetNodeAgentVersion n v) (with_store (TouchNode now n) (connect n a))))" for n t v
    by blast
  then show ?thesis unfolding a' by (rule hub_typed_sync)
qed

lemma hub_typed_reset_user: "hub_typed a \<Longrightarrow> hub_typed (reset_user now u a)"
proof -
  assume a: "hub_typed a"
  have 1: "hub_typed (with_store (ResetUserTraffic (uID u)) a)"
    by (rule hub_typed_stored [OF a]) (rule agent_store.intros)
  have "hub_typed (with_store (SetUserLastReset (uID u) now) (with_store (ResetUserTraffic (uID u)) a))"
    by (rule hub_typed_stored [OF 1]) (rule agent_store.intros)
  with a show ?thesis unfolding reset_user_def by (simp add: hub_typed_syncNodes)
qed

lemma hub_ok_step: "panel_step a b \<Longrightarrow> full_ok a \<Longrightarrow> hub_ok b"
  using panel_step_ok by (auto simp: full_ok_def panel_ok_def)

lemma typed_unregister: "typed a \<Longrightarrow> c < length (objs a) \<Longrightarrow> typed (unregister now c a)"
  using typed_close [of "a\<lparr>conns := gomap_delete (ncNode (objs a ! c)) (conns a)\<rparr>" c] typed_close [of a c]
  by (auto simp: unregister_def Let_def scheduleOfflineNotice_def typed_def stream_def close_conn_def)

lemma hub_typed_run:
  assumes "run_step a b" "full_ok a" "hub_typed a"
  shows "hub_typed b"
  using assms
proof (induction rule: run_step.induct)
  case (request r X io a)
  then show ?case using hub_typed_api_steps serve_steps by blast
next
  case (told r chat tx sent a)
  then show ?case using hub_typed_api_steps botHandle_steps by blast
next
  case (connected now reg a c a')
  then show ?case using hub_typed_handleWS by blast
next
  case (frame c a now m)
  then show ?case using hub_typed_handleMsg by blast
next
  case (disconnected c a now)
  then show ?case using hub_ok_step [OF panel_step.disconnected] typed_unregister by (simp add: hub_typed_def)
next
  case (written c a)
  then show ?case using hub_ok_step [OF panel_step.written] typed_write_one by (simp add: hub_typed_def)
next
  case (enforced a now)
  have "hub_typed (syncNodes now (OnlineNodeIDs a) a)" by (rule hub_typed_syncNodes) (rule enforced.prems)
  then show ?case unfolding enforcement_tick_def checkUserTransitions_def
    using enforced.prems(2) by (elim hub_typed_cong [rotated 3]) (simp_all add: check_user_frame hub_typed_def)
next
  case (resets a now)
  then show ?case unfolding autoReset_tick_def by (intro fold_keeps [where P = hub_typed] hub_typed_reset_user)
next
  case (purged a now)
  show ?case unfolding purge_tick_def by (rule hub_typed_stored [OF purged.prems(2)]) (rule agent_store.intros)
next
  case (noticed a now n)
  then show ?case by (intro hub_typed_cong [OF _ _ _ noticed.prems(2)]) (auto simp: offlineNotice_def hub_typed_def split: option.split sum.split)
qed

lemma running_typed: "running a \<Longrightarrow> hub_typed a"
proof (induction rule: running.induct)
  case (booted s X derive nn an tn salt e c a)
  then have "full_ok a" using running_ok running.booted by blast
  moreover have "objs a = []"
    using booted(4) by (auto simp: boot_def Let_def restartBot_def setTelegram_def split: if_splits option.splits sum.splits)
  ultimately show ?case by (simp add: hub_typed_def typed_def full_ok_def panel_ok_def)
next
  case (stepped a a')
  then show ?case using hub_typed_run running_ok by blast
qed


section \<open>Frames of the node\<close>

definition node_frame :: "string \<Rightarrow> string \<Rightarrow> Msg \<Rightarrow> bool" where
  "node_frame tok ver m \<longleftrightarrow>
     m = (empty_msg TypeRegister)\<lparr>msgToken := tok, msgVersion := ver\<rparr>
     \<or> (\<exists>mt. m = (empty_msg TypeHeartbeat)\<lparr>msgMetrics := Some mt\<rparr>)
     \<or> (\<exists>q items. m = (empty_msg TypeTraffic)\<lparr>msgSeq := q, msgItems := items\<rparr>)
     \<or> (\<exists>ds. ds \<noteq> [] \<and> m = (empty_msg TypeDevices)\<lparr>msgDevices := ds\<rparr>)"

text \<open>What a session ever sends, the registration first.\<close>

inductive sends :: "string \<Rightarrow> 'e managed \<Rightarrow> Msg list \<Rightarrow> bool" for ver m where
  opened: "session_open ver regOk wok sok m = (alive, ms, m') \<Longrightarrow> sends ver m ms"
| beat: "heartbeat_tick now h sok m = (alive, ms, m') \<Longrightarrow> sends ver m ms"
| stats: "stats_tick io m = (alive, ms, m') \<Longrightarrow> sends ver m ms"

lemma send_batch_frames: "send_batch wok sok m = (alive, ms, m') \<Longrightarrow> f \<in> set ms \<Longrightarrow> node_frame tok ver f"
proof -
  have "node_frame tok ver (traffic_msg q items)" for q items unfolding node_frame_def traffic_msg_def by blast
  then show "send_batch wok sok m = (alive, ms, m') \<Longrightarrow> f \<in> set ms \<Longrightarrow> node_frame tok ver f"
    by (auto simp: send_batch_def Let_def split: prod.splits if_splits)
qed

lemma sends_frames:
  assumes "sends ver m ms" "f \<in> set ms"
  shows "node_frame (mgToken m) ver f"
  using assms
proof (induction rule: sends.induct)
  case (opened regOk wok sok alive ms m')
  then show ?case
    using send_batch_frames [of wok sok m]
    by (auto simp: session_open_def register_msg_def node_frame_def [of _ _ "(empty_msg TypeRegister)\<lparr>msgToken := t, msgVersion := v\<rparr>" for t v]
        split: if_splits prod.splits)
next
  case (beat now h sok alive ms m')
  then show ?case by (auto simp: heartbeat_tick_def node_frame_def Let_def split: if_splits prod.splits)
next
  case (stats io alive ms m')
  have d: "ds \<noteq> [] \<Longrightarrow> node_frame tok v ((empty_msg TypeDevices)\<lparr>msgDevices := ds\<rparr>)" for ds tok v
    unfolding node_frame_def by blast
  from stats show ?case
    using send_batch_frames by (auto simp: stats_tick_def Let_def d split: if_splits prod.splits bool.splits)
qed

section \<open>Property\<close>

text \<open>C20: the wire is well typed, in both directions. Every frame ever queued on or written to a connection of a running panel is an
  acknowledgement that carries a number and nothing else, or the configuration of that connection's own node with its TLS domain, empty
  or a valid host name; and the agent's parser reads that configuration back as the configuration without clients and, for each inbound
  it opens, exactly its clients. Every frame a node sends is a registration with its token, a heartbeat with
  metrics, numbered traffic or a device report with at least one device, with every field of the other kinds empty.\<close>

theorem frames_well_typed:
  assumes "running a" "c < length (objs a)" "m \<in> set (stream c a)" "sends ver g ms" "f \<in> set ms"
  shows "(m = (empty_msg TypeAck)\<lparr>msgSeq := msgSeq m\<rparr>
      \<or> (\<exists>node cl. m = config_msg node (Build (node_params node) cl) \<and> nID node = ncNode (objs a ! c)
            \<and> (msgTLSDomain m = '''' \<or> validHostname (msgTLSDomain m))
            \<and> parseClients (msgConfig m) = Some (marshal (Build (node_params node) []), books (node_params node) cl)))
    \<and> node_frame (mgToken g) ver f"
proof -
  have "panel_frame (ncNode (objs a ! c)) m"
    using running_typed [OF assms(1)] assms(2,3) by (auto simp: hub_typed_def typed_def)
  then consider (ack) q where "m = (empty_msg TypeAck)\<lparr>msgSeq := q\<rparr>"
    | (config) node cl where "m = config_msg node (Build (node_params node) cl)" "config_for (ncNode (objs a ! c)) node cl"
    unfolding panel_frame_def by blast
  then show ?thesis
  proof cases
    case ack
    with sends_frames [OF assms(4,5)] show ?thesis by simp
  next
    case config
    then have "msgTLSDomain m = '''' \<or> validHostname (msgTLSDomain m)" "msgConfig m = Some (Build (node_params node) cl)"
        "nID node = ncNode (objs a ! c)" "clients_ok cl"
      by (auto simp: config_msg_def config_for_def host_or_empty_def)
    with config(1) parse_Build sends_frames [OF assms(4,5)] show ?thesis by metis
  qed
qed

theorem frames_well_typed_witness:
  "\<exists>a m node cl. running a \<and> m \<in> set (stream 0 a) \<and> m = config_msg node (Build (node_params node) cl) \<and> nID node = 1
     \<and> parseClients (msgConfig m) = Some (marshal (Build (node_params node) []), books (node_params node) cl)"
proof -
  obtain a where a: "running a" "map_of (conns a) 1 = Some 0" "length (ncSend (objs a ! 0)) < sendCap"
    "GetNode 0 1 (store a) = Inr (scanNode 0 (store a) (demo_node\<lparr>nrAgentVersion := ''v1''\<rparr>))"
    "users (store a) = [demo_user]" "user_nodes (store a) = [(1, 1)]"
    by (rule demo_running_panel)
  let ?b = "enforcement_tick 0 a"
  have b: "running ?b" by (rule running.stepped [OF a(1)]) (rule run_step.enforced)
  have ok: "panel_ok a" "hub_ok ?b" using running_ok [OF a(1)] running_ok [OF b] by (simp_all add: full_ok_def panel_ok_def)
  have "(1, 0) \<in> set (conns a)" using a(2) by (rule map_of_SomeD)
  then have on: "1 \<in> set (OnlineNodeIDs a)" unfolding OnlineNodeIDs_def by force
  have "served 0 (activeSignature 0 (UsersForNode 1 (store a))) (syncNodes 0 (OnlineNodeIDs a) a)"
    by (rule syncNodes_serves_any [OF ok(1) on a(2,4)]) (rule disjI1, rule a(3))
  then obtain m where lc: "last_config (stream 0 ?b) = Some m"
    by (auto simp: served_def stream_def enforcement_tick_def checkUserTransitions_def check_user_frame)
  then have m: "m \<in> set (stream 0 ?b)" "msgType m = TypeConfig"
    unfolding last_config_def by (auto dest: find_key_eq)
  have c: "map_of (conns ?b) 1 = Some 0"
    using a(2) by (simp add: enforcement_tick_def checkUserTransitions_def check_user_frame conns_syncNodes)
  obtain alive ms m' where s: "session_open ''v1'' True True True demo_managed = (alive, register_msg ''v1'' demo_managed # ms, m')"
    by (cases "send_batch True True demo_managed") (simp add: session_open_def)
  have "m \<noteq> (empty_msg TypeAck)\<lparr>msgSeq := msgSeq m\<rparr>" 
  proof -
    have "msgType ((empty_msg TypeAck)\<lparr>msgSeq := q\<rparr>) \<noteq> TypeConfig" for q by (simp add: empty_msg_def msg_type_defs)
    with m(2) show ?thesis by metis
  qed
  with frames_well_typed [OF b hub_okD(1) [OF ok(2) c] m(1) sends.opened [OF s] list.set_intros(1)] hub_okD(2) [OF ok(2) c] b m(1)
  show ?thesis by auto
qed

end
