(* ===== verification/Bot_Inv.thy ===== *)
theory Bot_Inv
  imports Push
begin

text \<open>
  Who the Telegram bot of \<open>src/internal/panel/bot.go\<close> serves: only the chats of the allowlist, whatever else
  is in an answer of the Telegram server.
\<close>

section \<open>Commands do not touch the allowlist\<close>

lemma admins_push [simp]: "tgAdmins (snd (PushConfig now n a)) = tgAdmins a"
  by (auto simp: PushConfig_def trySend_def split: option.splits sum.splits)

lemma admins_sync [simp]: "tgAdmins (syncNode now n a) = tgAdmins a"
  using admins_push [of now n a] by (cases "PushConfig now n a") (auto simp: syncNode_def Let_def)

lemma admins_syncNodes [simp]: "tgAdmins (syncNodes now ns a) = tgAdmins a"
  unfolding syncNodes_def by (rule fold_keeps [where P = "\<lambda>b. tgAdmins b = tgAdmins a"]) simp_all

lemma admins_exec [simp]: "tgAdmins (snd (botExec r cmd args a)) = tgAdmins a"
proof -
  have "tgAdmins (snd (botAddUser r args a)) = tgAdmins a"
    by (simp add: botAddUser_def Let_def split: list.split option.split sum.split)
  moreover have "tgAdmins (snd (botMutateUser now args ac a)) = tgAdmins a" for now ac
    by (simp add: botMutateUser_def Let_def split: list.split sum.split action.split)
  ultimately show ?thesis by (simp add: botExec_def)
qed

lemma authorized_eq: "botAuthorized c a \<longleftrightarrow> c \<in> set (tgAdmins a)"
  by (auto simp: botAuthorized_def currentTelegram_def list_ex_iff)

lemma admins_update [simp]: "tgAdmins (snd (snd (bot_update ru st))) = tgAdmins (snd (snd st))"
  by (auto simp: bot_update_def botHandle_def split: prod.splits option.splits list.splits) (metis admins_exec snd_conv)

section \<open>Updates, one by one\<close>

definition from_admin :: "int64 list \<Rightarrow> request \<times> tgUpdate \<Rightarrow> bool" where
  "from_admin adms ru = (case Message (snd ru) of None \<Rightarrow> False | Some (_, chat) \<Rightarrow> chat \<in> set adms)"

definition denial :: "int64 \<Rightarrow> int64 \<times> reply" where
  "denial c = (c, Text (''Unauthorized. Your chat id is '' @ FormatInt c @ ''; add it in the panel (Security '' @ arrow @ '' Telegram).''))"

lemma stranger_update:
  assumes "\<not> from_admin (tgAdmins (snd (snd st))) ru"
  shows "snd (snd (bot_update ru st)) = snd (snd st)"
    "fst (snd (bot_update ru st)) = fst (snd st) \<or> (\<exists>text c. Message (snd ru) = Some (text, c) \<and> fst (snd (bot_update ru st)) = fst (snd st) @ [denial c])"
  using assms by (auto simp: bot_update_def botHandle_def from_admin_def authorized_eq denial_def split: prod.splits option.splits)

text \<open>What an update does to the panel does not depend on what was sent before.\<close>

definition after_update :: "request \<times> tgUpdate \<Rightarrow> App \<Rightarrow> App" where
  "after_update ru a =
     (case Message (snd ru) of
        None \<Rightarrow> a
      | Some (text, chat) \<Rightarrow>
          if text = '''' \<or> \<not> botAuthorized chat a then a
          else (case Fields text of [] \<Rightarrow> a | w # args \<Rightarrow> snd (botExec (fst ru) (command_of w) args a)))"

lemma update_effect: "snd (snd (bot_update ru st)) = after_update ru (snd (snd st))"
proof -
  obtain r u off sent a where eqs: "ru = (r, u)" "st = (off, sent, a)" by (metis prod.exhaust)
  show ?thesis
    unfolding eqs by (simp add: bot_update_def botHandle_def after_update_def split: option.split prod.split list.split)
qed

lemma updates_effect: "snd (snd (fold bot_update us st)) = fold after_update us (snd (snd st))"
proof (induction us arbitrary: st)
  case (Cons u us)
  have "snd (snd (fold bot_update (u # us) st)) = fold after_update us (snd (snd (bot_update u st)))" using Cons.IH by simp
  then show ?case by (simp add: update_effect)
qed simp

lemma strangers_ignored: "fold after_update us a = fold after_update (filter (from_admin (tgAdmins a)) us) a"
proof (induction us arbitrary: a)
  case (Cons u us)
  have adm: "tgAdmins (after_update u a) = tgAdmins a"
    using admins_update [of u "(0, [], a)"] by (simp add: update_effect)
  show ?case
  proof (cases "from_admin (tgAdmins a) u")
    case True
    with Cons [of "after_update u a"] adm show ?thesis by simp
  next
    case False
    with stranger_update(1) [of "(0, [], a)" u] have "after_update u a = a" by (simp add: update_effect)
    with Cons [of a] False show ?thesis by simp
  qed
qed simp

lemma replies_to:
  "r \<in> set (fst (snd (fold bot_update us st))) \<Longrightarrow> fst r \<notin> set (tgAdmins (snd (snd st))) \<Longrightarrow> r \<in> set (fst (snd st)) \<or> r = denial (fst r)"
proof (induction us arbitrary: st)
  case (Cons u us)
  have one: "r \<in> set (fst (snd st)) \<or> r = denial (fst r)" if "r \<in> set (fst (snd (bot_update u st)))"
    using that Cons.prems(2)
    by (auto simp: bot_update_def botHandle_def authorized_eq denial_def split: prod.splits option.splits list.splits if_splits)
  from Cons.IH [of "bot_update u st"] Cons.prems one show ?case by auto
qed simp

lemma offset_of: "fst (fold bot_update us st) = (if us = [] then fst st else wrap64 (UpdateID (snd (last us)) + 1))"
proof (induction us arbitrary: st)
  case (Cons u us)
  then show ?case by (cases u; cases st) (auto simp: bot_update_def)
qed simp

section \<open>Property\<close>

text \<open>C25: the bot obeys its allowlist only. Whatever updates the Telegram server hands over in one answer, the panel ends up exactly as if only
  the updates from allowlisted chats had been there, in their order; with an empty allowlist nothing ever changes it. No command changes
  the allowlist, a chat outside it is never sent anything but the denial, and the offset asked for next is one past the
  last update, so that with increasing identifiers no update is handed over twice.\<close>

theorem bot_serves_allowlist_only:
  "poll (Some us) (off, sent, a) = (off', sent', a') \<Longrightarrow>
     snd (snd (poll (Some (filter (from_admin (tgAdmins a)) us)) (off, sent, a))) = a' \<and>
     (tgAdmins a = [] \<longrightarrow> a' = a) \<and> tgAdmins a' = tgAdmins a \<and>
     (\<forall>r \<in> set sent'. fst r \<in> set (tgAdmins a) \<or> r \<in> set sent \<or> r = denial (fst r)) \<and>
     (us \<noteq> [] \<longrightarrow> off' = wrap64 (UpdateID (snd (last us)) + 1)) \<and>
     (sorted (map (\<lambda>u. UpdateID (snd u)) us) \<and> (\<forall>u \<in> set us. 0 \<le> UpdateID (snd u) \<and> UpdateID (snd u) < max_int64) \<longrightarrow> (\<forall>u \<in> set us. UpdateID (snd u) < off'))"
proof (intro conjI impI ballI)
  assume "poll (Some us) (off, sent, a) = (off', sent', a')"
  then have p: "fold bot_update us (off, sent, a) = (off', sent', a')" by (simp add: poll_def)
  show ig: "snd (snd (poll (Some (filter (from_admin (tgAdmins a)) us)) (off, sent, a))) = a'"
    using strangers_ignored [of us a] updates_effect [of us "(off, sent, a)"] p by (simp add: poll_def updates_effect)
  show "a' = a" if "tgAdmins a = []"
  proof -
    have "\<not> from_admin [] u" for u by (simp add: from_admin_def split: option.split)
    with ig that show ?thesis by (simp add: poll_def)
  qed
  have "tgAdmins (snd (snd (fold bot_update us st))) = tgAdmins (snd (snd st))" for st
    by (rule fold_keeps [where P = "\<lambda>s. tgAdmins (snd (snd s)) = tgAdmins (snd (snd st))"]) simp_all
  from this [of "(off, sent, a)"] show "tgAdmins a' = tgAdmins a" by (simp add: p)
  show "fst r \<in> set (tgAdmins a) \<or> r \<in> set sent \<or> r = denial (fst r)" if "r \<in> set sent'" for r
    using replies_to [of r us "(off, sent, a)"] that p by auto
  show off: "off' = wrap64 (UpdateID (snd (last us)) + 1)" if "us \<noteq> []"
    using offset_of [of us "(off, sent, a)"] that p by simp
  fix u
  assume s: "sorted (map (\<lambda>u. UpdateID (snd u)) us) \<and> (\<forall>u \<in> set us. 0 \<le> UpdateID (snd u) \<and> UpdateID (snd u) < max_int64)" and u: "u \<in> set us"
  then have ne: "us \<noteq> []" by auto
  then have l: "0 \<le> UpdateID (snd (last us))" "UpdateID (snd (last us)) < max_int64" using s by auto
  obtain vs v where us: "us = vs @ [v]" using ne by (cases us rule: rev_cases) simp_all
  then have "UpdateID (snd u) \<le> UpdateID (snd (last us))" using s u by (auto simp: sorted_append)
  with off [OF ne] l show "UpdateID (snd u) < off'" by (simp add: in_int64_def min_int64_def)
qed

definition stranger_asks :: "(request \<times> tgUpdate) list" where
  "stranger_asks = [(demo_request, \<lparr>UpdateID = 5, Message = Some (''/deluser al'', 9)\<rparr>)]"

theorem bot_serves_allowlist_only_witness:
  "\<exists>(a0 :: App) sent. running a0 \<and> poll (Some stranger_asks) (0, [], a0\<lparr>tgAdmins := [7]\<rparr>) = (6, sent, a0\<lparr>tgAdmins := [7]\<rparr>) \<and> (\<forall>r \<in> set sent. fst r = 7 \<or> r = denial (fst r))"
proof -
  obtain a0 where a0: "running a0" by (rule fresh_state)
  let ?a = "a0\<lparr>tgAdmins := [7]\<rparr>"
  obtain off' sent' a' where p: "poll (Some stranger_asks) (0, [], ?a) = (off', sent', a')" by (metis prod.exhaust)
  have "filter (from_admin (tgAdmins ?a)) stranger_asks = []" by (simp add: stranger_asks_def from_admin_def)
  then have "a' = ?a" "off' = wrap64 (UpdateID (snd (last stranger_asks)) + 1)" "\<forall>r \<in> set sent'. fst r = 7 \<or> r = denial (fst r)"
    using bot_serves_allowlist_only [OF p] by (simp_all add: poll_def stranger_asks_def)
  moreover have "wrap64 (UpdateID (snd (last stranger_asks)) + 1) = 6" by (simp add: stranger_asks_def in_int64_def int64_defs)
  ultimately show ?thesis using a0 p by (intro exI [of _ a0] exI [of _ sent'] conjI) simp_all
qed

end
