(* ===== verification/Standalone.thy ===== *)
theory Standalone
  imports Live_Inv Agent Decode Subscription Ids
begin

text \<open>
  Standalone mode (\<open>src/internal/agent/standalone.go\<close>, \<open>localstore.go\<close>): a node without a panel keeps its users in a
  local JSON file and is managed by commands run in its container. A command is a process of its own: it
  loads the file, changes it, writes it back and applies the configuration. The outcome of each file
  operation is an input. The idle loop of \<open>RunStandalone\<close> only drops counters and is not modelled.
\<close>

section \<open>The user file\<close>

record localUser =
  luName :: string
  luUUID :: string

record localDB =
  dbUsers :: "localUser list"

text \<open>\<open>FData\<close> holds what the bytes of a non-empty file decode to.\<close>

datatype local_file =
    FAbsent
  | FUnreadable
  | FEmpty
  | FData raw_message

definition zero_user :: localUser where
  "zero_user = \<lparr>luName = '''', luUUID = ''''\<rparr>"

definition local_user_struct :: "localUser struct" where
  "local_user_struct = [(''name'', to_string luName_update), (''uuid'', to_string luUUID_update)]"

definition elem_user :: "localUser \<Rightarrow> json \<Rightarrow> localUser option" where
  "elem_user old j = (case decode local_user_struct (Some j) old of (ok, u) \<Rightarrow> if ok then Some u else None)"

text \<open>Elements of an array are decoded onto those the slice already has (from an earlier \<open>users\<close> key).\<close>

definition to_users :: "localDB setter" where
  "to_users j db =
     (case j of
        JNull \<Rightarrow> Some (db\<lparr>dbUsers := []\<rparr>)
      | JArr xs \<Rightarrow> map_option (\<lambda>us. db\<lparr>dbUsers := us\<rparr>)
                   (those (map (\<lambda>(old, x). elem_user old x)
                      (zip (dbUsers db @ replicate (length xs - length (dbUsers db)) zero_user) xs)))
      | _ \<Rightarrow> None)"

definition loadLocalDB :: "local_file \<Rightarrow> localDB option" where
  "loadLocalDB f =
     (case f of
        FAbsent \<Rightarrow> Some \<lparr>dbUsers = []\<rparr>
      | FUnreadable \<Rightarrow> None
      | FEmpty \<Rightarrow> Some \<lparr>dbUsers = []\<rparr>
      | FData raw \<Rightarrow> (case decode [(''users'', to_users)] raw \<lparr>dbUsers = []\<rparr> of (ok, db) \<Rightarrow> if ok then Some db else None))"

text \<open>What \<open>encoding/json\<close> makes of a string that is not UTF-8: each bad byte becomes U+FFFD.\<close>

function json_text :: "nat list \<Rightarrow> string" where
  "json_text bs =
     (if bs = [] then ''''
      else case decode_rune bs of (r, w) \<Rightarrow>
        (if w = 1 \<and> 0x80 \<le> r then [CHR 0xEF, CHR 0xBF, CHR 0xBD] else string_of (take w bs)) @ json_text (drop w bs))"
  by pat_completeness auto
termination
proof (relation "measure length", goal_cases)
  case (2 bs r w)
  then have "0 < w" using decode_rune_width [of bs] by (metis snd_conv)
  with 2 show ?case by simp
qed simp

declare json_text.simps [simp del]

definition utf8_ok :: "string \<Rightarrow> bool" where
  "utf8_ok s \<longleftrightarrow> json_text (bytes_of s) = s"

definition user_obj :: "localUser \<Rightarrow> json" where
  "user_obj u = JObj [(''name'', JStr (json_text (bytes_of (luName u)))), (''uuid'', JStr (json_text (bytes_of (luUUID u))))]"

definition db_json :: "localDB \<Rightarrow> json" where
  "db_json db = JObj [(''users'', JArr (map user_obj (dbUsers db)))]"

text \<open>Writing in place: it may fail before the file is opened or after it was truncated; a proper beginning of the
  text of an object is empty or no JSON.\<close>

datatype save_outcome =
    Saved
  | Unsaved
  | Truncated bool

definition saveLocalDB :: "save_outcome \<Rightarrow> localDB \<Rightarrow> local_file \<Rightarrow> bool \<times> local_file" where
  "saveLocalDB out db f =
     (case out of
        Saved \<Rightarrow> (True, FData (Some (db_json db)))
      | Unsaved \<Rightarrow> (False, f)
      | Truncated toNothing \<Rightarrow> (False, if toNothing then FEmpty else FData None))"

text \<open>The index of a user; \<open>None\<close> stands for \<open>-1\<close>.\<close>

fun find_user :: "string \<Rightarrow> localUser list \<Rightarrow> nat option" where
  "find_user name [] = None"
| "find_user name (u # us) = (if luName u = name then Some 0 else map_option Suc (find_user name us))"

definition genUUID :: "nat list \<Rightarrow> string" where
  "genUUID b0 =
     (let b1 = b0[6 := (b0 ! 6 AND 0x0f) OR 0x40]; b = b1[8 := (b1 ! 8 AND 0x3f) OR 0x80];
          x = (\<lambda>i j. concat (map hex_byte (drop i (take j b))))
      in Join [x 0 4, x 4 6, x 6 8, x 8 10, x 10 16] ''-'')"

section \<open>The node's own parameters\<close>

record standaloneEnv =
  seUsersFile :: string
  seAddress :: string
  seTLSDomain :: string
  seRealityDest :: string
  seRealityServerName :: string
  seRealityPrivateKey :: string
  seRealityPublicKey :: string
  seRealityShortID :: string

definition loadStandaloneEnv :: "(string \<Rightarrow> string) \<Rightarrow> standaloneEnv" where
  "loadStandaloneEnv e =
     \<lparr>seUsersFile = getenv_or e ''XUANWU_USERS_FILE'' ''/data/users.json'',
      seAddress = getenv_or e ''ADDRESS'' (getenv_or e ''DOMAIN'' ''''),
      seTLSDomain = getenv_or e ''DOMAIN'' '''',
      seRealityDest = getenv_or e ''REALITY_DEST'' '''',
      seRealityServerName = getenv_or e ''REALITY_SERVER_NAME'' '''',
      seRealityPrivateKey = getenv_or e ''REALITY_PRIVATE_KEY'' '''',
      seRealityPublicKey = getenv_or e ''REALITY_PUBLIC_KEY'' '''',
      seRealityShortID = getenv_or e ''REALITY_SHORT_ID'' ''''\<rparr>"

definition se_params :: "standaloneEnv \<Rightarrow> NodeParams" where
  "se_params se = \<lparr>npRealityDest = seRealityDest se, npRealityServerName = seRealityServerName se,
     npRealityPrivateKey = seRealityPrivateKey se, npRealityShortID = seRealityShortID se, npTLSDomain = seTLSDomain se\<rparr>"

definition shareLinks :: "standaloneEnv \<Rightarrow> localUser \<Rightarrow> string list" where
  "shareLinks se u =
     (let host = seAddress se;
          q0 = fold (\<lambda>(k, v). gomap_set k v)
            [(''encryption'', ''none''), (''flow'', ''xtls-rprx-vision''), (''security'', ''reality''),
             (''sni'', seRealityServerName se), (''fp'', ''chrome''), (''pbk'', seRealityPublicKey se)] [];
          q1 = (if seRealityShortID se \<noteq> '''' then gomap_set ''sid'' (seRealityShortID se) q0 else q0);
          rq = gomap_set ''type'' ''tcp'' q1;
          tq = fold (\<lambda>(k, v). gomap_set k v)
            [(''encryption'', ''none''), (''flow'', ''xtls-rprx-vision''), (''security'', ''tls''),
             (''sni'', seTLSDomain se), (''fp'', ''chrome''), (''type'', ''tcp'')] []
      in (if host \<noteq> '''' \<and> seRealityDest se \<noteq> '''' \<and> seRealityPublicKey se \<noteq> '''' \<and> seRealityServerName se \<noteq> ''''
          then [vless_link (luUUID u) host rq (luName u @ ''-reality'')] else [])
         @ (if seTLSDomain se \<noteq> '''' then [vless_link (luUUID u) (seTLSDomain se) tq (luName u @ ''-tls'')] else []))"

section \<open>Commands\<close>

record 'e standalone =
  saFile :: local_file
  saAgent :: "'e agent"

record cli_io =
  ciRand :: "nat list"
  ciSave :: save_outcome
  ciEdge :: edge_io
  ciAgent :: agent_io

datatype cli_error =
    LoadFailed
  | UserExists string
  | UserNotFound string
  | SaveFailed
  | ApplyFailed
  | UnknownCommand "string list"

datatype printed =
    Stdout string
  | Stderr string

definition local_clients :: "localDB \<Rightarrow> Client list" where
  "local_clients db = map (\<lambda>u. \<lparr>cUUID = luUUID u, cEmail = luName u\<rparr>) (dbUsers db)"

definition applyStandalone :: "'e engine_api \<Rightarrow> cli_io \<Rightarrow> standaloneEnv \<Rightarrow> 'e standalone \<Rightarrow> (cli_error + unit) \<times> 'e standalone" where
  "applyStandalone E io se s =
     (case loadLocalDB (saFile s) of
        None \<Rightarrow> (Inl LoadFailed, s)
      | Some db \<Rightarrow>
          let a = saAgent s;
              a1 = a\<lparr>agEdge := writeACMEDomain (ciEdge io) (seTLSDomain se) (agEdge a)\<rparr>;
              (ok, a2) = applyConfig E (ciAgent io) (Some (Build (se_params se) (local_clients db))) a1
          in (if ok then Inr () else Inl ApplyFailed, s\<lparr>saAgent := a2\<rparr>))"

text \<open>Save and apply, the common end of the two commands that change the file.\<close>

definition save_and_apply :: "'e engine_api \<Rightarrow> cli_io \<Rightarrow> standaloneEnv \<Rightarrow> localDB \<Rightarrow> printed list \<Rightarrow> 'e standalone
    \<Rightarrow> (cli_error + printed list) \<times> 'e standalone" where
  "save_and_apply E io se db out s =
     (case saveLocalDB (ciSave io) db (saFile s) of
        (False, f) \<Rightarrow> (Inl SaveFailed, s\<lparr>saFile := f\<rparr>)
      | (True, f) \<Rightarrow>
          (case applyStandalone E io se (s\<lparr>saFile := f\<rparr>) of
             (Inl e, s') \<Rightarrow> (Inl e, s')
           | (Inr _, s') \<Rightarrow> (Inr out, s')))"

definition cliAddUser :: "'e engine_api \<Rightarrow> cli_io \<Rightarrow> standaloneEnv \<Rightarrow> string \<Rightarrow> 'e standalone \<Rightarrow> (cli_error + printed list) \<times> 'e standalone" where
  "cliAddUser E io se name s =
     (case loadLocalDB (saFile s) of
        None \<Rightarrow> (Inl LoadFailed, s)
      | Some db \<Rightarrow>
          if find_user name (dbUsers db) \<noteq> None then (Inl (UserExists name), s)
          else
            let u = \<lparr>luName = name, luUUID = genUUID (ciRand io)\<rparr>
            in save_and_apply E io se (db\<lparr>dbUsers := dbUsers db @ [u]\<rparr>)
                 (Stdout (''added user '' @ name) # map Stdout (shareLinks se u)) s)"

definition cliRemoveUser :: "'e engine_api \<Rightarrow> cli_io \<Rightarrow> standaloneEnv \<Rightarrow> string \<Rightarrow> 'e standalone \<Rightarrow> (cli_error + printed list) \<times> 'e standalone" where
  "cliRemoveUser E io se name s =
     (case loadLocalDB (saFile s) of
        None \<Rightarrow> (Inl LoadFailed, s)
      | Some db \<Rightarrow>
          (case find_user name (dbUsers db) of
             None \<Rightarrow> (Inl (UserNotFound name), s)
           | Some i \<Rightarrow>
               save_and_apply E io se (db\<lparr>dbUsers := take i (dbUsers db) @ drop (Suc i) (dbUsers db)\<rparr>)
                 [Stdout (''removed user '' @ name)] s))"

text \<open>\<open>%-20s\<close> counts runes.\<close>

definition pad20 :: "string \<Rightarrow> string" where
  "pad20 s = s @ replicate (20 - length (runes (bytes_of s))) CHR '' ''"

definition cliListUsers :: "'e standalone \<Rightarrow> (cli_error + printed list) \<times> 'e standalone" where
  "cliListUsers s =
     (case loadLocalDB (saFile s) of
        None \<Rightarrow> (Inl LoadFailed, s)
      | Some db \<Rightarrow>
          (Inr (if dbUsers db = [] then [Stderr ''no users'']
                else map (\<lambda>u. Stdout (pad20 (luName u) @ '' '' @ luUUID u)) (dbUsers db)), s))"

definition RunCLI :: "'e engine_api \<Rightarrow> cli_io \<Rightarrow> standaloneEnv \<Rightarrow> string list \<Rightarrow> 'e standalone \<Rightarrow> (cli_error + printed list) \<times> 'e standalone" where
  "RunCLI E io se args s =
     (if length args \<ge> 3 \<and> args ! 0 = ''user'' \<and> args ! 1 = ''add'' then cliAddUser E io se (args ! 2) s
      else if length args \<ge> 3 \<and> args ! 0 = ''user'' \<and> args ! 1 = ''rm'' then cliRemoveUser E io se (args ! 2) s
      else if length args \<ge> 2 \<and> args ! 0 = ''user'' \<and> args ! 1 = ''list'' then cliListUsers s
      else if length args \<ge> 1 \<and> args ! 0 = ''apply'' then
        (case applyStandalone E io se s of (Inl e, s') \<Rightarrow> (Inl e, s') | (Inr _, s') \<Rightarrow> (Inr [], s'))
      else (Inl (UnknownCommand args), s))"

text \<open>\<open>RunStandalone\<close> up to its idle loop.\<close>

definition standalone_start :: "'e engine_api \<Rightarrow> cli_io \<Rightarrow> (string \<Rightarrow> string) \<Rightarrow> 'e standalone \<Rightarrow> (cli_error + unit) \<times> 'e standalone" where
  "standalone_start E io e s = applyStandalone E io (loadStandaloneEnv e) s"

section \<open>The file read back\<close>

lemma json_text_ascii: "\<forall>b \<in> set bs. b < 128 \<Longrightarrow> json_text bs = string_of bs"
proof (induction bs)
  case Nil
  then show ?case by (simp add: json_text.simps string_of_def)
next
  case (Cons b bs)
  then have "decode_rune (b # bs) = (b, 1)" by (cases bs) simp_all
  with Cons show ?case by (subst json_text.simps) (simp add: string_of_def)
qed

lemma utf8_ascii: "\<forall>b \<in> set (bytes_of s). b < 128 \<Longrightarrow> utf8_ok s"
  by (simp add: utf8_ok_def json_text_ascii)

lemma genUUID_eq: "genUUID = newUUID"
  by (simp add: genUUID_def newUUID_def fun_eq_iff Let_def)

lemma hex_ascii: "\<forall>b \<in> set (bytes_of hex_alphabet). b < 128"
  by (simp add: hex_alphabet_def)

lemma set_bytes_of: "set (bytes_of s) = of_char ` set s"
  by (simp add: bytes_of_def)

lemma utf8_genUUID:
  assumes "length b = 16" "\<forall>x \<in> set b. x < 256"
  shows "utf8_ok (genUUID b)"
proof (rule utf8_ascii)
  have "set (bytes_of (genUUID b)) \<subseteq> of_char ` insert (CHR ''-'') (set hex_alphabet)"
    unfolding set_bytes_of genUUID_eq by (rule image_mono) (rule newUUID_chars [OF assms])
  then show "\<forall>x \<in> set (bytes_of (genUUID b)). x < 128"
    using hex_ascii by (auto simp: set_bytes_of)
qed

definition user_ok :: "localUser \<Rightarrow> bool" where
  "user_ok u \<longleftrightarrow> luName u \<noteq> '''' \<and> utf8_ok (luName u) \<and> utf8_ok (luUUID u)"

lemma elem_user_obj: "utf8_ok (luName u) \<Longrightarrow> utf8_ok (luUUID u) \<Longrightarrow> elem_user zero_user (user_obj u) = Some u"
  by (simp add: elem_user_def decode_def decode_member_def struct_field_def local_user_struct_def user_obj_def to_string_def zero_user_def utf8_ok_def)

lemma load_saved:
  assumes "\<forall>u \<in> set (dbUsers db). user_ok u"
  shows "loadLocalDB (FData (Some (db_json db))) = Some db"
proof -
  have "those (map (\<lambda>(old, x). elem_user old x) (zip (replicate (length us) zero_user) (map user_obj us))) = Some us"
    if "\<forall>u \<in> set us. user_ok u" for us
    using that by (induction us) (simp_all add: user_ok_def elem_user_obj)
  from this [OF assms] show ?thesis
    by (simp add: loadLocalDB_def db_json_def decode_def decode_member_def struct_field_def to_users_def)
qed

section \<open>The users as a map\<close>

abbreviation book_of :: "localDB \<Rightarrow> string \<Rightarrow> string option" where
  "book_of db \<equiv> map_of (map (\<lambda>u. (luName u, luUUID u)) (dbUsers db))"

definition user_book :: "local_file \<Rightarrow> (string \<Rightarrow> string option) option" where
  "user_book f = map_option book_of (loadLocalDB f)"

definition db_ok :: "localDB \<Rightarrow> bool" where
  "db_ok db \<longleftrightarrow> distinct (map luName (dbUsers db)) \<and> (\<forall>u \<in> set (dbUsers db). user_ok u)"

definition file_ok :: "local_file \<Rightarrow> bool" where
  "file_ok f \<longleftrightarrow> (case loadLocalDB f of None \<Rightarrow> True | Some db \<Rightarrow> db_ok db)"

lemma find_user_None: "find_user name us = None \<longleftrightarrow> name \<notin> luName ` set us"
  by (induction us) auto

lemma find_user_Some: "find_user name us = Some i \<Longrightarrow> distinct (map luName us) \<Longrightarrow>
    take i us @ drop (Suc i) us = filter (\<lambda>u. luName u \<noteq> name) us"
proof (induction us arbitrary: i)
  case (Cons u us)
  show ?case
  proof (cases "luName u = name")
    case True
    with Cons.prems have "\<forall>x \<in> set us. luName x \<noteq> name" "i = 0" by (auto, metis imageI)
    with True show ?thesis by simp
  next
    case False
    with Cons show ?thesis by auto
  qed
qed simp

lemma book_None: "book_of db name = None \<longleftrightarrow> find_user name (dbUsers db) = None"
  by (simp add: find_user_None map_of_eq_None_iff image_comp)

lemma book_added: "find_user (luName u) (dbUsers db) = None \<Longrightarrow>
    book_of (db\<lparr>dbUsers := dbUsers db @ [u]\<rparr>) = (book_of db)(luName u \<mapsto> luUUID u)"
  using book_None [of db "luName u"] by (intro ext) (auto simp: map_add_def simp del: map_of_eq_None_iff split: option.split)

lemma book_removed: "book_of (db\<lparr>dbUsers := filter (\<lambda>u. luName u \<noteq> name) (dbUsers db)\<rparr>) = (book_of db)(name := None)"
proof -
  have "map_of (map (\<lambda>u. (luName u, luUUID u)) (filter (\<lambda>u. luName u \<noteq> name) us)) k =
      ((map_of (map (\<lambda>u. (luName u, luUUID u)) us))(name := None)) k" for us k
    by (induction us) auto
  then show ?thesis by (intro ext) (simp del: fun_upd_apply)
qed

lemma db_ok_added: "db_ok db \<Longrightarrow> find_user (luName u) (dbUsers db) = None \<Longrightarrow> user_ok u \<Longrightarrow> db_ok (db\<lparr>dbUsers := dbUsers db @ [u]\<rparr>)"
  by (auto simp: db_ok_def find_user_None)

lemma db_ok_filter: "db_ok db \<Longrightarrow> db_ok (db\<lparr>dbUsers := filter P (dbUsers db)\<rparr>)"
  by (auto simp: db_ok_def distinct_map_filter)

section \<open>What a command does\<close>

text \<open>The engine accepts exactly the users of the file, at each inbound the configuration opens (\<open>certPath\<close>: the agent's \<open>XRAY_CERT\<close>).\<close>

definition serves_book :: "('e \<Rightarrow> user_view) \<Rightarrow> cli_io \<Rightarrow> standaloneEnv \<Rightarrow> string \<Rightarrow> 'e standalone \<Rightarrow> bool" where
  "serves_book runs io se certPath s \<longleftrightarrow> (\<exists>b. user_book (saFile s) = Some b \<and> (\<forall>tag \<in> {tagTLS, tagReality}. \<forall>name u.
     runs (agEngine (saAgent s)) tag name = Some u
       \<longleftrightarrow> opens (effective (ioCert (ciAgent io)) certPath (se_params se)) tag \<and> b name = Some u))"

lemma local_clients_ok: "db_ok db \<Longrightarrow> clients_ok (local_clients db)"
  by (force simp: db_ok_def clients_ok_def local_clients_def comp_def user_ok_def)

lemma in_local_clients: "db_ok db \<Longrightarrow> \<lparr>cUUID = u, cEmail = name\<rparr> \<in> set (local_clients db) \<longleftrightarrow> book_of db name = Some u"
proof -
  assume "db_ok db"
  then have "distinct (map fst (map (\<lambda>x. (luName x, luUUID x)) (dbUsers db)))" by (simp add: db_ok_def comp_def)
  from map_of_eq_Some_iff [OF this, of name u] show ?thesis by (auto simp: local_clients_def image_iff)
qed

lemma applyStandalone_serves:
  assumes E: "engine_ok E runs" "described runs (saAgent s)" and db: "loadLocalDB (saFile s) = Some db" "db_ok db"
    and ok: "applyStandalone E io se s = (Inr x, s')"
  shows "saFile s' = saFile s" "serves_book runs io se (agCertPath (saAgent s)) s'" "described runs (saAgent s')"
proof -
  let ?a1 = "(saAgent s)\<lparr>agEdge := writeACMEDomain (ciEdge io) (seTLSDomain se) (agEdge (saAgent s))\<rparr>"
  obtain ok2 a2 where p: "applyConfig E (ciAgent io) (Some (Build (se_params se) (local_clients db))) ?a1 = (ok2, a2)" by fastforce
  with ok db have s': "s' = s\<lparr>saAgent := a2\<rparr>" "ok2" by (auto simp: applyStandalone_def Let_def split: if_splits)
  have d: "described runs ?a1" using E(2) by (simp add: described_def)
  note r = applied_engine [OF E(1) d local_clients_ok [OF db(2)], of "ciAgent io" "se_params se" a2]
  show "saFile s' = saFile s" "described runs (saAgent s')" using s' r(1) p by simp_all
  show "serves_book runs io se (agCertPath (saAgent s)) s'"
    using r(3) p s' db in_local_clients [OF db(2)] by (auto simp: serves_book_def user_book_def)
qed

lemma applyStandalone_error:
  assumes "loadLocalDB (saFile s) = Some db" "applyStandalone E io se s = (Inl e, s')"
  shows "e = ApplyFailed" "saFile s' = saFile s"
  using assms by (auto simp: applyStandalone_def Let_def split: prod.splits if_splits)

lemma save_and_apply_ok:
  assumes E: "engine_ok E runs" "described runs (saAgent s)" and db: "db_ok db"
    and r: "save_and_apply E io se db out s = (Inr out', s')"
  shows "out' = out" "loadLocalDB (saFile s') = Some db" "described runs (saAgent s')" "serves_book runs io se (agCertPath (saAgent s)) s'"
proof -
  let ?s = "s\<lparr>saFile := FData (Some (db_json db))\<rparr>"
  have l: "loadLocalDB (saFile ?s) = Some db" using load_saved db by (simp add: db_ok_def)
  have "ciSave io = Saved" using r by (auto simp: save_and_apply_def saveLocalDB_def split: save_outcome.splits)
  with r obtain x where x: "applyStandalone E io se ?s = (Inr x, s')" "out' = out"
    by (auto simp: save_and_apply_def saveLocalDB_def split: prod.splits sum.splits)
  have d: "described runs (saAgent ?s)" using E(2) by simp
  note a = applyStandalone_serves [OF E(1) d l db x(1)]
  from x(2) show "out' = out" .
  from a l show "loadLocalDB (saFile s') = Some db" "described runs (saAgent s')" "serves_book runs io se (agCertPath (saAgent s)) s'"
    by simp_all
qed

lemma save_and_apply_error:
  assumes db: "db_ok db" and r: "save_and_apply E io se db out s = (Inl e, s')"
  shows "e = SaveFailed \<and> ciSave io \<noteq> Saved \<and> (loadLocalDB (saFile s') \<in> {loadLocalDB (saFile s), Some \<lparr>dbUsers = []\<rparr>, None})
    \<or> e = ApplyFailed \<and> ciSave io = Saved \<and> loadLocalDB (saFile s') = Some db"
proof (cases "ciSave io")
  case Saved
  let ?s = "s\<lparr>saFile := FData (Some (db_json db))\<rparr>"
  have l: "loadLocalDB (saFile ?s) = Some db" using load_saved db by (simp add: db_ok_def)
  from r Saved have "applyStandalone E io se ?s = (Inl e, s')"
    by (auto simp: save_and_apply_def saveLocalDB_def split: prod.splits sum.splits)
  from applyStandalone_error [OF l this] l Saved show ?thesis by simp
qed (use r in \<open>auto simp: save_and_apply_def saveLocalDB_def loadLocalDB_def decode_def split: if_splits\<close>)

lemma file_ok_known: "loadLocalDB f \<in> {Some db, Some \<lparr>dbUsers = []\<rparr>, None} \<Longrightarrow> db_ok db \<Longrightarrow> file_ok f"
  by (auto simp: file_ok_def db_ok_def)

lemma cli_args:
  "RunCLI E io se [''user'', ''add'', name] s = cliAddUser E io se name s"
  "RunCLI E io se [''user'', ''rm'', name] s = cliRemoveUser E io se name s"
  by (simp_all add: RunCLI_def)

text \<open>The file after \<open>add\<close> and after \<open>rm\<close>.\<close>

definition added :: "cli_io \<Rightarrow> string \<Rightarrow> localDB \<Rightarrow> localDB" where
  "added io name db = db\<lparr>dbUsers := dbUsers db @ [\<lparr>luName = name, luUUID = genUUID (ciRand io)\<rparr>]\<rparr>"

definition removed :: "string \<Rightarrow> localDB \<Rightarrow> localDB" where
  "removed name db = db\<lparr>dbUsers := filter (\<lambda>u. luName u \<noteq> name) (dbUsers db)\<rparr>"

lemma added_ok:
  assumes "db_ok db" "book_of db name = None" "name \<noteq> ''''" "utf8_ok name" "length (ciRand io) = 16" "\<forall>x \<in> set (ciRand io). x < 256"
  shows "db_ok (added io name db)" "book_of (added io name db) = (book_of db)(name \<mapsto> genUUID (ciRand io))"
  using db_ok_added [of db "\<lparr>luName = name, luUUID = genUUID (ciRand io)\<rparr>"] book_added [of "\<lparr>luName = name, luUUID = genUUID (ciRand io)\<rparr>" db]
    utf8_genUUID [OF assms(5,6)] assms(1-4) unfolding book_None added_def
  by (simp_all only: user_ok_def localUser.simps simp_thms)

lemma filter_known: "name \<notin> luName ` set (dbUsers db) \<Longrightarrow> db\<lparr>dbUsers := filter (\<lambda>u. luName u \<noteq> name) (dbUsers db)\<rparr> = db"
  by (cases db) (auto simp: filter_id_conv)

lemma removed_ok: "db_ok db \<Longrightarrow> db_ok (removed name db)" "book_of (removed name db) = (book_of db)(name := None)"
  unfolding removed_def by (rule db_ok_filter) (assumption, rule book_removed)

lemma cliAddUser_eq:
  assumes "loadLocalDB (saFile s) = Some db"
  shows "cliAddUser E io se name s =
    (if book_of db name \<noteq> None then (Inl (UserExists name), s)
     else save_and_apply E io se (added io name db)
            (Stdout (''added user '' @ name) # map Stdout (shareLinks se \<lparr>luName = name, luUUID = genUUID (ciRand io)\<rparr>)) s)"
  unfolding book_None by (simp add: cliAddUser_def assms added_def Let_def)

lemma cliRemoveUser_eq:
  assumes "loadLocalDB (saFile s) = Some db" "db_ok db"
  shows "cliRemoveUser E io se name s =
    (if book_of db name = None then (Inl (UserNotFound name), s)
     else save_and_apply E io se (removed name db) [Stdout (''removed user '' @ name)] s)"
proof (cases "find_user name (dbUsers db)")
  case None
  then show ?thesis unfolding book_None by (simp add: cliRemoveUser_def assms(1))
next
  case (Some i)
  then have "take i (dbUsers db) @ drop (Suc i) (dbUsers db) = filter (\<lambda>u. luName u \<noteq> name) (dbUsers db)"
    using assms(2) by (intro find_user_Some) (simp_all add: db_ok_def)
  with Some show ?thesis unfolding book_None by (simp add: cliRemoveUser_def assms(1) removed_def)
qed

text \<open>The file is written in place: a save that is cut off right after the file was truncated loses every user, and the
  next command starts from an empty file without an error.\<close>

lemma cut_save_loses_users:
  assumes "loadLocalDB (saFile s) = Some db" "book_of db name = None" "ciSave io = Truncated True"
  shows "fst (cliAddUser E io se name s) = Inl SaveFailed"
    "loadLocalDB (saFile (snd (cliAddUser E io se name s))) = Some \<lparr>dbUsers = []\<rparr>"
  unfolding cliAddUser_eq [OF assms(1)] using assms(2,3) by (simp_all add: save_and_apply_def saveLocalDB_def loadLocalDB_def)

section \<open>A running example\<close>

lemma applyConfig_undialed:
  assumes "\<not> ioDial io" "ioWrite io" "clients_ok cs"
    and "egRestart E (Some (Build (effective (ioCert io) (agCertPath a) p) cs)) (agEngine a) = (True, e)"
  shows "fst (applyConfig E io (Some (Build p cs)) a)" "agEngine (snd (applyConfig E io (Some (Build p cs)) a)) = e"
  using assms by (auto simp: applyConfig_Build_eq engine_part_def liveApply_def dockerRestart_def liveSet_def Let_def split: prod.splits)

definition demo_se :: standaloneEnv where
  "demo_se = loadStandaloneEnv (\<lambda>k. if k = ''DOMAIN'' then ''t.example'' else '''')"

definition demo_cli :: cli_io where
  "demo_cli = \<lparr>ciRand = replicate 16 0, ciSave = Saved, ciEdge = ioEdge demo_io, ciAgent = demo_io\<lparr>ioDial := False\<rparr>\<rparr>"

definition demo_node_alone :: "toy standalone" where
  "demo_node_alone = \<lparr>saFile = FAbsent, saAgent = demo_agent None\<rparr>"

lemma demo_command:
  assumes "db_ok db" "fst (agEngine (saAgent s)) = None" "described snd (saAgent s)"
  obtains s' where "save_and_apply toy_engine demo_cli demo_se db out s = (Inr out, s')" "fst (agEngine (saAgent s')) = None"
    "loadLocalDB (saFile s') = Some db" "described snd (saAgent s')"
proof -
  let ?s = "s\<lparr>saFile := FData (Some (db_json db))\<rparr>"
  let ?a = "(saAgent s)\<lparr>agEdge := writeACMEDomain (ciEdge demo_cli) (seTLSDomain demo_se) (agEdge (saAgent s))\<rparr>"
  let ?r = "applyConfig toy_engine (ciAgent demo_cli) (Some (Build (se_params demo_se) (local_clients db))) ?a"
  let ?j = "Some (Build (effective (ioCert (ciAgent demo_cli)) (agCertPath ?a) (se_params demo_se)) (local_clients db))"
  have l: "loadLocalDB (saFile ?s) = Some db" using load_saved assms(1) by (simp add: db_ok_def)
  obtain us where e: "agEngine ?a = (None, us)" using assms(2) by (cases "agEngine (saAgent s)") simp
  have "\<exists>us'. egRestart toy_engine ?j (agEngine ?a) = (True, (None, us'))" unfolding e by (simp add: toy_engine_def spend_def)
  then obtain us' where us': "egRestart toy_engine ?j (agEngine ?a) = (True, (None, us'))" by blast
  have io: "\<not> ioDial (ciAgent demo_cli)" "ioWrite (ciAgent demo_cli)" "ciSave demo_cli = Saved" by (simp_all add: demo_cli_def demo_io_def)
  note r = applyConfig_undialed [OF io(1,2) local_clients_ok [OF assms(1)] us']
  have "applyStandalone toy_engine demo_cli demo_se ?s = (Inr (), ?s\<lparr>saAgent := snd ?r\<rparr>)"
    using r(1) l by (simp add: applyStandalone_def Let_def case_prod_beta)
  then have ok: "save_and_apply toy_engine demo_cli demo_se db out s = (Inr out, ?s\<lparr>saAgent := snd ?r\<rparr>)"
    by (simp add: save_and_apply_def saveLocalDB_def io(3))
  from that [OF ok] save_and_apply_ok(2,3) [OF toy_engine_ok assms(3,1) ok] r(2) show thesis by simp
qed

lemma demo_name: "utf8_ok ''bob''" "''bob'' \<noteq> ''''"
  by (rule utf8_ascii) simp_all

lemma demo_rand16: "length (ciRand demo_cli) = 16" "\<forall>x \<in> set (ciRand demo_cli). x < 256"
  by (simp_all add: demo_cli_def)

lemma demo_added:
  obtains out s' where "RunCLI toy_engine demo_cli demo_se [''user'', ''add'', ''bob''] demo_node_alone = (Inr out, s')"
    "fst (agEngine (saAgent s')) = None" "loadLocalDB (saFile s') = Some (added demo_cli ''bob'' \<lparr>dbUsers = []\<rparr>)" "described snd (saAgent s')"
proof -
  have l: "loadLocalDB (saFile demo_node_alone) = Some \<lparr>dbUsers = []\<rparr>" by (simp add: demo_node_alone_def loadLocalDB_def)
  have ok: "db_ok (added demo_cli ''bob'' \<lparr>dbUsers = []\<rparr>)" by (rule added_ok(1) [OF _ _ demo_name(2,1) demo_rand16]) (simp_all add: db_ok_def)
  have e: "fst (agEngine (saAgent demo_node_alone)) = None" "described snd (saAgent demo_node_alone)"
    by (simp add: demo_node_alone_def demo_agent_def) (simp add: demo_node_alone_def)
  show thesis
    by (rule demo_command [OF ok e]) (rule that, unfold cli_args cliAddUser_eq [OF l], simp)
qed

section \<open>Properties\<close>



text \<open>Removing a user undoes adding it. If \<open>user add\<close> and then \<open>user rm\<close> of the same name both report success, whatever random
  bytes were drawn and whatever happened to the engine in between, the file loads to exactly the users it held
  before, in the same order, so \<open>user list\<close> prints what it printed before.\<close>

theorem standalone_add_rm_roundtrip:
  assumes "engine_ok E runs" "described runs (saAgent s)" "file_ok (saFile s)"
    and "name \<noteq> ''''" "utf8_ok name" "length (ciRand io) = 16" "\<forall>x \<in> set (ciRand io). x < 256"
    and "RunCLI E io se [''user'', ''add'', name] s = (Inr out1, s1)" "RunCLI E io2 se [''user'', ''rm'', name] s1 = (Inr out2, s2)"
  shows "loadLocalDB (saFile s2) = loadLocalDB (saFile s) \<and>
    fst (RunCLI E io3 se [''user'', ''list''] s2) = fst (RunCLI E io3 se [''user'', ''list''] s)"
proof -
  have "loadLocalDB (saFile s) \<noteq> None" using assms(8) by (cases "loadLocalDB (saFile s)") (simp_all add: cli_args cliAddUser_def)
  then obtain db where db: "loadLocalDB (saFile s) = Some db" "db_ok db" using assms(3) by (auto simp: file_ok_def)
  from assms(8) have free: "book_of db name = None" and
    add: "save_and_apply E io se (added io name db) (Stdout (''added user '' @ name) # map Stdout (shareLinks se \<lparr>luName = name, luUUID = genUUID (ciRand io)\<rparr>)) s = (Inr out1, s1)"
    unfolding cli_args cliAddUser_eq [OF db(1)] by (auto split: if_splits)
  note a = added_ok(1) [OF db(2) free assms(4-7)]
  note k1 = save_and_apply_ok [OF assms(1,2) a add]
  from assms(9) have rm: "save_and_apply E io2 se (removed name (added io name db)) [Stdout (''removed user '' @ name)] s1 = (Inr out2, s2)"
    unfolding cli_args cliRemoveUser_eq [OF k1(2) a] by (auto split: if_splits)
  have "removed name (added io name db) = db"
    using free unfolding book_None find_user_None by (simp add: removed_def added_def filter_known)
  with save_and_apply_ok(2) [OF assms(1) k1(3) removed_ok(1) [OF a] rm] db(1) show ?thesis
    by (simp add: RunCLI_def cliListUsers_def)
qed

theorem standalone_add_rm_roundtrip_witness:
  "\<exists>out1 out2 s1 s2. RunCLI toy_engine demo_cli demo_se [''user'', ''add'', ''bob''] demo_node_alone = (Inr out1, s1) \<and>
     RunCLI toy_engine demo_cli demo_se [''user'', ''rm'', ''bob''] s1 = (Inr out2, s2) \<and> loadLocalDB (saFile s2) = Some \<lparr>dbUsers = []\<rparr>"
proof -
  obtain out1 s1 where 1: "RunCLI toy_engine demo_cli demo_se [''user'', ''add'', ''bob''] demo_node_alone = (Inr out1, s1)"
    "fst (agEngine (saAgent s1)) = None" "loadLocalDB (saFile s1) = Some (added demo_cli ''bob'' \<lparr>dbUsers = []\<rparr>)" "described snd (saAgent s1)"
    by (rule demo_added)
  have ok: "db_ok (added demo_cli ''bob'' \<lparr>dbUsers = []\<rparr>)" by (rule added_ok(1) [OF _ _ demo_name(2,1) demo_rand16]) (simp_all add: db_ok_def)
  have b: "book_of (added demo_cli ''bob'' \<lparr>dbUsers = []\<rparr>) ''bob'' \<noteq> None" by (simp add: added_def)
  obtain out2 s2 where 2: "RunCLI toy_engine demo_cli demo_se [''user'', ''rm'', ''bob''] s1 = (Inr out2, s2)"
    by (rule demo_command [OF removed_ok(1) [OF ok, of "''bob''"] 1(2,4)]) (rule that, unfold cli_args cliRemoveUser_eq [OF 1(3) ok], use b in simp)
  have h: "described snd (saAgent demo_node_alone)" "file_ok (saFile demo_node_alone)" "loadLocalDB (saFile demo_node_alone) = Some \<lparr>dbUsers = []\<rparr>"
    by (simp_all add: demo_node_alone_def file_ok_def loadLocalDB_def db_ok_def)
  from standalone_add_rm_roundtrip [OF toy_engine_ok h(1,2) demo_name(2,1) demo_rand16 1(1) 2, of demo_cli] h(3)
  have "loadLocalDB (saFile s2) = Some \<lparr>dbUsers = []\<rparr>" by simp
  with 1(1) 2 show ?thesis by (intro exI conjI)
qed

end
