(* ===== verification/Entry.thy ===== *)
theory Entry
  imports Agent Standalone Routes
begin

text \<open>
  The two programs (\<open>src/cmd/agent/main.go\<close>, \<open>src/cmd/panel/main.go\<close>): what a command line starts; the tickers
  a managed agent runs on, and the validators the panel puts on its embedded files. What is started is modelled
  in \<open>Agent\<close>, \<open>Standalone\<close>, \<open>Docker_Proxy\<close>, \<open>App\<close> and \<open>Accounts\<close>.
\<close>

section \<open>The agent\<close>

datatype agent_run = RunManaged | RunStandalone | RunUserCLI "string list" | RunDockerProxy | PrintUsage

definition agent_main :: "(string \<Rightarrow> string) \<Rightarrow> string list \<Rightarrow> agent_run" where
  "agent_main e args =
     (let by_mode = (if e ''MODE'' = ''standalone'' then RunStandalone else RunManaged)
      in case args of
           [] \<Rightarrow> by_mode
         | a # _ \<Rightarrow>
             if a = ''standalone'' then RunStandalone
             else if a = ''managed'' then RunManaged
             else if a = ''user'' \<or> a = ''apply'' then RunUserCLI args
             else if a = ''dockerproxy'' then RunDockerProxy
             else if a = ''-h'' \<or> a = ''--help'' \<or> a = ''help'' then PrintUsage
             else by_mode)"

text \<open>A misspelt first argument is not refused: it starts the mode of the environment.\<close>

lemma unknown_word_starts_mode:
  "a \<notin> {''standalone'', ''managed'', ''user'', ''apply'', ''dockerproxy'', ''-h'', ''--help'', ''help''} \<Longrightarrow> agent_main e (a # args) = agent_main e []"
  by (simp add: agent_main_def)

text \<open>Whatever reaches \<open>RunCLI\<close> came with the word it dispatches on.\<close>

lemma cli_words: "agent_main e args = RunUserCLI ws \<Longrightarrow> ws = args \<and> hd args \<in> {''user'', ''apply''}"
  by (cases args) (auto simp: agent_main_def Let_def split: if_splits)

text \<open>The intervals of the session's two tickers; \<open>time.NewTicker\<close> panics on one that is not positive (\<open>None\<close>), which ends the process.\<close>

definition NewTicker :: "int64 \<Rightarrow> int64 option" where
  "NewTicker d = (if d \<le> 0 then None else Some d)"

definition session_tickers :: "'e managed \<Rightarrow> (int64 \<times> int64) option" where
  "session_tickers m =
     (case NewTicker (20 * 1000000000) of
        None \<Rightarrow> None
      | Some hb \<Rightarrow> (case NewTicker (mgStatsInterval m) of None \<Rightarrow> None | Some st \<Rightarrow> Some (hb, st)))"

lemma stats_interval: "mgStatsInterval (agentFromEnv e now d) = envDur e ''STATS_INTERVAL'' 60"
  by (simp add: agentFromEnv_def Let_def)

text \<open>The default interval works; an interval of zero seconds is accepted by the configuration and panics in the first session.\<close>

lemma default_interval_ticks: "e ''STATS_INTERVAL'' = '''' \<Longrightarrow> session_tickers (agentFromEnv e now d) = Some (20000000000, 60000000000)"
  by (simp add: session_tickers_def NewTicker_def stats_interval envDur_def)

lemma zero_interval_panics: "e ''STATS_INTERVAL'' = ''0'' \<Longrightarrow> session_tickers (agentFromEnv e now d) = None"
proof -
  have "Atoi ''0'' = Some 0" by code_simp
  then show "e ''STATS_INTERVAL'' = ''0'' \<Longrightarrow> session_tickers (agentFromEnv e now d) = None"
    by (simp add: session_tickers_def NewTicker_def stats_interval envDur_def)
qed

section \<open>The panel\<close>

text \<open>The flags \<open>-reset-admin\<close> and \<open>-clear-2fa\<close>, as \<open>flag.Parse\<close> read them.\<close>

datatype panel_run = RunResetAdmin bool | RefuseFlags | RunPanel

definition panel_main :: "bool \<Rightarrow> bool \<Rightarrow> panel_run" where
  "panel_main resetAdmin clear2FA =
     (if resetAdmin then RunResetAdmin clear2FA else if clear2FA then RefuseFlags else RunPanel)"

lemma clear_2fa_needs_reset: "panel_main r True \<noteq> RunPanel"
  by (simp add: panel_main_def)

text \<open>The end of \<open>Run\<close>: the server stopped listening with an error, or a signal arrived and \<open>Shutdown\<close> returned a result. A signal cancels
  the root context, and with it the bot and the background loops; open websockets are not closed.\<close>

datatype run_stop = ListenFailed string | Signalled "string option"

definition run_end :: "run_stop \<Rightarrow> App \<Rightarrow> string option \<times> App" where
  "run_end st a =
     (case st of
        ListenFailed e \<Rightarrow> (Some e, a)
      | Signalled err \<Rightarrow> (err, a\<lparr>rootCtx := False, bot := None\<rparr>))"

text \<open>No request still being served can start the bot again.\<close>

lemma stopped_bot_stays: "bot (restartBot (setTelegram tok adm (snd (run_end (Signalled err) a)))) = None"
  by (simp add: run_end_def restartBot_def setTelegram_def)

section \<open>The embedded files\<close>

text \<open>The headers \<open>staticHandler\<close> adds for a path; \<open>files\<close> are the names and contents of the embedded files. The answer itself is
  \<open>http.FileServer\<close>'s.\<close>

definition etag :: "string \<Rightarrow> string" where
  "etag content = CHR 0x22 # hex_encode (take 8 (sha256 content)) @ [CHR 0x22]"

definition etags :: "(string \<times> string) list \<Rightarrow> string \<Rightarrow> string option" where
  "etags files p = map_of (map (\<lambda>(name, content). (''/'' @ name, etag content)) files) p"

definition staticHandler :: "(string \<times> string) list \<Rightarrow> string \<Rightarrow> (string \<times> string) list" where
  "staticHandler files path =
     (case etags files (if path = ''/'' then ''/index.html'' else path) of
        None \<Rightarrow> []
      | Some et \<Rightarrow> [(''Etag'', et), (''Cache-Control'', ''no-cache'')])"

text \<open>The start page has the validator of its file.\<close>

lemma index_validator: "staticHandler files ''/'' = staticHandler files ''/index.html''"
  by (simp add: staticHandler_def)

end
