(* ===== verification/Secrets.thy ===== *)
theory Secrets
  imports Push
begin

text \<open>
  Secrets at rest: whatever the panel does, the columns that hold secrets (the REALITY private keys of
  nodes, the TOTP secrets of admins, the Telegram token) only ever contain sealed values, and what was
  stored is read back.
\<close>

section \<open>The invariant\<close>

text \<open>Empty, or with the marker of \<open>crypt.go\<close>.\<close>

definition sealed :: "string \<Rightarrow> bool" where
  "sealed v \<longleftrightarrow> v = '''' \<or> isEncrypted v"

definition secrets_sealed :: "Store \<Rightarrow> bool" where
  "secrets_sealed s \<longleftrightarrow> crypt s \<noteq> None \<and> (\<forall>n \<in> set (nodes s). sealed (nrRealityPrivateKey n)) \<and> (\<forall>r \<in> set (admins s). sealed (arTOTPSecret r))
     \<and> (\<forall>kv \<in> set (settings s). fst kv = ''telegram_token'' \<longrightarrow> sealed (snd kv))"

lemma sealed_encrypt [simp]: "c \<noteq> None \<Longrightarrow> sealed (encrypt c n v)"
  using encrypt_marked by (auto simp: sealed_def)

lemma sealed_Nil [simp]: "sealed ''''"
  by (simp add: sealed_def)

lemma sealed_reencrypt [simp]: "sealed (reencrypt k n v)"
  using encrypt_marked [of k n v] by (auto simp: sealed_def reencrypt_def)

lemma set_upsert: "x \<in> set (upsert key upd new t) \<Longrightarrow> x \<in> set t \<or> x = new \<or> (\<exists>r \<in> set t. key r = key new \<and> x = upd r)"
  by (induction t) (auto split: if_splits)

lemma sealed_SetSetting:
  assumes "k = ''telegram_token'' \<longrightarrow> sealed v" "\<forall>kv \<in> set t. fst kv = ''telegram_token'' \<longrightarrow> sealed (snd kv)"
  shows "\<forall>kv \<in> set (upsert fst (\<lambda>r. (fst r, v)) (k, v) t). fst kv = ''telegram_token'' \<longrightarrow> sealed (snd kv)"
proof
  fix kv
  assume "kv \<in> set (upsert fst (\<lambda>r. (fst r, v)) (k, v) t)"
  then show "fst kv = ''telegram_token'' \<longrightarrow> sealed (snd kv)"
    by (rule set_upsert [THEN disjE]) (use assms in \<open>auto simp del: list.inject\<close>)
qed

lemmas secret_frame_defs =
  DeleteAdmin_def CreateUser_def insert_admin_def SetUserSubToken_def upd_user_def DeleteUser_def SetUserNodes_def ResetUserTraffic_def
  DeleteNode_def AddAudit_def user_row_ops

lemma api_store_sealed:
  assumes "api_store s s'" "secrets_sealed s"
  shows "secrets_sealed s'"
  using assms
proof (induction rule: api_store.induct)
  case (set_setting k s v)
  then show ?case using sealed_SetSetting [of k v "settings s"] by (simp add: secrets_sealed_def SetSetting_def)
next
  case (set_secret s nonce k v)
  then show ?case using sealed_SetSetting [of k "encrypt (crypt s) nonce v" "settings s"]
    by (simp add: secrets_sealed_def SetSetting_def SetSecretSetting_def)
next
  case (create_node now nonce n s i s')
  then show ?case by (auto simp: CreateNode_def secrets_sealed_def split: if_splits)
next
  case (update_node n s nonce)
  then show ?case by (simp add: UpdateNode_def secrets_sealed_def ball_sql_update)
next
  case (set_totp s nonce name sec en)
  then show ?case by (simp add: SetAdminTOTP_def secrets_sealed_def ball_sql_update)
next
  case (create_admin name h s s')
  then show ?case by (auto simp: CreateAdmin_def insert_admin_def secrets_sealed_def split: if_splits)
qed (auto simp: secrets_sealed_def secret_frame_defs SetAdminPassword_def BumpAdminSessionEpoch_def ball_sql_update split: if_splits simp del: list.inject)

lemma agent_store_sealed: "agent_store s s' \<Longrightarrow> secrets_sealed s \<Longrightarrow> secrets_sealed s'"
  by (induction rule: agent_store.induct)
    (simp_all add: secrets_sealed_def SetNodeTrafficSeq_def UpsertDevice_def PurgeDevices_def SetNodeAgentVersion_def TouchNode_def AddTraffic_def
      ResetUserTraffic_def SetUserLastReset_def upd_user_def ball_sql_update Let_def)

interpretation seal: store_invariant secrets_sealed
  by unfold_locales (auto intro: api_store_sealed agent_store_sealed)

lemma EnsureAdmin_sealed: "EnsureAdmin u h s = Inr s' \<Longrightarrow> secrets_sealed s \<Longrightarrow> secrets_sealed s'"
  by (auto simp: EnsureAdmin_def insert_admin_def secrets_sealed_def split: if_splits sum.splits store_error.splits)

lemma boot_sealed:
  assumes "boot X derive nn an tn salt e c s = Some a"
  shows "secrets_sealed (store a)"
proof -
  let ?s1 = "encryptExisting nn an tn (s\<lparr>crypt := newCrypter derive (JWTSecret c)\<rparr>)"
  obtain h where h: "EnsureAdmin (AdminUser c) h ?s1 = Inr (store a)" "validateSecrets X c = None"
    using assms by (auto simp: boot_def Let_def restartBot_def setTelegram_def split: if_splits option.splits sum.splits)
  from h(2) have "JWTSecret c \<noteq> ''''" by (auto simp: validateSecrets_def split: if_splits)
  then have "secrets_sealed ?s1"
    by (auto simp: newCrypter_def encryptExisting_def secrets_sealed_def ball_sql_update simp del: list.inject)
  with h(1) show ?thesis by (rule EnsureAdmin_sealed)
qed

lemma running_sealed: "running a \<Longrightarrow> secrets_sealed (store a)"
  by (erule seal.always) (rule boot_sealed)

section \<open>Reading back\<close>

lemma key_not_marked: "MatchString reB64Key k \<Longrightarrow> \<not> isEncrypted k"
proof
  assume "MatchString reB64Key k" "isEncrypted k"
  then have "CHR '':'' \<in> set (cls_alnum @ ''+/_=-'')"
    unfolding MatchString_lang reB64Key_def isEncrypted_def encPrefix_def by (auto simp: prefix_def simp del: set_append)
  then show False by (simp add: cls_alnum_def)
qed

lemma GetNode_UpdateNode:
  assumes "GetNode now (nID n) s = Inr r"
  shows "\<exists>r'. GetNode now (nID n) (UpdateNode nonce n s) = Inr r' \<and> nRealityPrivateKey r' = decrypt (crypt s) (encrypt (crypt s) nonce (nRealityPrivateKey n))"
  using assms
  by (auto simp: GetNode_def UpdateNode_def query_row_def find_sql_update scanNode_def split: option.splits dest: find_key_eq)

lemma GetSecret_SetSecret: "GetSecretSetting k (SetSecretSetting nonce k v s) = (decrypt (crypt s) (encrypt (crypt s) nonce v), True)"
proof -
  have "find (\<lambda>r. fst r = k) (upsert fst (\<lambda>r. (fst r, w)) (k, w) t) = Some (k, w)" for w :: string and t
    by (induction t) auto
  then show ?thesis by (simp add: GetSecretSetting_def SetSecretSetting_def GetSetting_def SetSetting_def query_row_def)
qed

section \<open>Properties\<close>

text \<open>C13: no secret ever lies in the database in the clear. In every state a running panel can reach, whatever the database held before
  start-up, each node's REALITY private key, each admin's TOTP secret and the Telegram token is empty or carries the
  encryption marker. And encryption loses nothing: a node saved with a key the validator admits is read back with that key, and a
  secret setting that does not itself start with the marker is read back as it was stored, for any cipher whose decryption inverts its encryption.\<close>

theorem secrets_stay_sealed:
  assumes "running a"
  shows "secrets_sealed (store a) \<and>
    (\<forall>k nonce. crypt (store a) = Some k \<longrightarrow> aead_ok k \<longrightarrow> length nonce = NonceSize k \<longrightarrow>
      (\<forall>now n r. validateNode n = None \<longrightarrow> GetNode now (nID n) (store a) = Inr r \<longrightarrow>
         (\<exists>r'. GetNode now (nID n) (UpdateNode nonce n (store a)) = Inr r' \<and> nRealityPrivateKey r' = nRealityPrivateKey n)) \<and>
      (\<forall>key v. \<not> isEncrypted v \<longrightarrow> GetSecretSetting key (SetSecretSetting nonce key v (store a)) = (v, True)))"
  using running_sealed [OF assms]
proof (intro conjI allI impI)
  fix k and nonce :: string
  assume k: "crypt (store a) = Some k" "aead_ok k" "length nonce = NonceSize k"
  have reads: "decrypt (crypt (store a)) (encrypt (crypt (store a)) nonce v) = v" if "\<not> isEncrypted v" for v
    by (rule decrypt_encrypt) (use k that in simp_all)
  { fix now n r
    assume "validateNode n = None" "GetNode now (nID n) (store a) = Inr r"
    then show "\<exists>r'. GetNode now (nID n) (UpdateNode nonce n (store a)) = Inr r' \<and> nRealityPrivateKey r' = nRealityPrivateKey n"
      using GetNode_UpdateNode [of now n "store a" r nonce] reads [OF key_not_marked [OF validateNode_hosts(6)]] by simp }
  { fix key v :: string
    assume "\<not> isEncrypted v"
    then show "GetSecretSetting key (SetSecretSetting nonce key v (store a)) = (v, True)" by (simp add: GetSecret_SetSecret reads) }
qed

lemma demo_boot_crypt: "demo_boot = Some a \<Longrightarrow> crypt (store a) = Some demo_aead \<and> nodes (store a) = [demo_node]"
  by (simp add: demo_boot_def boot_def validateSecrets_def validateUsername_iff demo_config_def ConfigFromEnv_def env_def
      cls_alnum_def hashPassword_def demo_externs_def EnsureAdmin_def query_row_def insert_admin_def encryptExisting_def
      newCrypter_def demo_store_def OpenStore_def restartBot_def setTelegram_def Let_def reencrypt_def demo_node_def)
    auto

theorem secrets_stay_sealed_witness:
  "\<exists>a. running a \<and> nodes (store a) \<noteq> [] \<and> secrets_sealed (store a) \<and>
     GetSecretSetting ''telegram_token'' (SetSecretSetting ''n'' ''telegram_token'' ''secret'' (store a)) = (''secret'', True)"
proof -
  obtain a where boot: "demo_boot = Some a" using demo_boot_state by (auto split: option.splits)
  then have a: "running a" unfolding demo_boot_def by (rule running.booted [OF demo_store_ok demo_data_ok])
  note c = demo_boot_crypt [OF boot]
  have k: "aead_ok demo_aead" "length ''n'' = NonceSize demo_aead" "\<not> isEncrypted ''secret''"
    by (simp_all add: aead_ok_def demo_aead_def isEncrypted_def encPrefix_def)
  from secrets_stay_sealed [OF a] c k
  have "secrets_sealed (store a)" "GetSecretSetting ''telegram_token'' (SetSecretSetting ''n'' ''telegram_token'' ''secret'' (store a)) = (''secret'', True)"
    by blast+
  with a c show ?thesis by (intro exI [of _ a]) simp
qed

end
