(* ===== verification/Schedule.thy ===== *)
theory Schedule
  imports Panel_Inv
begin

text \<open>
  When the monthly quota resets happen (\<open>monthlyResetDue\<close> and the loop of \<open>src/internal/panel/traffic.go\<close>):
  the civil calendar as an order isomorphism, the exact condition of a reset, and that a user is reset at
  most once a month however often the loop runs.
\<close>

section \<open>The calendar, read in both directions\<close>

lemma month_split_spec:
  assumes "0 \<le> r" "r < sum_list ls" "\<forall>l \<in> set ls. 0 < l"
  obtains k where "k < length ls" "month_split ls m r = (m + int k, r - sum_list (take k ls) + 1)"
    "sum_list (take k ls) \<le> r" "r - sum_list (take k ls) < ls ! k"
  using assms
proof (induction ls arbitrary: m r thesis)
  case (Cons l ls)
  show ?case
  proof (cases "r < l")
    case True
    with Cons.prems show ?thesis by (intro Cons.prems(1) [of 0]) simp_all
  next
    case False
    obtain k where "k < length ls" "month_split ls (m + 1) (r - l) = (m + 1 + int k, r - l - sum_list (take k ls) + 1)"
      "sum_list (take k ls) \<le> r - l" "r - l - sum_list (take k ls) < ls ! k"
      by (rule Cons.IH [of "m + 1" "r - l"]) (use Cons.prems False in auto)
    with False show ?thesis by (intro Cons.prems(1) [of "Suc k"]) (simp_all add: algebra_simps)
  qed
qed simp

lemma sum_month_lengths: "sum_list (month_lengths y) = year_length y"
  by (simp add: month_lengths_def year_length_def)

lemma civil_spec:
  assumes "civil n = (y, m, d)"
  shows "1 \<le> m" "m \<le> 12" "1 \<le> d" "d \<le> days_in_month y m" "date_days y m d = n"
proof -
  have y: "y = year_of_days n" "month_split (month_lengths y) 1 (n - year_start y) = (m, d)"
    using assms by (auto simp: civil_def Let_def)
  have n: "year_start y \<le> n" "n < year_start y + year_length y"
    using year_of_days_spec [of n] year_start_Suc [of y] by (simp_all add: y(1))
  obtain k where k: "k < 12" "(m, d) = (1 + int k, n - year_start y - sum_list (take k (month_lengths y)) + 1)"
    "sum_list (take k (month_lengths y)) \<le> n - year_start y" "n - year_start y - sum_list (take k (month_lengths y)) < month_lengths y ! k"
    by (rule month_split_spec [of "n - year_start y" "month_lengths y" 1]) (use n y(2) month_lengths_pos in \<open>auto simp: sum_month_lengths\<close>)
  then show "1 \<le> m" "m \<le> 12" "1 \<le> d" "d \<le> days_in_month y m" "date_days y m d = n"
    by (simp_all add: days_in_month_def date_days_norm month_start_def)
qed

lemma days_in_month_bounds: "1 \<le> m \<Longrightarrow> m \<le> 12 \<Longrightarrow> 28 \<le> days_in_month y m \<and> days_in_month y m \<le> 31"
proof -
  assume "1 \<le> m" "m \<le> 12"
  then have "nat (m - 1) \<in> set [0..<12]" by auto
  then show ?thesis by (auto simp: upt_rec days_in_month_def month_lengths_def)
qed

text \<open>The last day of a month is the day before the first of the next one.\<close>

lemma last_of_month: "1 \<le> m \<Longrightarrow> m \<le> 12 \<Longrightarrow> date_days y (m + 1) 1 - 1 = date_days y m (days_in_month y m)"
proof (cases "m = 12")
  case True
  then show ?thesis
    by (simp add: date_days_norm) (simp add: date_days_def Let_def year_start_Suc month_start_def days_in_month_def month_lengths_def year_length_def)
next
  case False
  assume "1 \<le> m" "m \<le> 12"
  with False have "month_start y (m + 1) = month_start y m + days_in_month y m"
    by (simp add: month_start_def days_in_month_def nat_add_distrib [of 1 "m - 1", simplified] take_Suc_conv_app_nth)
  with False \<open>1 \<le> m\<close> \<open>m \<le> 12\<close> show ?thesis by (simp add: date_days_norm)
qed

section \<open>When a reset is due\<close>

text \<open>The instant of the reset of a month: midnight of the reset day, or of the last day of a shorter month.\<close>

definition reset_instant :: "int \<Rightarrow> int \<Rightarrow> int \<Rightarrow> int" where
  "reset_instant y m day = 86400 * date_days y m (min day (days_in_month y m))"

lemma date_days_less: "1 \<le> m \<Longrightarrow> m \<le> 12 \<Longrightarrow> date_days y m d \<le> date_days y m d' \<longleftrightarrow> d \<le> d'"
  by (auto simp: date_days_norm)

lemma monthlyResetDue_eq:
  assumes "civil (unix_day now) = (y, m, d)"
  shows "monthlyResetDue now day prev =
    (if 1 \<le> day \<and> min day (days_in_month y m) \<le> d \<and> prev < reset_instant y m day then Some (reset_instant y m day) else None)"
proof -
  note c = civil_spec [OF assms]
  have dim: "1 \<le> days_in_month y m" using days_in_month_bounds [OF c(1,2), of y] by simp
  have last: "civil (date_days y (m + 1) 1 - 1) = (y, m, days_in_month y m)"
    unfolding last_of_month [OF c(1,2)] by (rule civil_date_days) (use c dim in simp_all)
  have "now < 86400 * date_days y m k \<longleftrightarrow> unix_day now < date_days y m k" for k
    using div_mod_bounds [of 86400 now] unfolding unix_day_def by (intro iffI) linarith+
  then have "now < reset_instant y m day \<longleftrightarrow> d < min day (days_in_month y m)"
    unfolding reset_instant_def using date_days_less [OF c(1,2), of y "min day (days_in_month y m)" d] c(5) by (metis not_less)
  then show ?thesis
    by (auto simp: monthlyResetDue_def assms last Let_def reset_instant_def min_def not_less)
qed

section \<open>The loop\<close>

definition settled :: "int64 \<Rightarrow> Store \<Rightarrow> bool" where
  "settled now s \<longleftrightarrow> (\<forall>r \<in> set (users s). monthlyResetDue now (urResetDay r) (urLastReset r) = None)"

lemma settled_tick: "settled now (store a) \<Longrightarrow> autoReset_tick now a = a"
proof -
  assume s: "settled now (store a)"
  have "fold (reset_user now) us a = a" if "\<forall>u \<in> set us. monthlyResetDue now (uResetDay u) (uLastReset u) = None" for us
    using that by (induction us) (simp_all add: reset_user_def)
  with s show ?thesis by (simp add: autoReset_tick_def ListUsers_def settled_def scanUser_def)
qed

lemma due_same_day: "unix_day t = unix_day now \<Longrightarrow> monthlyResetDue t day prev = monthlyResetDue now day prev"
  by (cases "civil (unix_day now)") (simp add: monthlyResetDue_eq)

lemma not_due_after_reset: "monthlyResetDue now day prev \<noteq> None \<Longrightarrow> monthlyResetDue now day now = None"
  by (auto simp: monthlyResetDue_def Let_def split: prod.splits if_splits)

text \<open>What one round leaves: a processed user is not due, the others are as before.\<close>

lemma reset_user_rows:
  "users (store (reset_user now u a)) =
    (if monthlyResetDue now (uResetDay u) (uLastReset u) = None then users (store a)
     else sql_update (\<lambda>r. urID r = uID u) (\<lambda>r. r\<lparr>urDataUsed := 0, urLastReset := now\<rparr>) (users (store a)))"
proof -
  have "sql_update p g (sql_update p f t) = sql_update p (g \<circ> f) t" if "\<And>r. p (f r) = p r" for p f g and t :: "user_row list"
    using that by (induction t) (simp_all add: sql_update_def)
  then show ?thesis by (simp add: reset_user_def SetUserLastReset_def ResetUserTraffic_def upd_user_def comp_def)
qed

lemma resets_settle:
  assumes "distinct (map uID us)"
    and "\<forall>r \<in> set (users (store a)). (\<exists>u \<in> set us. uID u = urID r \<and> uResetDay u = urResetDay r \<and> uLastReset u = urLastReset r)
      \<or> urID r \<notin> uID ` set us \<and> monthlyResetDue now (urResetDay r) (urLastReset r) = None"
  shows "settled now (store (fold (reset_user now) us a))"
  using assms
proof (induction us arbitrary: a)
  case Nil
  then show ?case by (simp add: settled_def)
next
  case (Cons u us)
  let ?b = "reset_user now u a"
  have "(\<exists>v \<in> set us. uID v = urID r \<and> uResetDay v = urResetDay r \<and> uLastReset v = urLastReset r)
      \<or> urID r \<notin> uID ` set us \<and> monthlyResetDue now (urResetDay r) (urLastReset r) = None" if r: "r \<in> set (users (store ?b))" for r
  proof (cases "urID r = uID u")
    case True
    then have fresh: "urID r \<notin> uID ` set us" using Cons.prems(1) by simp
    have old: "q \<in> set (users (store a)) \<Longrightarrow> urID q = uID u \<Longrightarrow> uResetDay u = urResetDay q \<and> uLastReset u = urLastReset q" for q
      using bspec [OF Cons.prems(2), of q] True fresh by (auto simp: image_iff)
    show ?thesis
    proof (cases "monthlyResetDue now (uResetDay u) (uLastReset u) = None")
      case None: True
      with r True old show ?thesis using fresh by (auto simp: reset_user_rows)
    next
      case due: False
      from r due True obtain q where "q \<in> set (users (store a))" "urID q = uID u" "r = q\<lparr>urDataUsed := 0, urLastReset := now\<rparr>"
        by (auto simp: reset_user_rows sql_update_def split: if_splits)
      with old not_due_after_reset [OF due] fresh show ?thesis by auto
    qed
  next
    case False
    with r have "r \<in> set (users (store a))" by (auto simp: reset_user_rows sql_update_def split: if_splits)
    with Cons.prems(2) False show ?thesis by auto
  qed
  with Cons.IH [of ?b] Cons.prems(1) show ?case by simp
qed

lemma tick_settles:
  assumes "users_ok (store a)"
  shows "settled now (store (autoReset_tick now a))"
  unfolding autoReset_tick_def
proof (rule resets_settle)
  have "distinct (map urID (sort_key urID (users (store a))))" using assms by (simp add: users_ok_def distinct_map)
  then show "distinct (map uID (ListUsers (store a)))" by (simp add: ListUsers_def scanUser_def comp_def)
  show "\<forall>r \<in> set (users (store a)). (\<exists>u \<in> set (ListUsers (store a)). uID u = urID r \<and> uResetDay u = urResetDay r \<and> uLastReset u = urLastReset r)
      \<or> urID r \<notin> uID ` set (ListUsers (store a)) \<and> monthlyResetDue now (urResetDay r) (urLastReset r) = None"
    by (force simp: ListUsers_def scanUser_def)
qed

section \<open>Properties\<close>

text \<open>C39: the monthly reset. On day \<open>d\<close> of a month a user with reset day \<open>day\<close> is due exactly if \<open>d\<close> has reached that day, or the last day of
  a shorter month, and the user has not been reset since midnight of that day; once reset, the user is not due again in that
  calendar month. So a counter is reset at most once a month, and in a running panel the loop leaves nobody due: run again on the
  same day it changes nothing. (A month in which the loop never runs from the reset day on is skipped.)\<close>

theorem monthly_reset_schedule:
  assumes "running a" "civil (unix_day now) = (y, m, d)"
  shows "(monthlyResetDue now day prev \<noteq> None \<longleftrightarrow>
        1 \<le> day \<and> min day (days_in_month y m) \<le> d \<and> prev < 86400 * date_days y m (min day (days_in_month y m)))
    \<and> (monthlyResetDue now day prev \<noteq> None \<longrightarrow> now \<le> t \<longrightarrow> civil (unix_day t) = (y, m, d') \<longrightarrow> monthlyResetDue t day now = None)
    \<and> (unix_day t = unix_day now \<longrightarrow> autoReset_tick t (autoReset_tick now a) = autoReset_tick now a)"
proof (intro conjI impI)
  show "monthlyResetDue now day prev \<noteq> None \<longleftrightarrow>
      1 \<le> day \<and> min day (days_in_month y m) \<le> d \<and> prev < 86400 * date_days y m (min day (days_in_month y m))"
    by (simp add: monthlyResetDue_eq [OF assms(2)] reset_instant_def)
  have "users_ok (store a)" using running_ok [OF assms(1)] by (simp add: full_ok_def sys_ok_def store_ok_def)
  from tick_settles [OF this] show "autoReset_tick t (autoReset_tick now a) = autoReset_tick now a" if "unix_day t = unix_day now"
    using settled_tick due_same_day [OF that] by (simp add: settled_def)
next
  assume due: "monthlyResetDue now day prev \<noteq> None" and t: "civil (unix_day t) = (y, m, d')"
  have "\<not> now < reset_instant y m day"
    using due unfolding monthlyResetDue_eq [OF assms(2)] reset_instant_def
    using civil_spec [OF assms(2)] date_days_less [of m y "min day (days_in_month y m)" d] by (auto simp: unix_day_def split: if_splits)
  then show "monthlyResetDue t day now = None" by (simp add: monthlyResetDue_eq [OF t])
qed

theorem monthly_reset_schedule_witness:
  "monthlyResetDue 2592000 31 0 \<noteq> None \<and> monthlyResetDue 2592005 31 2592000 = None \<and>
   (\<exists>a. running a \<and> autoReset_tick 2592005 (autoReset_tick 2592000 a) = autoReset_tick 2592000 a)"
proof -
  obtain a where a: "running a" by (rule fresh_state)
  have c: "civil (unix_day 2592000) = (1970, 1, 31)" "civil (unix_day 2592005) = (1970, 1, 31)" "date_days 1970 1 31 = 30" "days_in_month 1970 1 = 31"
    by code_simp+
  note s = monthly_reset_schedule [OF a c(1)]
  have due: "monthlyResetDue 2592000 31 0 \<noteq> None" using s [of 31 0] c(3,4) by simp
  moreover have "monthlyResetDue 2592005 31 2592000 = None" using s [of 31 0 2592005 31] due c(2) by simp
  moreover have "autoReset_tick 2592005 (autoReset_tick 2592000 a) = autoReset_tick 2592000 a"
    using s [of 31 0 2592005] by (simp add: unix_day_def)
  ultimately show ?thesis using a by blast
qed

end
