(* ===== verification/Links.thy ===== *)
theory Links
  imports Push
begin

text \<open>
  What a subscription gives its owner: the body of \<open>/sub/{token}\<close> (\<open>src/internal/panel/sub.go\<close>) read back the way a
  client reads it. \<open>parse_vless\<close> is the client's side, a share link cut at its delimiters.
\<close>

section \<open>Share links, read back\<close>

type_synonym vless = "string \<times> string \<times> string \<times> string \<times> string"

definition parse_vless :: "string \<Rightarrow> vless" where
  "parse_vless l =
     (case Cut (drop 8 l) (CHR ''@'') of (uuid, r1, _) \<Rightarrow>
      case Cut r1 (CHR '':'') of (host, r2, _) \<Rightarrow>
      case Cut r2 (CHR ''?'') of (port, r3, _) \<Rightarrow>
      case Cut r3 (CHR ''#'') of (query, fragment, _) \<Rightarrow> (uuid, host, port, query, fragment))"

lemma Cut_append: "c \<notin> set u \<Longrightarrow> Cut (u @ c # v) c = (u, v, True)"
proof -
  assume "c \<notin> set u"
  then have "\<forall>x \<in> set u. c \<noteq> x" by blast
  then show ?thesis by (simp add: Cut_def)
qed

lemma parse_vless_link:
  assumes "CHR ''@'' \<notin> set uuid" "CHR '':'' \<notin> set host"
  shows "parse_vless (vless_link uuid host q name) = (uuid, host, ''443'', Encode q, QueryEscape name)"
proof -
  have d: "drop 8 (vless_link uuid host q name) = uuid @ CHR ''@'' # host @ CHR '':'' # ''443'' @ CHR ''?'' # Encode q @ CHR ''#'' # QueryEscape name"
    by (simp add: vless_link_def)
  have h: "CHR ''#'' \<notin> set (Encode q)" by (rule Encode_clean) (simp add: delims_def)
  have p: "CHR ''?'' \<notin> set ''443''" by simp
  show ?thesis
    unfolding parse_vless_def d by (simp only: Cut_append [OF assms(1)] Cut_append [OF assms(2)] Cut_append [OF p] Cut_append [OF h] prod.case)
qed

text \<open>Nothing that goes into a link contains a newline.\<close>

lemma link_one_line:
  assumes "CHR 0x0A \<notin> set uuid" "CHR 0x0A \<notin> set host"
  shows "CHR 0x0A \<notin> set (vless_link uuid host q name)"
proof -
  have d: "CHR 0x0A \<in> delims" by (simp add: delims_def)
  show ?thesis
    unfolding vless_link_def using assms Encode_clean [OF d, of q] QueryEscape_clean [OF d, of name] by simp
qed

section \<open>Clean data\<close>

lemma host_clean:
  assumes "host_or_empty h"
  shows "CHR '':'' \<notin> set h" "CHR 0x0A \<notin> set h"
  using assms hostname_safe [of h] by (auto simp: host_or_empty_def)

lemma uuid_clean:
  assumes "uuid_v4 u"
  shows "CHR ''@'' \<notin> set u" "CHR 0x0A \<notin> set u"
proof -
  have "c \<in> set u \<Longrightarrow> is_hex_digit c \<or> c = CHR ''-''" for c
    using assms unfolding uuid_v4_def in_set_conv_nth by metis
  moreover have "\<not> is_hex_digit (CHR ''@'')" "\<not> is_hex_digit (CHR 0x0A)" by (simp_all add: is_hex_digit_def hex_alphabet_def)
  ultimately show "CHR ''@'' \<notin> set u" "CHR 0x0A \<notin> set u" by force+
qed

lemma subscriber:
  assumes "running a" "GetUserBySubToken tok (store a) = Inr u"
  obtains r where "r \<in> set (users (store a))" "urSubToken r = tok" "u = (scanUser r)\<lparr>uNodeIDs := userNodeIDs (urID r) (store a)\<rparr>" "uuid_v4 (uUUID u)"
proof -
  have ok: "data_ok (store a)" using running_ok [OF assms(1)] by (simp add: full_ok_def sys_ok_def)
  obtain r where r: "r \<in> set (users (store a))" "urSubToken r = tok" "u = (scanUser r)\<lparr>uNodeIDs := userNodeIDs (urID r) (store a)\<rparr>"
    using assms(2) by (auto simp: GetUserBySubToken_def query_row_def dest: find_key_eq split: option.splits)
  with ok have "uuid_v4 (uUUID u)" by (simp add: data_ok_def user_row_ok_def scanUser_def)
  with that r show thesis by blast
qed

text \<open>The nodes of a subscription are the stored nodes assigned to its owner.\<close>

definition assigned_nodes :: "int64 \<Rightarrow> int64 \<Rightarrow> Store \<Rightarrow> Node set" where
  "assigned_nodes now uid s = scanNode now s ` {r \<in> set (nodes s). (uid, nrID r) \<in> set (user_nodes s)}"

lemma in_map_filter: "y \<in> set (List.map_filter f xs) \<longleftrightarrow> (\<exists>x \<in> set xs. f x = Some y)"
  by (induction xs) (auto split: option.split)

lemma set_userNodesList:
  assumes "nodes_ok s" "uNodeIDs u = userNodeIDs uid s"
  shows "set (userNodesList now s u) = assigned_nodes now uid s"
proof -
  have d: "distinct (map nrID (nodes s))" using assms(1) by (simp add: nodes_ok_def)
  have get: "GetNode now i s = Inr n \<longleftrightarrow> (\<exists>r \<in> set (nodes s). nrID r = i \<and> n = scanNode now s r)" for i n
  proof -
    have "GetNode now i s = Inr n \<longleftrightarrow> (\<exists>r. find (\<lambda>x. nrID x = i) (nodes s) = Some r \<and> n = scanNode now s r)"
      by (auto simp: GetNode_def query_row_def split: option.splits)
    then show ?thesis unfolding find_Some_unique_iff [OF d] by blast
  qed
  have ids: "set (uNodeIDs u) = {i. (uid, i) \<in> set (user_nodes s)}" unfolding assms(2) userNodeIDs_def by force
  have "(case GetNode now i s of Inl _ \<Rightarrow> None | Inr n' \<Rightarrow> Some n') = Some n \<longleftrightarrow> GetNode now i s = Inr n" for i n
    by (simp split: sum.split)
  then have "n \<in> set (userNodesList now s u) \<longleftrightarrow> (\<exists>i. (uid, i) \<in> set (user_nodes s) \<and> GetNode now i s = Inr n)" for n
    unfolding userNodesList_def in_map_filter ids by blast
  then show ?thesis unfolding assigned_nodes_def get by blast
qed

text \<open>What a node offers: a REALITY link where it is fully configured, a TLS link where it has a domain.\<close>

definition offers :: "User \<Rightarrow> Node \<Rightarrow> vless set" where
  "offers u n =
     (if realityHost n \<noteq> '''' then {(uUUID u, realityHost n, ''443'', Encode (reality_query n), QueryEscape (nName n @ ''-reality''))} else {})
     \<union> (if nTLSDomain n \<noteq> '''' then {(uUUID u, nTLSDomain n, ''443'', Encode (tls_query n), QueryEscape (nName n @ ''-tls''))} else {})"

lemma node_hosts:
  assumes "data_ok s" "n \<in> assigned_nodes now uid s"
  shows "CHR '':'' \<notin> set (realityHost n)" "CHR 0x0A \<notin> set (realityHost n)" "CHR '':'' \<notin> set (nTLSDomain n)" "CHR 0x0A \<notin> set (nTLSDomain n)"
proof -
  have h: "host_or_empty (nAddress n)" "host_or_empty (nTLSDomain n)"
    using assms by (auto simp: assigned_nodes_def scanNode_def data_ok_def node_row_ok_def)
  then have "host_or_empty (realityHost n)" by (auto simp: realityHost_def host_or_empty_def)
  from host_clean [OF this] host_clean [OF h(2)]
  show "CHR '':'' \<notin> set (realityHost n)" "CHR 0x0A \<notin> set (realityHost n)" "CHR '':'' \<notin> set (nTLSDomain n)" "CHR 0x0A \<notin> set (nTLSDomain n)"
    by blast+
qed

lemma nodeLinks_read:
  assumes "data_ok s" "n \<in> assigned_nodes now uid s" "uuid_v4 (uUUID u)"
  shows "parse_vless ` set (nodeLinks u n) = offers u n" "l \<in> set (nodeLinks u n) \<Longrightarrow> CHR 0x0A \<notin> set l"
proof -
  note h = node_hosts [OF assms(1,2)] and c = uuid_clean [OF assms(3)]
  show "parse_vless ` set (nodeLinks u n) = offers u n"
    unfolding nodeLinks_def offers_def Let_def
    by (cases "realityHost n = ''''"; cases "nTLSDomain n = ''''") (simp_all add: parse_vless_link [OF c(1) h(1)] parse_vless_link [OF c(1) h(3)] insert_commute)
  show "CHR 0x0A \<notin> set l" if "l \<in> set (nodeLinks u n)"
    using that link_one_line [OF c(2) h(2)] link_one_line [OF c(2) h(4)]
    unfolding nodeLinks_def Let_def by (cases "realityHost n = ''''"; cases "nTLSDomain n = ''''") auto
qed

section \<open>The body\<close>

lemma b64_unpadded: "b64_decode std_alphabet (takeWhile (\<lambda>c. c \<noteq> CHR ''='') (b64_padded s)) = Some s"
proof -
  have "CHR ''='' \<notin> set std_alphabet" by (simp add: std_alphabet_def)
  then have "CHR ''='' \<notin> set (b64_encode std_alphabet s)" by (rule b64std.enc_free)
  then have "takeWhile (\<lambda>c. c \<noteq> CHR ''='') (b64_encode std_alphabet s @ replicate k (CHR ''='')) = b64_encode std_alphabet s" for k
    by (subst takeWhile_append2) (auto simp: takeWhile_eq_Nil_iff)
  then show ?thesis by (simp add: b64_padded_def Let_def)
qed

section \<open>Properties\<close>


definition sub_request :: request where
  "sub_request = demo_request\<lparr>rqVars := [(''token'', ''s1'')], rqNano := 0\<rparr>"


end
