(* ===== verification/Docker_Proxy.thy ===== *)
theory Docker_Proxy
  imports Go_Strings
begin

text \<open>
  The allow-listing proxy in front of the Docker socket, \<open>src/internal/agent/dockerproxy.go\<close>. The two path
  expressions are matched by hand-written recognisers: what may follow the optional version prefix is
  enumerated, then the fixed parts and the name are compared.
\<close>

section \<open>Paths\<close>

definition slash :: char where "slash = CHR ''/''"
definition pathV :: string where "pathV = ''/v''"
definition dot :: string where "dot = ''.''"
definition pathContainers :: string where "pathContainers = ''/containers''"
definition opJSON :: string where "opJSON = ''json''"
definition opRestart :: string where "opRestart = ''restart''"
definition pathPing :: string where "pathPing = ''/_ping''"
definition pathVersion :: string where "pathVersion = ''/version''"
definition MethodGet :: string where "MethodGet = ''GET''"
definition MethodHead :: string where "MethodHead = ''HEAD''"
definition MethodPost :: string where "MethodPost = ''POST''"

lemmas proxy_words = slash_def pathV_def dot_def pathContainers_def opJSON_def opRestart_def pathPing_def
  pathVersion_def MethodGet_def MethodHead_def MethodPost_def

definition dec_prefixes :: "string \<Rightarrow> string list" where
  "dec_prefixes s = map (\<lambda>i. drop i s) [1..<Suc (length (takeWhile is_dec s))]"

definition strip :: "string \<Rightarrow> string \<Rightarrow> string list" where
  "strip lit s = (if prefix lit s then [drop (length lit) s] else [])"

text \<open>What may be left after \<open>(?:/v[0-9]+\.[0-9]+)?\<close>.\<close>

definition after_version :: "string \<Rightarrow> string list" where
  "after_version s =
     concat (map dec_prefixes (concat (map (strip dot) (concat (map dec_prefixes (strip pathV s)))))) @ [s]"

definition name_char :: "char \<Rightarrow> bool" where
  "name_char c \<longleftrightarrow> (97::nat) \<le> of_char c \<and> of_char c \<le> (122::nat) \<or> (65::nat) \<le> of_char c \<and> of_char c \<le> (90::nat)
     \<or> is_dec c \<or> c = CHR ''_'' \<or> c = CHR ''.'' \<or> c = CHR ''-''"

text \<open>\<open>reProbe.MatchString\<close> and \<open>reProxyPath.FindStringSubmatch\<close> with the groups 1 and 2.\<close>

definition reProbe :: "string \<Rightarrow> bool" where
  "reProbe path = list_ex (\<lambda>r. r = pathPing \<or> r = pathVersion) (after_version path)"

definition container_op :: "string \<Rightarrow> (string \<times> string) list" where
  "container_op t =
     (let name = takeWhile name_char t; rest = dropWhile name_char t
      in if name = [] then []
         else if rest = slash # opJSON then [(name, opJSON)]
         else if rest = slash # opRestart then [(name, opRestart)] else [])"

definition proxy_matches :: "string \<Rightarrow> (string \<times> string) list" where
  "proxy_matches path = concat (map container_op (concat (map (strip (pathContainers @ [slash])) (after_version path))))"

definition reProxyPath :: "string \<Rightarrow> (string \<times> string) option" where
  "reProxyPath path = (case proxy_matches path of [] \<Rightarrow> None | m # _ \<Rightarrow> Some m)"

section \<open>The proxy\<close>

definition allow :: "string list \<Rightarrow> string \<Rightarrow> string \<Rightarrow> bool" where
  "allow allowed method path =
     (if (method = MethodGet \<or> method = MethodHead) \<and> reProbe path then True
      else
        (case reProxyPath path of
           None \<Rightarrow> False
         | Some (name, op) \<Rightarrow>
             if name \<notin> set allowed then False
             else if op = opJSON then method = MethodGet \<or> method = MethodHead
             else if op = opRestart then method = MethodPost
             else False))"

text \<open>The allow list of \<open>RunDockerProxy\<close>, from \<open>DOCKERPROXY_ALLOW\<close>.\<close>

definition proxy_allowed :: "string \<Rightarrow> string list" where
  "proxy_allowed v = filter (\<lambda>n. n \<noteq> '''') (map TrimSpace (Split (if v \<noteq> '''' then v else ''xray,nginx-edge'') '',''))"

datatype proxy_reply = Forwarded | Forbidden

definition ServeHTTP :: "string list \<Rightarrow> string \<Rightarrow> string \<Rightarrow> proxy_reply" where
  "ServeHTTP allowed method path = (if \<not> allow allowed method path then Forbidden else Forwarded)"

section \<open>What passes\<close>

definition version_prefix :: "string \<Rightarrow> bool" where
  "version_prefix v \<longleftrightarrow> v = [] \<or> (\<exists>a b. v = pathV @ a @ dot @ b \<and> a \<noteq> [] \<and> b \<noteq> [] \<and> list_all is_dec a \<and> list_all is_dec b)"

lemma set_dec_prefixes: "r \<in> set (dec_prefixes s) \<longleftrightarrow> (\<exists>a. s = a @ r \<and> a \<noteq> [] \<and> list_all is_dec a)"
proof
  assume "r \<in> set (dec_prefixes s)"
  then obtain i where i: "1 \<le> i" "i \<le> length (takeWhile is_dec s)" "r = drop i s"
    by (auto simp: dec_prefixes_def less_Suc_eq_le simp del: upt_Suc)
  have "take i (takeWhile is_dec s @ dropWhile is_dec s) = take i (takeWhile is_dec s)"
    using i(2) by (simp del: takeWhile_dropWhile_id)
  then have "take i s = take i (takeWhile is_dec s)" by simp
  then have "list_all is_dec (take i s)"
    by (metis list_all_iff set_takeWhileD in_set_takeD)
  moreover have "take i s \<noteq> []" using i by (cases s) auto
  ultimately show "\<exists>a. s = a @ r \<and> a \<noteq> [] \<and> list_all is_dec a"
    using i(3) by (metis append_take_drop_id)
next
  assume "\<exists>a. s = a @ r \<and> a \<noteq> [] \<and> list_all is_dec a"
  then obtain a where a: "s = a @ r" "a \<noteq> []" "list_all is_dec a" by blast
  then have "length a \<le> length (takeWhile is_dec s)" by (simp add: takeWhile_append2 list_all_iff)
  with a show "r \<in> set (dec_prefixes s)"
    by (auto simp: dec_prefixes_def less_Suc_eq_le Suc_le_eq simp del: upt_Suc intro!: image_eqI [of _ _ "length a"])
qed

lemma set_strip: "r \<in> set (strip lit s) \<longleftrightarrow> s = lit @ r"
  by (auto simp: strip_def prefix_def)

lemma set_after_version: "r \<in> set (after_version s) \<longleftrightarrow> (\<exists>v. version_prefix v \<and> s = v @ r)"
proof -
  have "r \<in> set (after_version s) \<longleftrightarrow>
      (\<exists>a b. s = (pathV @ a @ dot @ b) @ r \<and> a \<noteq> [] \<and> b \<noteq> [] \<and> list_all is_dec a \<and> list_all is_dec b) \<or> s = [] @ r"
    by (simp add: after_version_def Bex_def set_dec_prefixes set_strip) blast
  then show ?thesis unfolding version_prefix_def by blast
qed

lemma name_char_slash: "\<not> name_char slash"
  by (simp add: name_char_def is_dec_def slash_def)

lemma ops_distinct: "opJSON \<noteq> opRestart" "slash \<notin> set opJSON" "slash \<notin> set opRestart"
  by (simp_all add: proxy_words)

lemma set_container_op:
  "(name, op) \<in> set (container_op t) \<longleftrightarrow>
     name \<noteq> [] \<and> list_all name_char name \<and> (op = opJSON \<or> op = opRestart) \<and> t = name @ slash # op"
proof
  assume "(name, op) \<in> set (container_op t)"
  then have t: "name = takeWhile name_char t" "name \<noteq> []" "op = opJSON \<or> op = opRestart" and d: "dropWhile name_char t = slash # op"
    by (auto simp: container_op_def Let_def split: if_splits)
  have "t = name @ dropWhile name_char t" using t(1) by simp
  with t d show "name \<noteq> [] \<and> list_all name_char name \<and> (op = opJSON \<or> op = opRestart) \<and> t = name @ slash # op"
    by (auto simp: list_all_iff dest: set_takeWhileD)
next
  assume a: "name \<noteq> [] \<and> list_all name_char name \<and> (op = opJSON \<or> op = opRestart) \<and> t = name @ slash # op"
  then have "takeWhile name_char t = name" "dropWhile name_char t = slash # op"
    using name_char_slash by (simp_all add: takeWhile_append2 dropWhile_append2 list_all_iff)
  with a ops_distinct show "(name, op) \<in> set (container_op t)"
    by (auto simp: container_op_def)
qed

text \<open>The name a path is about is the same whichever way it is read, so the first match is the only one.\<close>

lemma append_sep_inject:
  assumes "c \<notin> set a" "c \<notin> set a'" "a @ c # b = a' @ c # b'"
  shows "a = a' \<and> b = b'"
proof -
  have "takeWhile ((\<noteq>) c) (a @ c # b) = a" "takeWhile ((\<noteq>) c) (a' @ c # b') = a'"
    using assms(1,2) by (subst takeWhile_append2, auto)+
  with assms(3) show ?thesis by simp
qed

lemma last_parts:
  assumes "c \<notin> set n" "c \<notin> set n'" "c \<notin> set q" "c \<notin> set q'" and eq: "p @ c # n @ c # q = p' @ c # n' @ c # q'"
  shows "n = n' \<and> q = q'"
proof -
  have "rev q @ c # rev n @ c # rev p = rev q' @ c # rev n' @ c # rev p'"
    using arg_cong [OF eq, of rev] by simp
  then have "rev q = rev q' \<and> rev n @ c # rev p = rev n' @ c # rev p'"
    by (rule append_sep_inject [rotated 2]) (use assms in simp_all)
  moreover from this have "rev n = rev n' \<and> rev p = rev p'"
    by (intro append_sep_inject [of c]) (use assms in simp_all)
  ultimately show ?thesis by simp
qed

definition proxy_path :: "string \<Rightarrow> string \<Rightarrow> string \<Rightarrow> bool" where
  "proxy_path path name op \<longleftrightarrow> (\<exists>v. version_prefix v \<and> name \<noteq> [] \<and> list_all name_char name \<and> (op = opJSON \<or> op = opRestart)
     \<and> path = v @ pathContainers @ slash # name @ slash # op)"

lemma set_matches: "(name, op) \<in> set (proxy_matches path) \<longleftrightarrow> proxy_path path name op"
  by (simp add: proxy_matches_def proxy_path_def Bex_def set_after_version set_strip set_container_op) blast

lemma proxy_path_unique:
  assumes "proxy_path path name op" "proxy_path path name' op'"
  shows "name = name' \<and> op = op'"
proof -
  obtain v v' where v: "path = (v @ pathContainers) @ slash # name @ slash # op"
      and v': "path = (v' @ pathContainers) @ slash # name' @ slash # op'"
    using assms unfolding proxy_path_def append_assoc by blast
  have op: "slash \<notin> set op" "slash \<notin> set op'" using assms ops_distinct unfolding proxy_path_def by auto
  have n: "slash \<notin> set name" "slash \<notin> set name'"
    using assms name_char_slash unfolding proxy_path_def list_all_iff by blast+
  from v v' have "(v @ pathContainers) @ slash # name @ slash # op = (v' @ pathContainers) @ slash # name' @ slash # op'"
    by (simp only:)
  from last_parts [OF n op this] show ?thesis .
qed

lemma reProxyPath_iff: "reProxyPath path = Some (name, op) \<longleftrightarrow> proxy_path path name op"
proof (cases "proxy_matches path")
  case Nil
  with set_matches [of name op path] show ?thesis by (simp add: reProxyPath_def)
next
  case (Cons m ms)
  obtain n q where m: "m = (n, q)" by (cases m)
  then have "proxy_path path n q" using set_matches [of n q path] Cons by simp
  moreover have "reProxyPath path = Some (n, q)" by (simp add: reProxyPath_def Cons m)
  ultimately show ?thesis using proxy_path_unique by auto
qed

lemma reProbe_iff: "reProbe path \<longleftrightarrow> (\<exists>v. version_prefix v \<and> (path = v @ pathPing \<or> path = v @ pathVersion))"
  unfolding reProbe_def list_ex_iff Bex_def set_after_version by blast

text \<open>C23: the proxy forwards exactly these requests to the Docker socket: read-only \<open>_ping\<close> and \<open>version\<close> probes,
  \<open>GET\<close>/\<open>HEAD\<close> of \<open>/containers/<name>/json\<close> and \<open>POST\<close> of \<open>/containers/<name>/restart\<close> for a name on the allow list,
  each with an optional \<open>/v<n>.<n>\<close> prefix. Every other method or path, in particular one that smuggles a further
  slash, is refused.\<close>

theorem docker_proxy_allows_exactly:
  "ServeHTTP allowed method path = Forwarded \<longleftrightarrow>
     (method = MethodGet \<or> method = MethodHead) \<and> (\<exists>v. version_prefix v \<and> (path = v @ pathPing \<or> path = v @ pathVersion))
     \<or> (\<exists>v name. version_prefix v \<and> name \<in> set allowed \<and> name \<noteq> [] \<and> list_all name_char name
          \<and> (path = v @ pathContainers @ slash # name @ slash # opJSON \<and> (method = MethodGet \<or> method = MethodHead)
             \<or> path = v @ pathContainers @ slash # name @ slash # opRestart \<and> method = MethodPost))"
  (is "_ \<longleftrightarrow> ?probe \<or> ?op")
proof -
  have "?op \<longleftrightarrow> (\<exists>name. name \<in> set allowed \<and> (proxy_path path name opJSON \<and> (method = MethodGet \<or> method = MethodHead)
      \<or> proxy_path path name opRestart \<and> method = MethodPost))"
    unfolding proxy_path_def by blast
  also have "\<dots> \<longleftrightarrow> (\<exists>name. name \<in> set allowed \<and> (reProxyPath path = Some (name, opJSON) \<and> (method = MethodGet \<or> method = MethodHead)
      \<or> reProxyPath path = Some (name, opRestart) \<and> method = MethodPost))"
    unfolding reProxyPath_iff ..
  finally show ?thesis
    using ops_distinct by (auto simp: ServeHTTP_def allow_def reProbe_iff [symmetric] split: option.split)
qed

lemma docker_proxy_examples:
  "ServeHTTP [''xray''] ''POST'' ''/v1.41/containers/xray/restart'' = Forwarded
   \<and> ServeHTTP [''xray''] ''POST'' ''/containers/create'' = Forbidden
   \<and> ServeHTTP [''xray''] ''GET'' ''/containers/xray/../nginx/json'' = Forbidden"
  by code_simp

end
