(* ===== verification/Overflow.thy ===== *)
theory Overflow
  imports Delivery
begin

text \<open>
  Where the unbounded integers of the store stop being the code's. SQLite turns a sum beyond 63 bits into a
  float, and \<open>database/sql\<close> refuses to scan a float of that size into an \<open>int64\<close>: every query that reads the row
  fails. The reads of \<open>src/internal/panel/store.go\<close> with this error (\<open>None\<close>), and what a node can do with it.
\<close>

section \<open>Reads that can fail\<close>

text \<open>The integer columns \<open>scanUser\<close> reads.\<close>

definition int_columns :: "user_row \<Rightarrow> int list" where
  "int_columns r = [urID r, urDataLimit r, urDataUsed r, urExpireAt r, urEnabled r, urCreatedAt r, urResetDay r, urLastReset r,
     urSessionEpoch r, urMustChangePW r]"

definition scans :: "user_row \<Rightarrow> bool" where
  "scans r \<longleftrightarrow> list_all in_int64 (int_columns r)"

definition Scan_user :: "user_row \<Rightarrow> User option" where
  "Scan_user r = (if scans r then Some (scanUser r) else None)"

text \<open>A query fails with its first row that does not scan.\<close>

definition Query_UsersForNode :: "int64 \<Rightarrow> Store \<Rightarrow> User list option" where
  "Query_UsersForNode nodeID s =
     those (map Scan_user (sort_key urID (filter (\<lambda>r. (urID r, nodeID) \<in> set (user_nodes s)) (users s))))"

definition Query_ListUsers :: "Store \<Rightarrow> User list option" where
  "Query_ListUsers s =
     map_option (map (\<lambda>u. u\<lparr>uNodeIDs := userNodeIDs (uID u) s\<rparr>)) (those (map Scan_user (sort_key urID (users s))))"

text \<open>\<open>syncNode\<close> returns when the query fails.\<close>

definition Query_syncNode :: "int64 \<Rightarrow> int64 \<Rightarrow> App \<Rightarrow> App" where
  "Query_syncNode now nodeID a = (case Query_UsersForNode nodeID (store a) of None \<Rightarrow> a | Some _ \<Rightarrow> syncNode now nodeID a)"

definition counters_fit :: "Store \<Rightarrow> bool" where
  "counters_fit s \<longleftrightarrow> (\<forall>r \<in> set (users s). scans r)"

section \<open>Within the range\<close>

lemma those_scan: "those (map Scan_user rs) = (if \<forall>r \<in> set rs. scans r then Some (map scanUser rs) else None)"
  by (induction rs) (auto simp: Scan_user_def)

lemma queries_exact:
  assumes "counters_fit s"
  shows "Query_UsersForNode n s = Some (UsersForNode n s)" "Query_ListUsers s = Some (ListUsers s)"
  using assms
  by (simp_all add: counters_fit_def Query_UsersForNode_def Query_ListUsers_def those_scan UsersForNode_def ListUsers_def comp_def scanUser_def)

lemma queries_fail:
  assumes "r \<in> set (users s)" "\<not> scans r"
  shows "Query_ListUsers s = None" "(urID r, n) \<in> set (user_nodes s) \<Longrightarrow> Query_UsersForNode n s = None"
  using assms by (auto simp: Query_UsersForNode_def Query_ListUsers_def those_scan)

section \<open>One frame\<close>

definition flood :: "string \<Rightarrow> Msg" where
  "flood e = (empty_msg TypeTraffic)\<lparr>msgItems := [\<lparr>tiEmail = e, tiUp = max_int64, tiDown = 0\<rparr>, \<lparr>tiEmail = e, tiUp = max_int64, tiDown = 0\<rparr>]\<rparr>"

lemma users_AddTraffic:
  "users (AddTraffic now u n up down s) = sql_update (\<lambda>r. urID r = u) (\<lambda>r. r\<lparr>urDataUsed := urDataUsed r + wrap64 (up + down)\<rparr>) (users s)"
  by (simp add: AddTraffic_def Let_def)

lemma flood_store:
  assumes "users_ok (store a)" "r \<in> set (users (store a))" "(urID r, ncNode (objs a ! c)) \<in> set (user_nodes (store a))"
    "NodeTrafficSeq (ncNode (objs a ! c)) (store a) = Inr q"
  shows "users (store (handleMsg now c (flood (urUsername r)) a)) =
      sql_update (\<lambda>x. urID x = urID r) (\<lambda>x. x\<lparr>urDataUsed := urDataUsed x + 2 * max_int64\<rparr>) (users (store a))"
    "user_nodes (store (handleMsg now c (flood (urUsername r)) a)) = user_nodes (store a)"
proof -
  let ?n = "ncNode (objs a ! c)"
  have al: "map_of (allowed_users (UsersForNode ?n (store a))) (urUsername r) = Some (urID r)"
    unfolding allowed_lookup [OF assms(1)] using assms(2,3) by blast
  have m: "wrap64 max_int64 = max_int64" by (simp add: int64_defs)
  have i: "ingest_item now ?n (allowed_users (UsersForNode ?n (store a))) \<lparr>tiEmail = urUsername r, tiUp = max_int64, tiDown = 0\<rparr> (s, x, y)
      = (AddTraffic now (urID r) ?n max_int64 0 s, wrap64 (x + max_int64), wrap64 y)" for s x y
    by (simp add: ingest_item_def al max_int64_def)
  have "store (handleMsg now c (flood (urUsername r)) a)
      = AddTraffic now (urID r) ?n max_int64 0 (AddTraffic now (urID r) ?n max_int64 0 (store a))"
    by (simp add: handleMsg_def flood_def empty_msg_def msg_type_defs ingestTraffic_def assms(4) i Let_def)
  then show "users (store (handleMsg now c (flood (urUsername r)) a)) =
      sql_update (\<lambda>x. urID x = urID r) (\<lambda>x. x\<lparr>urDataUsed := urDataUsed x + 2 * max_int64\<rparr>) (users (store a))"
    "user_nodes (store (handleMsg now c (flood (urUsername r)) a)) = user_nodes (store a)"
    by (simp_all add: AddTraffic_def Let_def m sql_update_def)
qed

section \<open>Property\<close>



end
