(* ===== verification/Loops.thy ===== *)
theory Loops
  imports Metrics Bot "HOL-Library.While_Combinator"
begin

text \<open>
  The two loops of the program whose number of rounds depends on the data they transform: the scan for a certificate in
  a PEM file (\<open>certExpiry\<close> of \<open>src/internal/agent/metrics.go\<close>) and the choice of a unit (\<open>fmtBytes\<close> of
  \<open>src/internal/panel/bot.go\<close>). Both are given as the code has them, as loops that might not end, and shown to end
  with what the component theories compute. (Every other loop ranges over a collection, counts down, or is meant to run forever.)
\<close>

section \<open>The certificate file\<close>

text \<open>\<open>pem.Decode\<close> and \<open>x509.ParseCertificate\<close> are parameters: the first block of the data with the rest, or no block; the \<open>NotAfter\<close> of a
  certificate in Unix seconds. \<open>None\<close>: the loop does not end.\<close>

type_synonym pem_decoder = "string \<Rightarrow> (string \<times> string) option \<times> string"

partial_function (option) cert_loop :: "pem_decoder \<Rightarrow> (string \<Rightarrow> int64 option) \<Rightarrow> string \<Rightarrow> int64 option" where
  "cert_loop D X b =
     (if b = [] then Some 0
      else (case D b of
              (None, _) \<Rightarrow> Some 0
            | (Some (ty, bytes), rest) \<Rightarrow>
                if ty \<noteq> ''CERTIFICATE'' then cert_loop D X rest
                else (case X bytes of Some t \<Rightarrow> Some t | None \<Rightarrow> cert_loop D X rest)))"

definition certExpiry_file :: "pem_decoder \<Rightarrow> (string \<Rightarrow> int64 option) \<Rightarrow> string \<Rightarrow> string option \<Rightarrow> int64 option" where
  "certExpiry_file D X path f =
     (if path = '''' then Some 0 else (case f of None \<Rightarrow> Some 0 | Some b \<Rightarrow> cert_loop D X b))"

text \<open>What is documented of the decoder: a block it finds is taken off the data.\<close>

definition pem_ok :: "pem_decoder \<Rightarrow> bool" where
  "pem_ok D \<longleftrightarrow> (\<forall>b blk rest. D b = (Some blk, rest) \<longrightarrow> length rest < length b)"

text \<open>The blocks of a file, the way the snapshot of \<open>Metrics\<close> is given them.\<close>

function pem_blocks :: "pem_decoder \<Rightarrow> (string \<Rightarrow> int64 option) \<Rightarrow> string \<Rightarrow> (string \<times> int64 option) list" where
  "pem_blocks D X b =
     (case D b of
        (None, _) \<Rightarrow> []
      | (Some (ty, bytes), rest) \<Rightarrow> (ty, X bytes) # (if length rest < length b \<and> rest \<noteq> [] then pem_blocks D X rest else []))"
  by pat_completeness auto
termination
  by (relation "measure (\<lambda>(D, X, b). length b)") auto

declare pem_blocks.simps [simp del]

lemma cert_loop_first:
  assumes "pem_ok D"
  shows "cert_loop D X b = Some (if b = [] then 0 else first_cert (pem_blocks D X b))"
proof (induction b rule: length_induct)
  case (1 b)
  show ?case
  proof (cases "b = [] \<or> fst (D b) = None")
    case True
    then show ?thesis by (cases "D b") (auto simp: cert_loop.simps [of D X b] pem_blocks.simps [of D X b])
  next
    case False
    then obtain ty bytes rest where d: "D b = (Some (ty, bytes), rest)" by (cases "D b") auto
    with assms have "length rest < length b" by (auto simp: pem_ok_def)
    with 1 have "cert_loop D X rest = Some (if rest = [] then 0 else first_cert (pem_blocks D X rest))" by blast
    with False d \<open>length rest < length b\<close> show ?thesis
      by (auto simp: cert_loop.simps [of D X b] pem_blocks.simps [of D X b] split: option.split)
  qed
qed

section \<open>Units\<close>

definition unit_guard :: "nat \<times> rat \<Rightarrow> bool" where
  "unit_guard = (\<lambda>(i, f). f \<ge> 1024 \<and> i < length units - 1)"

definition unit_step :: "nat \<times> rat \<Rightarrow> nat \<times> rat" where
  "unit_step = (\<lambda>(i, f). (i + 1, f / 1024))"

lemma unit_loop_while: "while_option unit_guard unit_step (i, f) = Some (unit_loop i f)"
proof (induction i f rule: unit_loop.induct)
  case (1 i f)
  have "length units = 5" by (simp add: units_def)
  with 1 show ?case
    by (subst while_option_unfold, subst unit_loop.simps) (simp add: unit_guard_def unit_step_def)
qed

lemma unit_loop_end: "i \<le> 4 \<Longrightarrow> unit_loop i f = (j, g) \<Longrightarrow> j \<le> 4 \<and> (g < 1024 \<or> j = 4) \<and> g * 1024 ^ (j - i) = f \<and> i \<le> j"
proof (induction i f arbitrary: j g rule: unit_loop.induct)
  case (1 i f)
  show ?case
  proof (cases "i < 4 \<and> f \<ge> 1024")
    case True
    then have "unit_loop (i + 1) (f / 1024) = (j, g)" using 1(3) by (subst (asm) unit_loop.simps) simp
    from 1(1) [OF True _ this] True have "j \<le> 4 \<and> (g < 1024 \<or> j = 4) \<and> g * 1024 ^ (j - (i + 1)) = f / 1024 \<and> i + 1 \<le> j" by simp
    then have j: "j \<le> 4" "g < 1024 \<or> j = 4" "g * 1024 ^ (j - (i + 1)) = f / 1024" "i + 1 \<le> j" by blast+
    from j(4) have "j - i = Suc (j - (i + 1))" by arith
    with j show ?thesis by (simp add: field_simps)
  next
    case False
    with 1(2,3) show ?thesis by (subst (asm) unit_loop.simps) auto
  qed
qed

section \<open>Property\<close>

text \<open>C40: the data-dependent loops end. For every certificate file and every PEM decoder that takes the blocks it finds off the data, the
  loop of \<open>certExpiry\<close> returns, and what it returns is the expiry of the first block that is a certificate and parses (0 if there is
  none), which is what the health snapshot reports. The loop of \<open>fmtBytes\<close> ends for every amount, after at most four
  divisions, with the value that the unit it picked stands for: below 1024 unless the unit is the largest.\<close>

theorem data_loops_end:
  assumes "pem_ok D"
  shows "certExpiry_file D X path f = Some (certExpiry path (map_option (\<lambda>b. if b = [] then [] else pem_blocks D X b) f))
    \<and> (\<exists>i g. while_option unit_guard unit_step (0, fl (of_int n)) = Some (i, g)
         \<and> i < length units \<and> (g < 1024 \<or> i = length units - 1) \<and> g * 1024 ^ i = fl (of_int n))"
proof
  show "certExpiry_file D X path f = Some (certExpiry path (map_option (\<lambda>b. if b = [] then [] else pem_blocks D X b) f))"
    by (cases f) (auto simp: certExpiry_file_def certExpiry_def cert_loop_first [OF assms])
  obtain i g where "unit_loop 0 (fl (of_int n)) = (i, g)" by fastforce
  with unit_loop_end [OF _ this] unit_loop_while [of 0 "fl (of_int n)"]
  show "\<exists>i g. while_option unit_guard unit_step (0, fl (of_int n)) = Some (i, g)
      \<and> i < length units \<and> (g < 1024 \<or> i = length units - 1) \<and> g * 1024 ^ i = fl (of_int n)"
    by (auto simp: units_def)
qed

text \<open>A decoder of one-byte blocks: a key, then a certificate.\<close>

definition demo_pem :: pem_decoder where
  "demo_pem b = (case b of [] \<Rightarrow> (None, []) | c # r \<Rightarrow> (Some (if c = CHR ''k'' then ''PRIVATE KEY'' else ''CERTIFICATE'', [c]), r))"

theorem data_loops_end_witness:
  "certExpiry_file demo_pem (\<lambda>b. if b = ''g'' then Some 1700000000 else None) ''cert.pem'' (Some ''kbg'') = Some 1700000000"
proof -
  let ?X = "\<lambda>b. if b = ''g'' then Some (1700000000 :: int64) else None"
  have "pem_ok demo_pem" by (auto simp: pem_ok_def demo_pem_def split: list.splits)
  moreover have "pem_blocks demo_pem ?X ''kbg'' = [(''PRIVATE KEY'', None), (''CERTIFICATE'', None), (''CERTIFICATE'', Some 1700000000)]"
    by (simp add: pem_blocks.simps demo_pem_def)
  ultimately show ?thesis
    using data_loops_end [of demo_pem ?X "''cert.pem''" "Some ''kbg''"] by (simp add: certExpiry_def)
qed

end
