(* ===== verification/Net.thy ===== *)
theory Net
  imports Agent Bot Accounts
begin

text \<open>
  Where the two programs meet the network: the address a managed agent dials (\<open>wsURL\<close> of \<open>src/internal/agent/agent.go\<close>), the
  origin check of the node socket (\<open>checkWSOrigin\<close> of \<open>src/internal/panel/hub.go\<close>) and the calls of the Telegram bot
  (\<open>botGetUpdates\<close>, \<open>botSend\<close> and the loop of \<open>startBot\<close> in \<open>src/internal/panel/bot.go\<close>). Parsing and printing an address
  (\<open>net/url\<close>) are parameters; so is the canonical case folding of characters, of which only ASCII is known here.
\<close>

section \<open>Addresses\<close>

text \<open>The fields of \<open>url.URL\<close> the code touches, and the others (user, query, fragment and raw forms) as one.\<close>

record url =
  Scheme :: string
  Host :: string
  Path :: string
  Others :: "string list"

type_synonym url_parser = "string \<Rightarrow> url option"

definition wsURL :: "url_parser \<Rightarrow> (url \<Rightarrow> string) \<Rightarrow> string \<Rightarrow> string option" where
  "wsURL parse print panel =
     (case parse panel of
        None \<Rightarrow> None
      | Some u \<Rightarrow> Some (print (u\<lparr>Scheme := (if Scheme u = ''https'' then ''wss'' else ''ws''), Path := TrimRightSlash (Path u) @ ''/api/node/ws''\<rparr>)))"

text \<open>Only \<open>https\<close> is dialed with TLS: any other scheme, and none, is taken for plain text.\<close>

lemma wsURL_scheme:
  "parse panel = Some u \<Longrightarrow> \<exists>v. wsURL parse print panel = Some (print v) \<and> Host v = Host u \<and> (Scheme v = ''wss'' \<longleftrightarrow> Scheme u = ''https'')
     \<and> (Scheme v = ''ws'' \<longleftrightarrow> Scheme u \<noteq> ''https'')"
  by (rule exI [of _ "u\<lparr>Scheme := (if Scheme u = ''https'' then ''wss'' else ''ws''), Path := TrimRightSlash (Path u) @ ''/api/node/ws''\<rparr>"])
    (simp add: wsURL_def)

section \<open>The origin of a node socket\<close>

text \<open>\<open>strings.EqualFold\<close>: equal characters up to case folding.\<close>

definition EqualFold :: "(nat \<Rightarrow> nat) \<Rightarrow> string \<Rightarrow> string \<Rightarrow> bool" where
  "EqualFold fold_rune s t \<longleftrightarrow> map fold_rune (runes (bytes_of s)) = map fold_rune (runes (bytes_of t))"

definition checkWSOrigin :: "url_parser \<Rightarrow> (nat \<Rightarrow> nat) \<Rightarrow> string \<Rightarrow> string \<Rightarrow> bool" where
  "checkWSOrigin parse fold_rune origin host =
     (if origin = '''' then True
      else (case parse origin of None \<Rightarrow> False | Some u \<Rightarrow> EqualFold fold_rune (Host u) host))"

text \<open>The agent, which sends no origin, passes; a page passes only from the host it asks.\<close>

lemma origin_agent: "checkWSOrigin parse fold_rune '''' host"
  by (simp add: checkWSOrigin_def)

lemma origin_same_host: "parse origin = Some u \<Longrightarrow> Host u = host \<Longrightarrow> checkWSOrigin parse fold_rune origin host"
  by (simp add: checkWSOrigin_def EqualFold_def)

lemma origin_foreign:
  assumes "origin \<noteq> ''''" "checkWSOrigin parse fold_rune origin host"
  shows "\<exists>u. parse origin = Some u \<and> EqualFold fold_rune (Host u) host"
  using assms by (auto simp: checkWSOrigin_def split: option.splits)

section \<open>Telegram\<close>

text \<open>The structs of an answer; \<open>Message\<close> is a pointer, whose target is filled where it is already set.\<close>

definition chat_struct :: "(string \<times> int64) struct" where
  "chat_struct = [(''id'', to_int64 (\<lambda>f (text, i). (text, f i)))]"

definition to_chat :: "(string \<times> int64) setter" where
  "to_chat j m =
     (case j of
        JNull \<Rightarrow> Some m
      | JObj _ \<Rightarrow> (case decode chat_struct (Some j) m of (ok, m') \<Rightarrow> if ok then Some m' else None)
      | _ \<Rightarrow> None)"

definition message_struct :: "(string \<times> int64) struct" where
  "message_struct = [(''text'', to_string (\<lambda>f (text, i). (f text, i))), (''chat'', to_chat)]"

definition to_message :: "tgUpdate setter" where
  "to_message j u =
     (case j of
        JNull \<Rightarrow> Some (u\<lparr>Message := None\<rparr>)
      | JObj _ \<Rightarrow>
          (case decode message_struct (Some j) (case Message u of None \<Rightarrow> ('''', 0) | Some m \<Rightarrow> m) of
             (ok, m) \<Rightarrow> if ok then Some (u\<lparr>Message := Some m\<rparr>) else None)
      | _ \<Rightarrow> None)"

definition zero_update :: tgUpdate where
  "zero_update = \<lparr>UpdateID = 0, Message = None\<rparr>"

definition update_struct :: "tgUpdate struct" where
  "update_struct = [(''update_id'', to_int64 UpdateID_update), (''message'', to_message)]"

definition elem_update :: "tgUpdate \<Rightarrow> json \<Rightarrow> tgUpdate option" where
  "elem_update old j = (case decode update_struct (Some j) old of (ok, u) \<Rightarrow> if ok then Some u else None)"

record updates_body =
  ubOK :: bool
  ubResult :: "tgUpdate list"

definition to_updates :: "updates_body setter" where
  "to_updates j b =
     (case j of
        JNull \<Rightarrow> Some (b\<lparr>ubResult := []\<rparr>)
      | JArr xs \<Rightarrow> map_option (\<lambda>us. b\<lparr>ubResult := us\<rparr>)
                   (those (map (\<lambda>(old, x). elem_update old x)
                      (zip (ubResult b @ replicate (length xs - length (ubResult b)) zero_update) xs)))
      | _ \<Rightarrow> None)"

text \<open>The answer to \<open>getUpdates\<close>: \<open>None\<close>, or a body that may not be JSON. Nothing looks at \<open>ok\<close>.\<close>

definition botGetUpdates :: "raw_message option \<Rightarrow> tgUpdate list option" where
  "botGetUpdates resp =
     (case resp of
        None \<Rightarrow> None
      | Some raw \<Rightarrow>
          (case decode [(''ok'', to_bool ubOK_update), (''result'', to_updates)] raw \<lparr>ubOK = False, ubResult = []\<rparr> of
             (ok, b) \<Rightarrow> if ok then Some (ubResult b) else None))"

definition updates_query :: "string \<Rightarrow> int64 \<Rightarrow> string" where
  "updates_query token offset = ''https://api.telegram.org/bot'' @ token @ ''/getUpdates?timeout=30&offset='' @ FormatInt offset"

definition botSend :: "string \<Rightarrow> int64 \<Rightarrow> string \<Rightarrow> string \<times> json" where
  "botSend token chatID text =
     (''https://api.telegram.org/bot'' @ token @ ''/sendMessage'',
      JObj [(''chat_id'', JNum chatID), (''disable_web_page_preview'', JBool True), (''text'', JStr text)])"

text \<open>One round of the loop of \<open>startBot\<close>: the seconds it sleeps and the state after it; \<open>rs\<close> is what the commands draw.\<close>

definition bot_round :: "raw_message option \<Rightarrow> (nat \<Rightarrow> request) \<Rightarrow> int64 \<times> replies \<times> App \<Rightarrow> int64 \<times> (int64 \<times> replies \<times> App)" where
  "bot_round resp rs st =
     (case botGetUpdates resp of
        None \<Rightarrow> (3, st)
      | Some us \<Rightarrow> (0, poll (Some (zip (map rs [0..<length us]) us)) st))"

section \<open>What the loop does with an answer\<close>

text \<open>An answer is read back as the updates it was printed from.\<close>

definition update_json :: "tgUpdate \<Rightarrow> json" where
  "update_json u =
     JObj ((''update_id'', JNum (UpdateID u)) #
       (case Message u of None \<Rightarrow> [] | Some (text, i) \<Rightarrow> [(''message'', JObj [(''text'', JStr text), (''chat'', JObj [(''id'', JNum i)])])]))"

definition update_range :: "tgUpdate \<Rightarrow> bool" where
  "update_range u \<longleftrightarrow> in_int64 (UpdateID u) \<and> (case Message u of None \<Rightarrow> True | Some (_, i) \<Rightarrow> in_int64 i)"

lemmas update_decode =
  decode_def decode_member_def struct_field_def update_struct_def message_struct_def chat_struct_def to_message_def to_chat_def to_string_def to_int64_def

lemma elem_update_json: "update_range u \<Longrightarrow> elem_update zero_update (update_json u) = Some u"
  by (cases u; cases "Message u") (auto simp: elem_update_def update_json_def update_range_def zero_update_def update_decode)

lemma updates_roundtrip:
  assumes "\<forall>u \<in> set us. update_range u"
  shows "botGetUpdates (Some (Some (JObj [(''ok'', JBool b), (''result'', JArr (map update_json us))]))) = Some us"
proof -
  have "those (map (\<lambda>(old, x). elem_update old x) (zip (replicate (length us) zero_update) (map update_json us))) = Some us"
    using assms by (induction us) (simp_all add: elem_update_json)
  then show ?thesis
    by (simp add: botGetUpdates_def decode_def decode_member_def struct_field_def to_bool_def to_updates_def)
qed

text \<open>A defect: a refusal (a wrong token, too many requests) is JSON without a result, and is taken for an empty answer, after which the
  loop asks again at once.\<close>

lemma refusal_not_noticed:
  "bot_round (Some (Some (JObj [(''ok'', JBool False), (''error_code'', JNum n), (''description'', JStr d)]))) rs st = (0, st)"
proof -
  have "foldName ''error_code'' \<noteq> foldName ''ok''" "foldName ''error_code'' \<noteq> foldName ''result''"
    "foldName ''description'' \<noteq> foldName ''ok''" "foldName ''description'' \<noteq> foldName ''result''" by code_simp+
  then show ?thesis
    by (simp add: bot_round_def botGetUpdates_def decode_def decode_member_def struct_field_def to_bool_def poll_def)
qed

end
