(* ===== verification/Sha_Eval.thy ===== *)
theory Sha_Eval
  imports Sha
begin

text \<open>
  SHA-256 (\<open>crypto/sha256\<close>, theory \<open>Sha\<close>) on integers instead of words, which the simplifier evaluates quickly, and the definition
  checked on the example of FIPS 180-4. Examples elsewhere that need the hashes of two texts to differ evaluate them this way.
\<close>

section \<open>Words as integers\<close>

abbreviation w32 :: "int \<Rightarrow> word32" where
  "w32 \<equiv> word_of_int"

definition in32 :: "int \<Rightarrow> bool" where
  "in32 k \<longleftrightarrow> 0 \<le> k \<and> k < 4294967296"

definition t32 :: "int \<Rightarrow> int" where
  "t32 k = take_bit 32 k"

definition rotr_int :: "nat \<Rightarrow> int \<Rightarrow> int" where
  "rotr_int n k = drop_bit n k OR push_bit (32 - n) (take_bit n k)"

lemma in32_take: "in32 k \<Longrightarrow> take_bit 32 k = k"
  by (simp add: in32_def take_bit_int_eq_self)

lemma in32_t32 [simp]: "in32 (t32 k)"
  by (simp add: in32_def t32_def take_bit_eq_mod)

lemma w32_t32: "w32 (t32 k) = w32 k"
  unfolding t32_def by transfer simp

lemma w32_rotr:
  assumes "in32 k" "0 < n" "n < 32"
  shows "word_rotr n (w32 k) = w32 (rotr_int n k)"
proof -
  have "word_rotr n (w32 k) = w32 (drop_bit n (take_bit 32 k) OR push_bit (32 - n) (take_bit n k))" using assms(2,3)
    by transfer (simp add: concat_bit_def drop_bit_take_bit)
  then show ?thesis by (simp only: rotr_int_def in32_take [OF assms(1)])
qed

lemma w32_drop: "in32 k \<Longrightarrow> drop_bit n (w32 k) = w32 (drop_bit n k)"
proof -
  assume "in32 k"
  moreover have "drop_bit n (w32 k) = w32 (drop_bit n (take_bit 32 k))"
    by transfer simp
  ultimately show ?thesis by (simp only: in32_take)
qed

lemma w32_bits: "w32 x AND w32 y = w32 (x AND y)" "w32 x XOR w32 y = w32 (x XOR y)"
  by (transfer; simp)+

lemma w32_not: "NOT (w32 x) = w32 (4294967295 XOR x)"
proof -
  have "w32 4294967295 = - 1" by simp
  then have "w32 (4294967295 XOR x) = - 1 XOR w32 x" by (simp only: w32_bits [symmetric])
  also have "\<dots> = NOT (w32 x)" by (rule bit_word_eqI) (simp add: bit_simps)
  finally show ?thesis by simp
qed

lemma w32_add: "w32 x + w32 y = w32 (x + y)"
  by simp

section \<open>A block\<close>

type_synonym i256 = "int \<times> int \<times> int \<times> int \<times> int \<times> int \<times> int \<times> int"

fun w8 :: "i256 \<Rightarrow> h256" where
  "w8 (a, b, c, d, e, f, g, h) = (w32 a, w32 b, w32 c, w32 d, w32 e, w32 f, w32 g, w32 h)"

fun in8 :: "i256 \<Rightarrow> bool" where
  "in8 (a, b, c, d, e, f, g, h) \<longleftrightarrow> in32 a \<and> in32 b \<and> in32 c \<and> in32 d \<and> in32 e \<and> in32 f \<and> in32 g \<and> in32 h"

fun round_int :: "i256 \<Rightarrow> int \<times> int \<Rightarrow> i256" where
  "round_int (a, b, c, d, e, f, g, h) (k, w) =
     (let t1 = h + (rotr_int 6 e XOR rotr_int 11 e XOR rotr_int 25 e) + ((e AND f) XOR ((4294967295 XOR e) AND g)) + k + w;
          t2 = (rotr_int 2 a XOR rotr_int 13 a XOR rotr_int 22 a) + ((a AND b) XOR (a AND c) XOR (b AND c))
      in (t32 (t1 + t2), a, b, c, t32 (d + t1), e, f, g))"

fun next_int :: "int list \<Rightarrow> int" where
  "next_int ws =
     t32 ((rotr_int 17 (ws ! 1) XOR rotr_int 19 (ws ! 1) XOR drop_bit 10 (ws ! 1)) + ws ! 6 +
          (rotr_int 7 (ws ! 14) XOR rotr_int 18 (ws ! 14) XOR drop_bit 3 (ws ! 14)) + ws ! 15)"

fun sched_int :: "nat \<Rightarrow> int list \<Rightarrow> int list" where
  "sched_int 0 ws = ws"
| "sched_int (Suc n) ws = sched_int n (next_int ws # ws)"

lemmas w32_ops = w32_rotr w32_drop w32_bits w32_not w32_add

lemma round_int:
  assumes "in8 s"
  shows "round256 (w8 s) (w32 k, w32 w) = w8 (round_int s (k, w))" "in8 (round_int s (k, w))"
proof -
  obtain a b c d e f g h where s: "s = (a, b, c, d, e, f, g, h)" by (cases s rule: in8.cases)
  with assms have i: "in32 a" "in32 b" "in32 c" "in32 d" "in32 e" "in32 f" "in32 g" "in32 h" by simp_all
  have n: "(0 :: nat) < numeral m" for m by simp
  have l: "(2 :: nat) < 32" "(6 :: nat) < 32" "(11 :: nat) < 32" "(13 :: nat) < 32" "(22 :: nat) < 32" "(25 :: nat) < 32" by simp_all
  show "round256 (w8 s) (w32 k, w32 w) = w8 (round_int s (k, w))"
    by (simp only: s w8.simps round256.simps round_int.simps Let_def w32_t32 w32_ops i n l)
  show "in8 (round_int s (k, w))"
    using i by (simp add: s Let_def)
qed

lemma rounds_int:
  "in8 s \<Longrightarrow> foldl round256 (w8 s) (zip (map w32 ks) (map w32 ws)) = w8 (foldl round_int s (zip ks ws)) \<and> in8 (foldl round_int s (zip ks ws))"
proof (induction ks arbitrary: s ws)
  case (Cons k ks)
  show ?case
  proof (cases ws)
    case (Cons w ws')
    then show ?thesis using Cons.IH [OF round_int(2) [OF Cons.prems]] round_int(1) [OF Cons.prems] by simp
  qed (use Cons.prems in simp)
qed simp

lemma sched_int:
  "16 \<le> length ws \<Longrightarrow> \<forall>w \<in> set ws. in32 w \<Longrightarrow> sched256 n (map w32 ws) = map w32 (sched_int n ws)"
proof (induction n arbitrary: ws)
  case (Suc n)
  have i: "in32 (ws ! 1)" "in32 (ws ! 14)" using Suc.prems by simp_all
  have n: "(0 :: nat) < numeral m" for m by simp
  have l: "(17 :: nat) < 32" "(19 :: nat) < 32" "(7 :: nat) < 32" "(18 :: nat) < 32" by simp_all
  have m: "map w32 ws ! 1 = w32 (ws ! 1)" "map w32 ws ! 6 = w32 (ws ! 6)" "map w32 ws ! 14 = w32 (ws ! 14)" "map w32 ws ! 15 = w32 (ws ! 15)"
    using Suc.prems(1) by simp_all
  have "sched256 (Suc n) (map w32 ws) = sched256 n (map w32 (next_int ws # ws))"
    by (simp only: sched256.simps Let_def m w32_ops i n l list.map next_int.simps w32_t32)
  also have "\<dots> = map w32 (sched_int n (next_int ws # ws))" using Suc.prems by (intro Suc.IH) auto
  finally show ?case by simp
qed simp

text \<open>A message of one block.\<close>

definition k256_int :: "int list" where
  "k256_int = [
     1116352408, 1899447441, 3049323471, 3921009573, 961987163, 1508970993, 2453635748, 2870763221,
     3624381080, 310598401, 607225278, 1426881987, 1925078388, 2162078206, 2614888103, 3248222580,
     3835390401, 4022224774, 264347078, 604807628, 770255983, 1249150122, 1555081692, 1996064986,
     2554220882, 2821834349, 2952996808, 3210313671, 3336571891, 3584528711, 113926993, 338241895,
     666307205, 773529912, 1294757372, 1396182291, 1695183700, 1986661051, 2177026350, 2456956037,
     2730485921, 2820302411, 3259730800, 3345764771, 3516065817, 3600352804, 4094571909, 275423344,
     430227734, 506948616, 659060556, 883997877, 958139571, 1322822218, 1537002063, 1747873779,
     1955562222, 2024104815, 2227730452, 2361852424, 2428436474, 2756734187, 3204031479, 3329325298]"

lemma k256_int: "k256 = map w32 k256_int"
  by (simp add: k256_def k256_int_def)

fun words_int :: "nat list \<Rightarrow> int list" where
  "words_int (a # b # c # d # bs) = int (((a * 256 + b) * 256 + c) * 256 + d) # words_int bs"
| "words_int _ = []"

definition init_int :: i256 where
  "init_int = (1779033703, 3144134277, 1013904242, 2773480762, 1359893119, 2600822924, 528734635, 1541459225)"

lemma words_int: "words_of bs = map w32 (words_int bs)"
  by (induction bs rule: words_of.induct) simp_all

lemma init_int: "h256_init = w8 init_int" "in8 init_int"
  by (simp_all add: h256_init_def init_int_def in32_def)

fun digest_int :: "i256 \<Rightarrow> int list" where
  "digest_int (a, b, c, d, e, f, g, h) =
     map t32 [1779033703 + a, 3144134277 + b, 1013904242 + c, 2773480762 + d, 1359893119 + e, 2600822924 + f, 528734635 + g, 1541459225 + h]"

lemma sha256_int:
  assumes "length s \<le> 55" "words_int (sha_pad (bytes_of s)) = ws" "length ws = 16" "list_all in32 ws"
    and "foldl round_int init_int (zip k256_int (rev (sched_int 48 (rev ws)))) = r"
  shows "sha256 s = concat (map (word_bytes \<circ> w32) (digest_int r))"
proof -
  let ?vs = "rev (sched_int 48 (rev ws))"
  have "(119 - length s mod 64) mod 64 = 55 - length s"
    using assms(1) by (simp add: mod_if [of "119 - length s"])
  then have "length (sha_pad (bytes_of s)) = 64" using assms(1) by (simp add: sha_pad_def be64_def bytes_of_def)
  moreover have "words_of (sha_pad (bytes_of s)) = map w32 ws" using words_int assms(2) by simp
  moreover have "sched256 48 (rev (map w32 ws)) = map w32 (sched_int 48 (rev ws))"
    using sched_int [of "rev ws" 48] assms(3,4) by (simp add: rev_map list_all_iff)
  moreover have "foldl round256 (w8 init_int) (zip k256 (map w32 ?vs)) = w8 r"
    using rounds_int [OF init_int(2), of k256_int ?vs] by (simp add: k256_int assms(5))
  ultimately have l: "length (sha_pad (bytes_of s)) div 64 = 1" "words_of (sha_pad (bytes_of s)) = map w32 ws"
    and f: "foldl round256 h256_init (zip k256 (rev (sched256 48 (rev (map w32 ws))))) = w8 r"
    by (simp_all add: init_int(1) rev_map)
  obtain a b c d e f g h where r: "r = (a, b, c, d, e, f, g, h)" by (cases r rule: in8.cases)
  have "sha256 s = (case block256 h256_init (map w32 ws) of (a, b, c, d, e, f, g, h) \<Rightarrow> concat (map word_bytes [a, b, c, d, e, f, g, h]))"
    using assms(3) by (simp add: sha256_def l)
  also have "\<dots> = concat (map (word_bytes \<circ> w32) (digest_int r))"
    using f by (simp add: h256_init_def r w32_t32)
  finally show ?thesis .
qed

lemma replicate_numeral: "replicate (numeral n) x = x # replicate (pred_numeral n) x"
  by (simp add: numeral_eq_Suc)

lemmas pad_eval = sha_pad_def be64_def replicate_numeral

text \<open>The example of FIPS 180-4 for a message of one block.\<close>

lemma sha256_abc: "hex_encode (sha256 ''abc'') = ''ba7816bf8f01cfea414140de5dae2223b00361a396177a9cb410ff61f20015ad''"
proof -
  let ?ws = "[1633837952, 0, 0, 0, 0, 0, 0, 0, 0, 0, 0, 0, 0, 0, 0, 24]"
  have 1: "words_int (sha_pad (bytes_of ''abc'')) = ?ws" by (simp add: pad_eval)
  have 2: "foldl round_int init_int (zip k256_int (rev (sched_int 48 (rev ?ws)))) =
      (1349398616, 3550093669, 80891244, 3093179625, 1593118500, 4212265488, 2492278198, 2518632596)" by code_simp
  show ?thesis by (subst sha256_int [OF _ 1 _ _ 2]) (simp_all add: in32_def t32_def take_bit_eq_mod word_bytes_def byte_of_word_def hex_encode_def hex_byte_def digit_char_def hex_alphabet_def)
qed

text \<open>The first byte tells texts apart.\<close>

lemma hd_sha256:
  assumes "length s \<le> 55" "words_int (sha_pad (bytes_of s)) = ws" "length ws = 16" "list_all in32 ws"
    and "foldl round_int init_int (zip k256_int (rev (sched_int 48 (rev ws)))) = (a, r)"
  shows "hd (sha256 s) = byte_of_word (w32 (1779033703 + a)) 3"
  using sha256_int [OF assms] by (cases "(a, r)" rule: in8.cases) (simp add: word_bytes_def w32_t32 del: of_int_add)

end
