(* ===== verification/Interleave.thy ===== *)
theory Interleave
  imports Push Sha_Eval
begin

text \<open>
  \<open>syncNode\<close> (\<open>src/internal/panel/traffic.go\<close>) between its statements. Everywhere else a synchronisation is one step; but handlers,
  read loops and the enforcement loop call it from goroutines of their own, and no lock spans its reads of the database, the send
  and the recording of the signature. Here it is a thread that takes these steps one at a time, beside another one and beside
  changes of the database. The same for \<open>handleDeleteAdmin\<close>, whose check and deletion are separate calls of the store.
\<close>

section \<open>The thread\<close>

text \<open>After reading the users: the signature; after the look at the cache; with the configuration built; after the send; at the end.\<close>

datatype sync_pc = Start | Signed string | Pushing string | Built string nat Msg | Sent string | Finished

fun sync_step :: "int64 \<Rightarrow> int64 \<Rightarrow> sync_pc \<Rightarrow> App \<Rightarrow> sync_pc \<times> App" where
  "sync_step now n Start a = (Signed (activeSignature now (UsersForNode n (store a))), a)"
| "sync_step now n (Signed sig) a = (if map_of (activeCache a) n = Some sig then (Finished, a) else (Pushing sig, a))"
| "sync_step now n (Pushing sig) a =
     (case map_of (conns a) n of
        None \<Rightarrow> (Finished, a)
      | Some c \<Rightarrow>
          (case GetNode now n (store a) of
             Inl _ \<Rightarrow> (Finished, a)
           | Inr node \<Rightarrow> (Built sig c (config_msg node (buildXrayConfig now node (UsersForNode n (store a)))), a)))"
| "sync_step now n (Built sig c m) a = (case trySend c m a of (sent, a') \<Rightarrow> (if sent then Sent sig else Finished, a'))"
| "sync_step now n (Sent sig) a = (Finished, a\<lparr>activeCache := gomap_set n sig (activeCache a)\<rparr>)"
| "sync_step now n Finished a = (Finished, a)"

text \<open>Left alone, the thread does what \<open>syncNode\<close> is everywhere else.\<close>

definition alone :: "int64 \<Rightarrow> int64 \<Rightarrow> sync_pc \<times> App \<Rightarrow> sync_pc \<times> App" where
  "alone now n s = sync_step now n (fst s) (snd s)"

lemma alone_syncNode: "(alone now n ^^ 5) (Start, a) = (Finished, syncNode now n a)"
  by (auto simp: alone_def numeral_eq_Suc syncNode_def PushConfig_def Let_def split: option.split sum.split prod.split)

section \<open>Two threads\<close>

inductive conc :: "int64 \<Rightarrow> int64 \<Rightarrow> sync_pc \<times> sync_pc \<times> App \<Rightarrow> sync_pc \<times> sync_pc \<times> App \<Rightarrow> bool" for now n where
  first: "sync_step now n p a = (p', a') \<Longrightarrow> conc now n (p, q, a) (p', q, a')"
| second: "sync_step now n q a = (q', a') \<Longrightarrow> conc now n (p, q, a) (p, q', a')"
| stored: "api_store (store a) s \<Longrightarrow> conc now n (p, q, a) (p, q, a\<lparr>store := s\<rparr>)"

abbreviation concs :: "int64 \<Rightarrow> int64 \<Rightarrow> sync_pc \<times> sync_pc \<times> App \<Rightarrow> sync_pc \<times> sync_pc \<times> App \<Rightarrow> bool" where
  "concs now n \<equiv> (conc now n)\<^sup>*\<^sup>*"

text \<open>A configuration sent where there is room.\<close>

definition queued :: "nat \<Rightarrow> Msg \<Rightarrow> App \<Rightarrow> App" where
  "queued c m a = a\<lparr>objs := (objs a)[c := (objs a ! c)\<lparr>ncSend := ncSend (objs a ! c) @ [m]\<rparr>]\<rparr>"

lemma trySend_queued: "\<not> ncClosed (objs a ! c) \<Longrightarrow> length (ncSend (objs a ! c)) < sendCap \<Longrightarrow> trySend c m a = (True, queued c m a)"
  by (simp add: trySend_def queued_def)

lemma queued_sel [simp]:
  "conns (queued c m a) = conns a" "store (queued c m a) = store a" "activeCache (queued c m a) = activeCache a"
  by (simp_all add: queued_def)

text \<open>Until the send a thread only reads.\<close>

lemma first_builds:
  assumes "map_of (activeCache a) n \<noteq> Some (activeSignature now (UsersForNode n (store a)))" "map_of (conns a) n = Some c" "GetNode now n (store a) = Inr node"
  shows "concs now n (Start, q, a)
    (Built (activeSignature now (UsersForNode n (store a))) c (config_msg node (buildXrayConfig now node (UsersForNode n (store a)))), q, a)"
proof -
  let ?sig = "activeSignature now (UsersForNode n (store a))"
  have "conc now n (Start, q, a) (Signed ?sig, q, a)" by (rule conc.first) simp
  moreover have "conc now n (Signed ?sig, q, a) (Pushing ?sig, q, a)" by (rule conc.first) (use assms(1) in simp)
  moreover have "conc now n (Pushing ?sig, q, a) (Built ?sig c (config_msg node (buildXrayConfig now node (UsersForNode n (store a)))), q, a)"
    by (rule conc.first) (simp add: assms)
  ultimately show ?thesis by (meson converse_rtranclp_into_rtranclp rtranclp.rtrancl_refl)
qed

text \<open>The threads are alike.\<close>

lemma conc_swap: "conc now n (p, q, a) (p', q', a') \<Longrightarrow> conc now n (q, p, a) (q', p', a')"
  by (cases rule: conc.cases) (auto intro: conc.intros)

fun swapped :: "sync_pc \<times> sync_pc \<times> App \<Rightarrow> sync_pc \<times> sync_pc \<times> App" where
  "swapped (p, q, a) = (q, p, a)"

lemma conc_swapped: "conc now n x y \<Longrightarrow> conc now n (swapped x) (swapped y)"
  by (cases x, cases y) (simp add: conc_swap)

lemma concs_swapped: "concs now n x y \<Longrightarrow> concs now n (swapped x) (swapped y)"
  by (induction rule: rtranclp_induct) (auto intro: rtranclp.rtrancl_into_rtrancl conc_swapped)

lemma concs_swap: "concs now n (p, q, a) (p', q', a') \<Longrightarrow> concs now n (q, p, a) (q', p', a')"
  using concs_swapped [of now n "(p, q, a)" "(p', q', a')"] by simp

text \<open>Both have built; the second sends and the first sends after it; the first records and the second records after it.\<close>

lemma crossing:
  assumes "c < length (objs a)" "\<not> ncClosed (objs a ! c)" "length (ncSend (objs a ! c)) + 2 \<le> sendCap"
  shows "concs now n (Built s1 c m1, Built s2 c m2, a)
    (Finished, Finished, (queued c m1 (queued c m2 a))\<lparr>activeCache := gomap_set n s2 (gomap_set n s1 (activeCache a))\<rparr>)"
proof -
  let ?a2 = "queued c m2 a"
  let ?a3 = "queued c m1 ?a2"
  have 2: "objs ?a2 ! c = (objs a ! c)\<lparr>ncSend := ncSend (objs a ! c) @ [m2]\<rparr>" using assms(1) by (simp add: queued_def)
  have "conc now n (Built s1 c m1, Built s2 c m2, a) (Built s1 c m1, Sent s2, ?a2)"
    by (rule conc.second) (use assms trySend_queued [of a c] in simp)
  moreover have "conc now n (Built s1 c m1, Sent s2, ?a2) (Sent s1, Sent s2, ?a3)"
    by (rule conc.first) (use assms 2 trySend_queued [of ?a2 c] in simp)
  moreover have "conc now n (Sent s1, Sent s2, ?a3) (Finished, Sent s2, ?a3\<lparr>activeCache := gomap_set n s1 (activeCache a)\<rparr>)"
    by (rule conc.first) simp
  moreover have "conc now n (Finished, Sent s2, ?a3\<lparr>activeCache := gomap_set n s1 (activeCache a)\<rparr>)
      (Finished, Finished, ?a3\<lparr>activeCache := gomap_set n s2 (gomap_set n s1 (activeCache a))\<rparr>)"
    by (rule conc.second) simp
  ultimately show ?thesis by (meson converse_rtranclp_into_rtranclp rtranclp.rtrancl_refl)
qed

section \<open>Two deletions\<close>

text \<open>\<open>handleDeleteAdmin\<close> (\<open>src/internal/panel/admins.go\<close>) between its calls of the store, each of which holds the store's mutex.\<close>

datatype delete_pc = Counting | Deleting | Revoking | Deleted

fun delete_step :: "string \<Rightarrow> delete_pc \<times> Store \<Rightarrow> delete_pc \<times> Store" where
  "delete_step name (Counting, s) = (if CountAdmins s \<le> 1 then Deleted else Deleting, s)"
| "delete_step name (Deleting, s) = (Revoking, DeleteAdmin name s)"
| "delete_step name (Revoking, s) = (Deleted, BumpAdminSessionEpoch name s)"
| "delete_step name (Deleted, s) = (Deleted, s)"

text \<open>Alone, the handler: what it stores before the audit line.\<close>

lemma alone_handleDeleteAdmin:
  "(delete_step name ^^ 3) (Counting, s) = (Deleted, if CountAdmins s \<le> 1 then s else BumpAdminSessionEpoch name (DeleteAdmin name s))"
  by (simp add: numeral_eq_Suc)

lemma handleDeleteAdmin_steps:
  assumes "PathValue ''username'' r = name" "1 < CountAdmins (store a)"
  shows "snd (handleDeleteAdmin r a) = audit r ''admin.delete'' name (a\<lparr>store := snd ((delete_step name ^^ 3) (Counting, store a))\<rparr>)"
  using assms by (simp add: handleDeleteAdmin_def alone_handleDeleteAdmin)

lemma alone_never_last:
  assumes "admins_ok s" "admins s \<noteq> []"
  shows "admins (snd ((delete_step name ^^ 3) (Counting, s))) \<noteq> []"
proof (cases "CountAdmins s \<le> 1")
  case False
  then have "admins (DeleteAdmin name s) \<noteq> []" by (intro DeleteAdmin_rest assms(1)) simp
  then show ?thesis using False by (simp add: alone_handleDeleteAdmin BumpAdminSessionEpoch_def sql_update_def)
qed (use assms(2) in \<open>simp add: alone_handleDeleteAdmin\<close>)

text \<open>Two requests beside each other.\<close>

inductive deletes :: "string \<Rightarrow> string \<Rightarrow> delete_pc \<times> delete_pc \<times> Store \<Rightarrow> delete_pc \<times> delete_pc \<times> Store \<Rightarrow> bool" for x y where
  none: "deletes x y z z"
| first: "delete_step x (p, s) = (p', s') \<Longrightarrow> deletes x y (p', q, s') z \<Longrightarrow> deletes x y (p, q, s) z"
| second: "delete_step y (q, s) = (q', s') \<Longrightarrow> deletes x y (p, q', s') z \<Longrightarrow> deletes x y (p, q, s) z"

text \<open>A defect: the check that an admin remains is not part of the deletion. When the only two admins delete each other at the same moment
  both requests can pass the check, and the panel is left without an admin until a restart creates the configured one.\<close>

lemma crossing_deletes_leave_no_admin:
  assumes "map arUsername (admins s) = [x, y]"
  shows "\<exists>s'. deletes x y (Counting, Counting, s) (Deleted, Deleted, s') \<and> CountAdmins s' = 0"
proof -
  let ?d = "DeleteAdmin y (DeleteAdmin x s)"
  have empty: "admins ?d = []" using assms by (auto simp: DeleteAdmin_def sql_delete_def filter_empty_conv)
  have count: "\<not> CountAdmins s \<le> 1" using arg_cong [OF assms, of length] by (simp add: CountAdmins_def)
  have b: "BumpAdminSessionEpoch z ?d = ?d" for z by (simp add: BumpAdminSessionEpoch_def empty sql_update_def)
  have "deletes x y (Revoking, Revoking, ?d) (Deleted, Deleted, ?d)"
    by (rule deletes.first [where p' = Deleted and s' = ?d], simp add: b, rule deletes.second [where q' = Deleted and s' = ?d], simp add: b, rule deletes.none)
  then have "deletes x y (Deleting, Deleting, s) (Deleted, Deleted, ?d)"
    using deletes.first [of x Deleting s Revoking "DeleteAdmin x s"] deletes.second [of y Deleting "DeleteAdmin x s" Revoking ?d] by simp
  then have "deletes x y (Counting, Counting, s) (Deleted, Deleted, ?d)"
    using deletes.first [of x Counting s Deleting s] deletes.second [of y Counting s Deleting s] count by simp
  with empty show ?thesis by (auto simp: CountAdmins_def)
qed

section \<open>Property\<close>

text \<open>C5: a defect: two synchronisations that cross leave a removed user on the node for good. After a first change of the users (one thread is
  about to send the configuration for it) and a second change, say that a user is disabled (another thread
  sends the one for that), the older configuration can be queued last while the newer signature is recorded last. Then the last
  configuration on the node's connection is the one for the state before the second change, and as the cache says it is
  current, every later synchronisation, that of the enforcement loop included, does nothing until the users change again or the node reconnects.\<close>

theorem sync_race_keeps_removed_users:
  assumes "running a" "map_of (conns a) n = Some c" "length (ncSend (objs a ! c)) + 2 \<le> sendCap"
    and "api_store (store a) s1" "api_store s1 s2" "GetNode now n s1 = Inr node" "GetNode now n s2 = Inr node'"
    and "map_of (activeCache a) n \<notin> {Some (activeSignature now (UsersForNode n s1)), Some (activeSignature now (UsersForNode n s2))}"
  shows "\<exists>b. concs now n (Start, Start, a) (Finished, Finished, b) \<and> store b = s2 \<and> map_of (conns b) n = Some c \<and>
    last_config (stream c b) = Some (config_msg node (Build (node_params node) (active_clients now (UsersForNode n s1)))) \<and>
    (\<forall>t. activeSignature t (UsersForNode n s2) = activeSignature now (UsersForNode n s2) \<longrightarrow> syncNode t n b = b)"
proof -
  let ?m1 = "config_msg node (buildXrayConfig now node (UsersForNode n s1))" and ?m2 = "config_msg node' (buildXrayConfig now node' (UsersForNode n s2))"
  let ?g1 = "activeSignature now (UsersForNode n s1)" and ?g2 = "activeSignature now (UsersForNode n s2)"
  let ?a1 = "a\<lparr>store := s1\<rparr>" and ?a2 = "a\<lparr>store := s2\<rparr>"
  let ?b = "(queued c ?m1 (queued c ?m2 ?a2))\<lparr>activeCache := gomap_set n ?g2 (gomap_set n ?g1 (activeCache a))\<rparr>"
  have "hub_ok a" using running_ok [OF assms(1)] by (simp add: full_ok_def panel_ok_def)
  from hub_okD [OF this assms(2)] have c: "c < length (objs a)" "\<not> ncClosed (objs a ! c)" by blast+
  have 1: "conc now n (Start, Start, a) (Start, Start, ?a1)" by (rule conc.stored) (rule assms(4))
  have 2: "concs now n (Start, Start, ?a1) (Built ?g1 c ?m1, Start, ?a1)"
    using first_builds [of ?a1 n now c node Start] assms(2,6,8) by simp
  have 3: "conc now n (Built ?g1 c ?m1, Start, ?a1) (Built ?g1 c ?m1, Start, ?a2)"
    using conc.stored [of ?a1 s2] assms(5) by simp
  have 4: "concs now n (Built ?g1 c ?m1, Start, ?a2) (Built ?g1 c ?m1, Built ?g2 c ?m2, ?a2)"
    by (rule concs_swap) (use first_builds [of ?a2 n now c node' "Built ?g1 c ?m1"] assms(2,7,8) in simp)
  have 5: "concs now n (Built ?g1 c ?m1, Built ?g2 c ?m2, ?a2) (Finished, Finished, ?b)"
    using crossing [of c ?a2 now n ?g1 ?m1 ?g2 ?m2] c assms(3) by simp
  have path: "concs now n (Start, Start, a) (Finished, Finished, ?b)"
    using converse_rtranclp_into_rtranclp [OF 1 rtranclp_trans [OF 2 converse_rtranclp_into_rtranclp [OF 3 rtranclp_trans [OF 4 5]]]] .
  have "stream c ?b = stream c a @ [?m2, ?m1]" using c(1) by (simp add: stream_def queued_def)
  then have "last_config (stream c ?b) = Some ?m1" by (simp add: last_config_def)
  then have last: "last_config (stream c ?b) = Some (config_msg node (Build (node_params node) (active_clients now (UsersForNode n s1))))"
    by (simp add: buildXrayConfig_def)
  have "syncNode t n ?b = ?b" if "activeSignature t (UsersForNode n s2) = ?g2" for t
    using that by (simp add: syncNode_def queued_def)
  with path last assms(2) show ?thesis by (intro exI [of _ ?b] conjI) (simp_all add: queued_def)
qed


text \<open>The example: rotating the UUID of the panel's only user, then deleting the user.\<close>

definition zero_uuid :: string where
  "zero_uuid = newUUID (replicate 16 0)"

lemma zero_uuid_made: "uuid_made zero_uuid"
  unfolding uuid_made_def zero_uuid_def by (rule exI [of _ "replicate 16 (CHR 0x00)"]) (simp add: bytes_of_def)

lemma zero_uuid_text: "zero_uuid = ''00000000-0000-4000-8000-000000000000''"
  unfolding zero_uuid_def by code_simp

lemma demo_hash_al: "of_char (hd (sha256 ''[al:123e4567-e89b-42d3-a456-426614174000]'')) = (225 :: nat)"
proof -
  let ?ws = "[1533111354, 825373541, 875902519, 761608249, 1647129650, 1681075553, 875902509, 875705910, 825504055, 875573296, 1568669696, 0, 0, 0, 0, 328]"
  have 1: "words_int (sha_pad (bytes_of ''[al:123e4567-e89b-42d3-a456-426614174000]'')) = ?ws" by (simp add: pad_eval)
  have 2: "foldl round_int init_int (zip k256_int (rev (sched_int 48 (rev ?ws)))) =
      (2009598889, 4085286953, 3229416490, 568177416, 3379040536, 914062749, 525063676, 875991457)" by code_simp
  show ?thesis by (subst hd_sha256 [OF _ 1 _ _ 2]) (simp_all add: in32_def byte_of_word_def)
qed

lemma demo_hash_al_rotated: "of_char (hd (sha256 ''[al:00000000-0000-4000-8000-000000000000]'')) = (197 :: nat)"
proof -
  let ?ws = "[1533111354, 808464432, 808464432, 758132784, 808268848, 808463672, 808464429, 808464432, 808464432, 808464432, 1568669696, 0, 0, 0, 0, 328]"
  have 1: "words_int (sha_pad (bytes_of ''[al:00000000-0000-4000-8000-000000000000]'')) = ?ws" by (simp add: pad_eval)
  have 2: "foldl round_int init_int (zip k256_int (rev (sched_int 48 (rev ?ws)))) =
      (1535257592, 1251594180, 3445779093, 3218150404, 669472078, 939308178, 3095971962, 1301264151)" by code_simp
  show ?thesis by (subst hd_sha256 [OF _ 1 _ _ 2]) (simp_all add: in32_def byte_of_word_def)
qed

lemma demo_hash_none: "of_char (hd (sha256 ''[]'')) = (79 :: nat)"
proof -
  let ?ws = "[1532854272, 0, 0, 0, 0, 0, 0, 0, 0, 0, 0, 0, 0, 0, 0, 16]"
  have 1: "words_int (sha_pad (bytes_of ''[]'')) = ?ws" by (simp add: pad_eval)
  have 2: "foldl round_int init_int (zip k256_int (rev (sched_int 48 (rev ?ws)))) =
      (3846825786, 3502504839, 3336947693, 4109293227, 2617530574, 4077670907, 480982891, 3055676460)" by code_simp
  show ?thesis by (subst hd_sha256 [OF _ 1 _ _ 2]) (simp_all add: in32_def byte_of_word_def)
qed

lemma cache_forceSyncNode:
  "map_of (activeCache (forceSyncNode now n a)) n \<in> {None, Some (activeSignature now (UsersForNode n (store a)))}"
  by (auto simp: forceSyncNode_def Let_def split: prod.split)

text \<open>In the example the node's cached signature is the one of its user, with the UUID given at first.\<close>

lemma demo_cached:
  obtains a where "running a" "map_of (conns a) 1 = Some 0" "length (ncSend (objs a ! 0)) \<le> 1"
    "GetNode 0 1 (store a) = Inr (scanNode 0 (store a) (demo_node\<lparr>nrAgentVersion := ''v1''\<rparr>))"
    "users (store a) = [demo_user]" "user_nodes (store a) = [(1, 1)]"
    "map_of (activeCache a) 1 \<in> {None, Some (activeSignature 0 (UsersForNode 1 (store a)))}"
proof -
  obtain a0 where a0: "demo_boot = Some a0" "conns a0 = []" "objs a0 = []"
    "nodes (store a0) = [demo_node]" "users (store a0) = [demo_user]" "user_nodes (store a0) = [(1, 1)]"
    using demo_boot_state by (auto split: option.splits)
  obtain a0' a where a: "demo_boot = Some a0'" "handleWS 0 demo_register a0' = Some (0, a)" "panel_reach a" "map_of (conns a) 1 = Some 0"
    "GetNode 0 1 (store a) = Inr (scanNode 0 (store a) (demo_node\<lparr>nrAgentVersion := ''v1''\<rparr>))"
    "users (store a) = [demo_user]" "user_nodes (store a) = [(1, 1)]"
    by (rule demo_connecting)
  let ?b = "noticeOnline 1 ''n1'' (with_store (SetNodeAgentVersion 1 ''v1'') (with_store (TouchNode 0 1) (connect 1 a0)))"
  have "GetNodeByToken 0 ''tok'' (store a0) = Inr (scanNode 0 (store a0) demo_node)"
    by (simp add: GetNodeByToken_def query_row_def a0(4) demo_node_def)
  then have "handleWS 0 demo_register a0 = Some (0, forceSyncNode 0 1 ?b)"
    by (simp add: handleWS_eq demo_register_def empty_msg_def a0(3) scanNode_def demo_node_def)
  moreover have e: "a0' = a0" using a0(1) unfolding a(1) by simp
  ultimately have f: "a = forceSyncNode 0 1 ?b" using a(2) by simp
  have "running a0" using a0(1) unfolding demo_boot_def by (rule running.booted [OF demo_store_ok demo_data_ok])
  then have r: "running a" by (rule running.stepped) (rule run_step.connected, use a(2) e in simp)
  have ok: "hub_ok a0" using running_ok [OF \<open>running a0\<close>] by (simp add: full_ok_def panel_ok_def)
  have "ncSend (objs ?b ! 0) = []" by (simp add: objs_connect [OF ok] a0(2,3))
  then have q: "length (ncSend (objs a ! 0)) \<le> 1" using forceSyncNode_queue [of 0 1 ?b 0] by (simp add: f)
  have "store ?b = store a" by (simp add: f)
  then have "map_of (activeCache a) 1 \<in> {None, Some (activeSignature 0 (UsersForNode 1 (store a)))}"
    using cache_forceSyncNode [of 0 1 ?b] by (simp only: f)
  with r a(4-7) q show thesis by (intro that)
qed


theorem sync_race_keeps_removed_users_witness:
  "\<exists>a b c node u. running a \<and> concs 0 1 (Start, Start, a) (Finished, Finished, b) \<and> map_of (conns b) 1 = Some c \<and>
     active_clients 0 (UsersForNode 1 (store b)) = [] \<and> last_config (stream c b) = Some (config_msg node (Build (node_params node) [u])) \<and>
     cEmail u = ''al'' \<and> (\<forall>t. syncNode t 1 b = b)"
proof -
  obtain a where a: "running a" "map_of (conns a) 1 = Some 0" "length (ncSend (objs a ! 0)) \<le> 1"
    "GetNode 0 1 (store a) = Inr (scanNode 0 (store a) (demo_node\<lparr>nrAgentVersion := ''v1''\<rparr>))"
    "users (store a) = [demo_user]" "user_nodes (store a) = [(1, 1)]"
    "map_of (activeCache a) 1 \<in> {None, Some (activeSignature 0 (UsersForNode 1 (store a)))}"
    by (rule demo_cached)
  let ?s1 = "SetUserUUID 1 zero_uuid (store a)"
  let ?s2 = "DeleteUser 1 ?s1"
  have l: "length (ncSend (objs a ! 0)) + 2 \<le> sendCap" using a(3) by (simp add: sendCap_def)
  have u: "users ?s1 = [demo_user\<lparr>urUUID := zero_uuid\<rparr>]" "user_nodes ?s1 = [(1, 1)]" "users ?s2 = []"
    by (simp_all add: SetUserUUID_def DeleteUser_def a(5,6) demo_user_def upd_user_def sql_update_def sql_delete_def)
  have g0: "active_clients 0 (UsersForNode 1 (store a)) = [\<lparr>cUUID = ''123e4567-e89b-42d3-a456-426614174000'', cEmail = ''al''\<rparr>]"
    by (simp add: active_clients_def UsersForNode_def a(5,6) active_def) (simp add: demo_user_def)
  have g1: "active_clients 0 (UsersForNode 1 ?s1) = [\<lparr>cUUID = ''00000000-0000-4000-8000-000000000000'', cEmail = ''al''\<rparr>]"
    by (simp add: active_clients_def UsersForNode_def u active_def) (simp add: demo_user_def zero_uuid_text)
  have n2: "UsersForNode 1 ?s2 = []" by (simp add: UsersForNode_def u(3))
  have g2: "active_clients t (UsersForNode 1 ?s2) = []" for t by (simp add: active_clients_def n2)
  note t = activeSignature_clients clients_sig_def clients_text_def client_line_def
  have sig: "map_of (activeCache a) 1 \<notin> {Some (activeSignature 0 (UsersForNode 1 ?s1)), Some (activeSignature 0 (UsersForNode 1 ?s2))}"
    using a(7) demo_hash_al demo_hash_al_rotated demo_hash_none by (auto simp: t g0 g1 g2)
  have same: "activeSignature t (UsersForNode 1 ?s2) = activeSignature 0 (UsersForNode 1 ?s2)" for t by (simp add: t g2)
  have gn: "GetNode 0 1 ?s1 = GetNode 0 1 (store a)" "\<exists>node. GetNode 0 1 ?s2 = Inr node"
    using a(4) by (simp_all add: SetUserUUID_def DeleteUser_def upd_user_def GetNode_def scanNode_def [abs_def] query_row_def split: option.splits)
  then obtain node' where node': "GetNode 0 1 ?s2 = Inr node'" by blast
  let ?node = "scanNode 0 (store a) (demo_node\<lparr>nrAgentVersion := ''v1''\<rparr>)"
  obtain b where b: "concs 0 1 (Start, Start, a) (Finished, Finished, b)" "store b = ?s2" "map_of (conns b) 1 = Some 0"
    "last_config (stream 0 b) = Some (config_msg ?node (Build (node_params ?node) (active_clients 0 (UsersForNode 1 ?s1))))"
    "\<forall>t. activeSignature t (UsersForNode 1 ?s2) = activeSignature 0 (UsersForNode 1 ?s2) \<longrightarrow> syncNode t 1 b = b"
    using sync_race_keeps_removed_users [OF a(1,2) l api_store.set_uuid [OF zero_uuid_made, of "store a" 1] api_store.delete_user [of _ 1]
      gn(1) [unfolded a(4)] node' sig] by blast
  have "\<forall>t. syncNode t 1 b = b" using b(5) same by blast
  moreover have "active_clients 0 (UsersForNode 1 (store b)) = []" by (simp add: b(2) g2)
  ultimately show ?thesis using a(1) b(1,3,4) unfolding g1 by (metis Client.select_convs(2))
qed

end
