(* ===== verification/Spec2Isabelle.thy ===== *)
theory Spec2Isabelle
  imports Frames Bot_Inv Entry Secrets Schedule Links Docker_Proxy Overflow Loops Net Interleave
begin

text \<open>
  A verification of Xuanwu: a panel that manages the users of proxy nodes, and the agent that runs on every
  node (Go sources under \<open>src/cmd\<close> and \<open>src/internal\<close>).

  \<^bold>\<open>The program.\<close> The panel (\<open>internal/panel\<close>) keeps users, nodes, admins, settings and traffic in SQLite, serves an
  admin API, a self-service portal, subscription links and a Telegram bot, and holds one websocket per node.
  Over it the agent (\<open>internal/agent\<close>) sends heartbeats, numbered traffic batches and device reports, and
  receives acknowledgements and complete engine configurations, which it applies to the Xray engine live, user by
  user, or by a restart. \<open>internal/nodeconf\<close> builds the configuration, \<open>internal/wire\<close> declares the frames. Without a
  panel the agent runs standalone on a local user file.

  \<^bold>\<open>How code becomes definitions.\<close> One definition per Go function, under its Go name where the name is free, taking and
  returning the state explicitly; a method on \<open>App\<close>, \<open>Store\<close> or \<open>Config\<close> is a function on that record. Loops that run forever are
  given by one iteration. \<open>int64\<close> is \<open>int\<close> with \<open>wrap64\<close> written out, \<open>float64\<close> is a rational with the rounding of
  \<open>Float64\<close>, a Go string is a list of bytes (\<open>string\<close>), a Go map an association list with distinct keys (\<open>gomap\<close>), so that
  nothing depends on the order of iteration unless the code does. Errors are \<open>sum\<close> or \<open>option\<close> values, one branch per
  early return. The clock, random bytes, file contents and the outcome of every write, send and external call
  are arguments. Every recursion is structural or has a termination proof, so no fuel is used anywhere; \<open>Loops\<close> gives the two loops driven
  by data also as loops that might not end (\<open>partial_function\<close>, \<open>while_option\<close>) and shows that they end with the component's result.

  \<^bold>\<open>Foundations.\<close>
  \<^item> \<open>Prelude\<close>: integers, maps, lists. \<open>Go_Strings\<close>, \<open>Calendar\<close>, \<open>Codec\<close>, \<open>Url\<close>, \<open>Json\<close>, \<open>Decode\<close>, \<open>Marshal\<close>, \<open>Float64\<close>, \<open>Sha\<close>: what the
    code uses of the standard library (strings, UTC dates, base64 and hex, URL escaping, JSON values, decoding into
    structs and printing, rounding, SHA-1, SHA-256 and HMAC; \<open>Sha_Eval\<close> evaluates SHA-256 and checks it on the standard's example). The encodings share the locale of \<open>Codec\<close>.
  \<^item> \<open>Tables\<close>: SQL statements on tables and the locale \<open>upsert_table\<close>, interpreted on the tables of \<open>Store\<close> in \<open>Store_Inv\<close>.

  \<^bold>\<open>The panel.\<close>
  \<^item> \<open>Models\<close> (models.go), \<open>Crypt\<close> (crypt.go), \<open>Store\<close> and \<open>Reports\<close> (store.go); \<open>Store_Inv\<close>: the database invariant \<open>store_ok\<close>.
  \<^item> \<open>Validate\<close> (validate.go), \<open>Auth\<close> and \<open>Limiter\<close> (auth.go), \<open>Totp\<close> (totp.go), \<open>Ids\<close> (newUUID, nodekey.go).
  \<^item> \<open>App\<close> (state, configuration and start-up of app.go; settings.go, notify.go), \<open>Hub\<close> (hub.go, traffic.go, config.go,
    notify.go); \<open>Nodeconf\<close> (nodeconf.go), \<open>Wire\<close> (wire.go).
  \<^item> \<open>Request\<close>, \<open>Views\<close>, \<open>Api\<close> (api.go, admins.go, keys.go), \<open>Accounts\<close> (twofa.go, portal.go, settings.go, notify.go, backup.go,
    reset.go), \<open>Subscription\<close> (sub.go), \<open>Bot\<close> (bot.go), \<open>Routes\<close> (the multiplexer of app.go, middleware.go).
  \<^item> \<open>Hub_Inv\<close>: connection table and signature cache, with \<open>panel_step\<close> as one atomic piece of work, and what a
    synchronisation gives a node. \<open>Api_Steps\<close>: every route and bot command is a sequence of \<open>api_step\<close>s; \<open>Panel_Inv\<close>: \<open>running\<close>,
    the states reached from start-up by requests, bot commands, frames and background loops, and their invariant; the locale
    \<open>store_invariant\<close> is what a property of the database has to keep to hold in all of them (interpreted on \<open>sys_ok\<close> and, in \<open>Secrets\<close>, on \<open>secrets_sealed\<close>).
  \<^item> On \<open>running\<close> states: \<open>Access\<close> (sessions and what needs one), \<open>Push\<close> (changes reach the nodes), \<open>Secrets\<close>
    (nothing in the clear), \<open>Schedule\<close> (monthly resets), \<open>Links\<close> (subscriptions), \<open>Bot_Inv\<close> (the allowlist).
  \<^item> Below the model's abstractions: \<open>Interleave\<close> takes \<open>syncNode\<close> apart into the steps between which other goroutines run, \<open>Overflow\<close> gives
    the reads of users the error they have when a counter leaves 64 bits. Both find a defect.

  \<^bold>\<open>The agent.\<close>
  \<^item> \<open>Pending\<close> (pending.go), \<open>Stats\<close> (stats.go), \<open>Devices\<close> (devices.go), \<open>Metrics\<close> (metrics.go), \<open>Edge\<close> (nginx.go, acme.go), \<open>Docker_Proxy\<close>
    (dockerproxy.go), \<open>Live\<close> (xray.go, live_grpc.go, baseline.go, certwatch.go), \<open>Agent\<close> (agent.go), \<open>Standalone\<close> (standalone.go,
    localstore.go), \<open>Entry\<close> (the two main functions and the end of \<open>Run\<close>), \<open>Net\<close> (\<open>wsURL\<close>, and of the panel the origin check and the calls
    of the Telegram API).
  \<^item> \<open>Live_Inv\<close>: what the engine runs after a push, live or by restart, for every engine with the documented behaviour \<open>engine_ok\<close>.

  \<^bold>\<open>Panel and agent together.\<close>
  \<^item> \<open>Protocol\<close>: the contract of traffic accounting as locales \<open>traffic_sender\<close>, \<open>traffic_receiver\<close> and \<open>delivery\<close>, with the invariant
    of the two joined by lossy FIFO channels; \<open>Delivery\<close> interprets them on the buffer and the ingestion and derives that
    traffic is credited exactly once and settles; \<open>Sessions\<close>: the session code is a refinement of that protocol.
  \<^item> \<open>End_to_End\<close>: from the database to the engine: the users a node's engine admits are exactly the active assigned ones.
  \<^item> \<open>Frames\<close>: the types of both directions of the wire, and that the agent's parser reads every pushed configuration back.

  \<^bold>\<open>Parameters and hypotheses.\<close> bcrypt, the Unicode classes beyond ASCII, AES-GCM with its key derivation (\<open>aead\<close>), the X25519
  multiplication, QR drawing, the parsers of \<open>net/url\<close> and \<open>encoding/pem\<close> and the Xray API (\<open>engine_api\<close>) are parameters. \<open>aead_ok\<close> (decryption inverts
  encryption), \<open>pem_ok\<close> (a block that is found is taken off the data), \<open>engine_ok\<close> (adding, removing and restarting do what they report) and \<open>rand_ok\<close> (random reads are as long as asked)
  state their documented behaviour; each is shown to hold for a concrete instance by the witnesses. Where signatures are compared
  the statement says "unless SHA-256 collides on these two texts" instead of assuming that it cannot. The assumption that sequence
  numbers stay below \<open>max_int64\<close> is stated where it is used.

  \<^bold>\<open>Atomicity.\<close> A step is one handler, frame or loop iteration. The store serialises single calls with its mutex, and
  \<open>api_step\<close>, the unit of the panel's invariant, is one such call together with what the handler checked before it. The code ensures neither
  that such a check still holds at the call nor that a synchronisation is one step. \<open>Interleave\<close> has the two places where this matters
  step by step, agrees with the model when they run alone, and shows what crossing does: two synchronisations leave a node with a stale
  configuration that the cache calls current, and two deletions leave the panel without an admin.

  \<^bold>\<open>Not modelled.\<close> The HTTP and websocket libraries (parsing, upgrade, deadlines, draining requests on shutdown), dialing, the file
  server behind the ETags, the transport of the calls to Telegram, logging and mutexes, errors of SQLite other than constraint violations
  and overflowed counters, the schema migration and \<open>VACUUM INTO\<close>, JSON text of request bodies (a body is its value), the web
  pages, deploy scripts and tests. These are input and output around the modelled code, or libraries it calls.
\<close>

end
